(* ===== verification/Prelude.thy ===== *)
theory Prelude
  imports Main "HOL-Library.Word"
begin

text \<open>
  Shared vocabulary of the development: machine integers, the result type of fallible Rust
  code, the operator \<open>?\<close>, saturating addition, and the association-list model of Rust's
  \<open>HashMap\<close> and \<open>BTreeMap\<close> behind a locale.

  A fallible operation returns \<open>string + 'a\<close>: \<open>Inl\<close> carries the text that the
  source's \<open>anyhow::Error\<close> or \<open>String\<close> error displays (the outermost context),
  \<open>Inr\<close> the value.
\<close>

named_theorems frame
  \<comment> \<open>which fields an operation leaves alone\<close>
named_theorems rust_eval
  \<comment> \<open>unfolding equations for evaluating the model on concrete inputs\<close>

type_synonym u8 = "8 word"
type_synonym u32 = "32 word"
type_synonym u64 = "64 word"
type_synonym bytes = "u8 list"
type_synonym 'a result = "string + 'a"

section \<open>Results\<close>

definition bind_res :: "'a result \<Rightarrow> ('a \<Rightarrow> 'b result) \<Rightarrow> 'b result" where
  "bind_res r f = (case r of Inl e \<Rightarrow> Inl e | Inr x \<Rightarrow> f x)"

definition map_err :: "(string \<Rightarrow> string) \<Rightarrow> 'a result \<Rightarrow> 'a result" where
  "map_err f r = (case r of Inl e \<Rightarrow> Inl (f e) | Inr x \<Rightarrow> Inr x)"

abbreviation context_msg :: "string \<Rightarrow> 'a result \<Rightarrow> 'a result" where
  "context_msg msg r \<equiv> map_err (\<lambda>_. msg) r"

definition ok_or :: "string \<Rightarrow> 'a option \<Rightarrow> 'a result" where
  "ok_or msg x = (case x of None \<Rightarrow> Inl msg | Some v \<Rightarrow> Inr v)"

definition res_ok :: "'a result \<Rightarrow> 'a option" where
  "res_ok r = (case r of Inl _ \<Rightarrow> None | Inr x \<Rightarrow> Some x)"

definition is_ok :: "'a result \<Rightarrow> bool" where
  "is_ok r = (case r of Inl _ \<Rightarrow> False | Inr _ \<Rightarrow> True)"

definition unwrap_or :: "'a \<Rightarrow> 'a option \<Rightarrow> 'a" where
  "unwrap_or d x = (case x of None \<Rightarrow> d | Some v \<Rightarrow> v)"

definition option_or :: "'a option \<Rightarrow> 'a option \<Rightarrow> 'a option" where
  "option_or x y = (case x of None \<Rightarrow> y | Some v \<Rightarrow> Some v)"

definition option_filter :: "('a \<Rightarrow> bool) \<Rightarrow> 'a option \<Rightarrow> 'a option" where
  "option_filter P x = (case x of None \<Rightarrow> None | Some v \<Rightarrow> if P v then Some v else None)"

lemma bind_res_simps [simp]:
  "bind_res (Inl e) f = Inl e"
  "bind_res (Inr x) f = f x"
  by (simp_all add: bind_res_def)

lemma bind_res_Inr_iff: "bind_res r f = Inr y \<longleftrightarrow> (\<exists>x. r = Inr x \<and> f x = Inr y)"
  by (cases r) auto

lemma bind_res_Inl_iff:
  "bind_res r f = Inl e \<longleftrightarrow> r = Inl e \<or> (\<exists>x. r = Inr x \<and> f x = Inl e)"
  by (cases r) auto

lemma bind_res_split:
  "P (bind_res r f) \<longleftrightarrow> (\<forall>e. r = Inl e \<longrightarrow> P (Inl e)) \<and> (\<forall>x. r = Inr x \<longrightarrow> P (f x))"
  by (cases r) auto

lemma bind_res_assoc: "bind_res (bind_res r f) g = bind_res r (\<lambda>x. bind_res (f x) g)"
  by (cases r) auto

lemma map_err_simps [simp]:
  "map_err f (Inl e) = Inl (f e)"
  "map_err f (Inr x) = Inr x"
  by (simp_all add: map_err_def)

lemma map_err_Inr_iff [simp]: "map_err f r = Inr x \<longleftrightarrow> r = Inr x"
  by (cases r) auto

lemma ok_or_simps [simp]:
  "ok_or m None = Inl m"
  "ok_or m (Some x) = Inr x"
  by (simp_all add: ok_or_def)

lemma ok_or_Inr_iff: "ok_or m x = Inr v \<longleftrightarrow> x = Some v"
  by (cases x) auto

lemma res_ok_simps [simp]:
  "res_ok (Inl e) = None"
  "res_ok (Inr x) = Some x"
  by (simp_all add: res_ok_def)

lemma is_ok_simps [simp]:
  "is_ok (Inl e) = False"
  "is_ok (Inr x) = True"
  by (simp_all add: is_ok_def)

lemma is_ok_iff: "is_ok r \<longleftrightarrow> (\<exists>x. r = Inr x)"
  by (cases r) auto

lemma unwrap_or_simps [simp]:
  "unwrap_or d None = d"
  "unwrap_or d (Some v) = v"
  by (simp_all add: unwrap_or_def)

lemma option_or_simps [simp]:
  "option_or None y = y"
  "option_or (Some v) y = Some v"
  by (simp_all add: option_or_def)

lemma option_filter_simps [simp]:
  "option_filter P None = None"
  "option_filter P (Some v) = (if P v then Some v else None)"
  by (simp_all add: option_filter_def)

lemma option_filter_Some_iff: "option_filter P x = Some v \<longleftrightarrow> x = Some v \<and> P v"
  by (cases x) auto

section \<open>Saturating addition\<close>

definition sat_add :: "'a::len word \<Rightarrow> 'a word \<Rightarrow> 'a word" where
  "sat_add a b = (if unat a + unat b < 2 ^ LENGTH('a) then a + b else - 1)"

lemma unat_sat_add: "unat (sat_add a b) = min (unat a + unat b) (2 ^ LENGTH('a) - 1)"
  for a b :: "'a::len word"
proof (cases "unat a + unat b < 2 ^ LENGTH('a)")
  case True
  then have "unat (a + b) = unat a + unat b" by (simp add: unat_word_ariths)
  with True show ?thesis by (simp add: sat_add_def)
next
  case False
  have "unat (- 1 :: 'a word) = 2 ^ LENGTH('a) - 1"
    by (simp add: unsigned_minus_1_eq_mask mask_eq_exp_minus_1)
  with False show ?thesis by (simp add: sat_add_def)
qed

lemma sat_add_mono: "unat a \<le> unat (sat_add a b)" for a b :: "'a::len word"
proof -
  have "unat a < 2 ^ LENGTH('a)" by (rule unsigned_less)
  then have "unat a \<le> 2 ^ LENGTH('a) - 1" by linarith
  then show ?thesis by (simp add: unat_sat_add)
qed

section \<open>Time\<close>

text \<open>Instants and durations are natural numbers of nanoseconds on the monotonic clock.\<close>

type_synonym instant = nat
type_synonym duration = nat

definition secs :: "nat \<Rightarrow> duration" where
  "secs n = n * 1000000000"

definition as_secs :: "duration \<Rightarrow> nat" where
  "as_secs d = d div 1000000000"

section \<open>Maps\<close>

text \<open>
  The finite-map interface the program uses of \<open>HashMap\<close>, \<open>BTreeMap\<close> and
  \<open>HashSet\<close>-keyed tables: an empty map, insertion that overwrites, removal, retention by
  a predicate and the number of entries. Everything a client needs follows from what a lookup
  returns after each operation.
\<close>

locale finite_map =
  fixes get :: "'m \<Rightarrow> 'k \<Rightarrow> 'v option"
    and empty :: "'m"
    and ins :: "'k \<Rightarrow> 'v \<Rightarrow> 'm \<Rightarrow> 'm"
    and del :: "'k \<Rightarrow> 'm \<Rightarrow> 'm"
    and retain :: "('k \<Rightarrow> 'v \<Rightarrow> bool) \<Rightarrow> 'm \<Rightarrow> 'm"
    and size_of :: "'m \<Rightarrow> nat"
    and inv :: "'m \<Rightarrow> bool"
  assumes inv_empty: "inv empty"
    and inv_ins: "inv m \<Longrightarrow> inv (ins k v m)"
    and inv_del: "inv m \<Longrightarrow> inv (del k m)"
    and inv_retain: "inv m \<Longrightarrow> inv (retain P m)"
    and get_empty: "get empty k = None"
    and get_ins: "get (ins k v m) k' = (if k' = k then Some v else get m k')"
    and get_del: "inv m \<Longrightarrow> get (del k m) k' = (if k' = k then None else get m k')"
    and get_retain: "inv m \<Longrightarrow> get (retain P m) k = option_filter (P k) (get m k)"
    and size_get: "inv m \<Longrightarrow> size_of m = card {k. get m k \<noteq> None}"
    and finite_get: "finite {k. get m k \<noteq> None}"
begin

definition of_pairs :: "('k \<times> 'v) list \<Rightarrow> 'm" where
  "of_pairs ps = fold (\<lambda>(k, v) m. ins k v m) ps empty"

lemma inv_fold_ins: "inv m \<Longrightarrow> inv (fold (\<lambda>(k, v) m. ins k v m) ps m)"
  by (induction ps arbitrary: m) (auto intro: inv_ins)

lemma inv_of_pairs: "inv (of_pairs ps)"
  by (simp add: of_pairs_def inv_fold_ins inv_empty)

lemma get_fold_ins:
  "get (fold (\<lambda>(k, v) m. ins k v m) ps m) k = option_or (map_of (rev ps) k) (get m k)"
proof (induction ps arbitrary: m)
  case Nil
  then show ?case by simp
next
  case (Cons p ps)
  obtain k' v' where p: "p = (k', v')" by fastforce
  show ?case
    by (cases "map_of (rev ps) k")
      (simp_all add: Cons.IH p get_ins map_add_def)
qed

lemma get_of_pairs: "get (of_pairs ps) k = map_of (rev ps) k"
  by (cases "map_of (rev ps) k") (simp_all add: of_pairs_def get_fold_ins get_empty)

lemma size_ins_present:
  assumes "inv m" "get m k \<noteq> None"
  shows "size_of (ins k v m) = size_of m"
proof -
  have "{k'. get (ins k v m) k' \<noteq> None} = {k'. get m k' \<noteq> None}"
    using assms(2) by (auto simp: get_ins)
  then show ?thesis using assms(1) by (simp add: size_get inv_ins)
qed

lemma size_retain_le: "inv m \<Longrightarrow> size_of (retain P m) \<le> size_of m"
  unfolding size_get [OF inv_retain] size_get
  by (rule card_mono [OF finite_get]) (auto simp: get_retain option_filter_Some_iff)

lemma size_zero_iff: "inv m \<Longrightarrow> size_of m = 0 \<longleftrightarrow> (\<forall>k. get m k = None)"
  using finite_get by (auto simp: size_get)

end

type_synonym ('k, 'v) amap = "('k \<times> 'v) list"

abbreviation am_get :: "('k, 'v) amap \<Rightarrow> 'k \<Rightarrow> 'v option" where
  "am_get \<equiv> map_of"

fun am_insert :: "'k \<Rightarrow> 'v \<Rightarrow> ('k, 'v) amap \<Rightarrow> ('k, 'v) amap" where
  "am_insert k v [] = [(k, v)]"
| "am_insert k v ((k', v') # m) = (if k' = k then (k, v) # m else (k', v') # am_insert k v m)"

definition am_remove :: "'k \<Rightarrow> ('k, 'v) amap \<Rightarrow> ('k, 'v) amap" where
  "am_remove k m = filter (\<lambda>(k', _). k' \<noteq> k) m"

definition am_retain :: "('k \<Rightarrow> 'v \<Rightarrow> bool) \<Rightarrow> ('k, 'v) amap \<Rightarrow> ('k, 'v) amap" where
  "am_retain P m = filter (\<lambda>(k, v). P k v) m"

definition am_map :: "('v \<Rightarrow> 'w) \<Rightarrow> ('k, 'v) amap \<Rightarrow> ('k, 'w) amap" where
  "am_map f m = map (\<lambda>(k, v). (k, f v)) m"

definition am_of_pairs :: "('k \<times> 'v) list \<Rightarrow> ('k, 'v) amap" where
  "am_of_pairs ps = fold (\<lambda>(k, v) m. am_insert k v m) ps []"

definition am_inv :: "('k, 'v) amap \<Rightarrow> bool" where
  "am_inv m \<longleftrightarrow> distinct (map fst m)"

lemma fst_am_insert: "fst ` set (am_insert k v m) = insert k (fst ` set m)"
  by (induction k v m rule: am_insert.induct) auto

lemma am_inv_insert: "am_inv m \<Longrightarrow> am_inv (am_insert k v m)"
proof (induction k v m rule: am_insert.induct)
  case (2 k v k' v' m)
  then show ?case
    using fst_am_insert [of k v m] by (auto simp: am_inv_def)
qed (simp add: am_inv_def)

lemma am_inv_filter: "am_inv m \<Longrightarrow> am_inv (filter P m)"
  by (auto simp: am_inv_def distinct_map_filter)

lemma am_get_insert [simp]:
  "am_get (am_insert k v m) k' = (if k' = k then Some v else am_get m k')"
  by (induction k v m rule: am_insert.induct) auto

lemma am_get_filter:
  "am_inv m \<Longrightarrow> am_get (filter (\<lambda>(k, v). P k v) m) k = option_filter (P k) (am_get m k)"
proof (induction m)
  case (Cons p m)
  obtain k' v' where p: "p = (k', v')" by fastforce
  from Cons.prems have "am_inv m" by (simp add: am_inv_def)
  moreover have "k = k' \<Longrightarrow> am_get m k = None"
    using Cons.prems p by (simp add: am_inv_def map_of_eq_None_iff)
  ultimately show ?case
    using Cons.IH p by (cases "k = k'") simp_all
qed simp

lemma am_get_map [simp]: "am_get (am_map f m) k = map_option f (am_get m k)"
  by (induction m) (auto simp: am_map_def)

lemma am_inv_map [simp]: "am_inv (am_map f m) = am_inv m"
  by (simp add: am_inv_def am_map_def comp_def case_prod_unfold)

lemma length_am_map [simp]: "length (am_map f m) = length m"
  by (simp add: am_map_def)

lemma am_inv_Nil [simp]: "am_inv []"
  by (simp add: am_inv_def)

interpretation am: finite_map am_get "[]" am_insert am_remove am_retain length am_inv
  rewrites "am.of_pairs = am_of_pairs"
proof -
  show fm: "finite_map am_get [] am_insert am_remove am_retain length am_inv"
  proof (unfold_locales, goal_cases)
    case (1)
    show ?case by simp
  next
    case (2 m k v)
    then show ?case by (rule am_inv_insert)
  next
    case (3 m k)
    then show ?case by (simp add: am_remove_def am_inv_filter)
  next
    case (4 m P)
    then show ?case by (simp add: am_retain_def am_inv_filter)
  next
    case (5 k)
    show ?case by simp
  next
    case (6 k v m k')
    show ?case by simp
  next
    case (7 m k k')
    then show ?case by (cases "am_get m k'") (auto simp: am_remove_def am_get_filter)
  next
    case (8 m P k)
    then show ?case by (simp add: am_retain_def am_get_filter)
  next
    case (9 m)
    have "{k. am_get m k \<noteq> None} = fst ` set m"
      by (auto simp: map_of_eq_None_iff)
    moreover from 9 have "length m = card (fst ` set m)"
      using distinct_card [of "map fst m"] by (simp add: am_inv_def)
    ultimately show ?case by simp
  next
    case (10 m)
    show ?case using finite_dom_map_of [of m] by (simp add: dom_def)
  qed
  show "finite_map.of_pairs [] am_insert = am_of_pairs"
    by (simp add: finite_map.of_pairs_def [OF fm] am_of_pairs_def fun_eq_iff)
qed

lemmas amap_simps = am.get_del am.get_retain am.get_of_pairs am.inv_of_pairs
  am.inv_ins am.inv_del am.inv_retain

end
