(* ===== verification/Rust_Text.thy ===== *)
theory Rust_Text
  imports Prelude
begin

text \<open>
  The part of Rust's string library the program uses. A Rust \<open>String\<close> is its UTF-8 byte
  vector; here it is an Isabelle \<^typ>\<open>string\<close> whose characters are those bytes, so
  \<open>len\<close>, prefixes, suffixes, splitting at an ASCII character and joining are exact.
  Operations that Rust defines on scalar values (\<open>trim\<close>, \<open>split_whitespace\<close>,
  \<open>is_whitespace\<close>, \<open>is_control\<close>) work on \<open>rust_chars\<close>, the byte groups that
  encode one scalar value each, with Unicode's white space and control characters listed by
  their encodings.
\<close>

section \<open>Bytes and UTF-8\<close>

definition as_bytes :: "string \<Rightarrow> bytes" where
  "as_bytes s = map (\<lambda>c. word_of_nat (of_char c)) s"

definition of_bytes :: "bytes \<Rightarrow> string" where
  "of_bytes bs = map (\<lambda>b. char_of (unat b)) bs"

definition in_range :: "nat \<Rightarrow> nat \<Rightarrow> u8 \<Rightarrow> bool" where
  "in_range lo hi b \<longleftrightarrow> lo \<le> unat b \<and> unat b \<le> hi"

abbreviation cont_byte :: "u8 \<Rightarrow> bool" where
  "cont_byte \<equiv> in_range 128 191"

fun utf8_valid :: "bytes \<Rightarrow> bool" where
  "utf8_valid [] = True"
| "utf8_valid (a # bs) =
     (if unat a < 128 then utf8_valid bs
      else case bs of
        [] \<Rightarrow> False
      | b # cs \<Rightarrow>
          if in_range 194 223 a then cont_byte b \<and> utf8_valid cs
          else case cs of
            [] \<Rightarrow> False
          | c # ds \<Rightarrow>
              if unat a = 224 then in_range 160 191 b \<and> cont_byte c \<and> utf8_valid ds
              else if unat a = 237 then in_range 128 159 b \<and> cont_byte c \<and> utf8_valid ds
              else if in_range 225 239 a then cont_byte b \<and> cont_byte c \<and> utf8_valid ds
              else case ds of
                [] \<Rightarrow> False
              | d # es \<Rightarrow>
                  (if unat a = 240 then in_range 144 191 b
                   else if in_range 241 243 a then cont_byte b
                   else unat a = 244 \<and> in_range 128 143 b)
                  \<and> cont_byte c \<and> cont_byte d \<and> utf8_valid es)"

definition from_utf8 :: "bytes \<Rightarrow> string option" where
  "from_utf8 bs = (if utf8_valid bs then Some (of_bytes bs) else None)"

lemma of_char_lt_256: "(of_char c :: nat) < 256"
  by (metis of_char_mod_256 mod_less_divisor zero_less_numeral)

lemma of_bytes_as_bytes [simp]: "of_bytes (as_bytes s) = s"
  by (induction s)
    (simp_all add: of_bytes_def as_bytes_def unat_of_nat of_char_lt_256)

lemma as_bytes_of_bytes [simp]: "as_bytes (of_bytes bs) = bs"
proof (induction bs)
  case (Cons b bs)
  have "unat b < 256" using unsigned_less [of b] by simp
  then show ?case using Cons by (simp add: of_bytes_def as_bytes_def)
qed (simp add: of_bytes_def as_bytes_def)

lemma length_as_bytes [simp]: "length (as_bytes s) = length s"
  by (simp add: as_bytes_def)

lemma as_bytes_append [simp]: "as_bytes (s @ t) = as_bytes s @ as_bytes t"
  by (simp add: as_bytes_def)

lemma from_utf8_as_bytes: "utf8_valid (as_bytes s) \<Longrightarrow> from_utf8 (as_bytes s) = Some s"
  by (simp add: from_utf8_def)

lemma from_utf8_Some: "from_utf8 bs = Some s \<Longrightarrow> as_bytes s = bs \<and> utf8_valid (as_bytes s)"
  by (auto simp: from_utf8_def split: if_splits)

section \<open>Scalar values\<close>

definition is_cont :: "char \<Rightarrow> bool" where
  "is_cont c \<longleftrightarrow> 128 \<le> (of_char c :: nat) \<and> (of_char c :: nat) < 192"

function rust_chars :: "string \<Rightarrow> string list" where
  "rust_chars [] = []"
| "rust_chars (c # cs) = (c # takeWhile is_cont cs) # rust_chars (dropWhile is_cont cs)"
  by pat_completeness auto
termination
  by (relation "measure length") (auto simp: le_imp_less_Suc length_dropWhile_le)

definition unicode_spaces :: "string list" where
  "unicode_spaces = [
    [CHR 0x09], [CHR 0x0A], [CHR 0x0B], [CHR 0x0C], [CHR 0x0D], [CHR 0x20],
    [CHR 0xC2, CHR 0x85], [CHR 0xC2, CHR 0xA0], [CHR 0xE1, CHR 0x9A, CHR 0x80],
    [CHR 0xE2, CHR 0x80, CHR 0x80], [CHR 0xE2, CHR 0x80, CHR 0x81],
    [CHR 0xE2, CHR 0x80, CHR 0x82], [CHR 0xE2, CHR 0x80, CHR 0x83],
    [CHR 0xE2, CHR 0x80, CHR 0x84], [CHR 0xE2, CHR 0x80, CHR 0x85],
    [CHR 0xE2, CHR 0x80, CHR 0x86], [CHR 0xE2, CHR 0x80, CHR 0x87],
    [CHR 0xE2, CHR 0x80, CHR 0x88], [CHR 0xE2, CHR 0x80, CHR 0x89],
    [CHR 0xE2, CHR 0x80, CHR 0x8A], [CHR 0xE2, CHR 0x80, CHR 0xA8],
    [CHR 0xE2, CHR 0x80, CHR 0xA9], [CHR 0xE2, CHR 0x80, CHR 0xAF],
    [CHR 0xE2, CHR 0x81, CHR 0x9F], [CHR 0xE3, CHR 0x80, CHR 0x80]]"

definition is_whitespace :: "string \<Rightarrow> bool" where
  "is_whitespace g \<longleftrightarrow> g \<in> set unicode_spaces"

definition is_control :: "string \<Rightarrow> bool" where
  "is_control g = (case g of
     [c] \<Rightarrow> (of_char c :: nat) < 32 \<or> (of_char c :: nat) = 127
   | [c, d] \<Rightarrow> (of_char c :: nat) = 194 \<and> 128 \<le> (of_char d :: nat) \<and> (of_char d :: nat) < 160
   | _ \<Rightarrow> False)"

definition trim :: "string \<Rightarrow> string" where
  "trim s = concat (rev (dropWhile is_whitespace (rev (dropWhile is_whitespace (rust_chars s)))))"

definition is_ascii_alphanumeric :: "char \<Rightarrow> bool" where
  "is_ascii_alphanumeric c \<longleftrightarrow>
     (let n = (of_char c :: nat) in
        48 \<le> n \<and> n \<le> 57 \<or> 65 \<le> n \<and> n \<le> 90 \<or> 97 \<le> n \<and> n \<le> 122)"

definition to_ascii_lower :: "char \<Rightarrow> char" where
  "to_ascii_lower c =
     (let n = (of_char c :: nat) in if 65 \<le> n \<and> n \<le> 90 then char_of (n + 32) else c)"

definition eq_ignore_ascii_case :: "string \<Rightarrow> string \<Rightarrow> bool" where
  "eq_ignore_ascii_case s t \<longleftrightarrow> map to_ascii_lower s = map to_ascii_lower t"

lemma concat_rust_chars [simp]: "concat (rust_chars s) = s"
  by (induction s rule: rust_chars.induct) auto

lemma rust_chars_nonempty: "g \<in> set (rust_chars s) \<Longrightarrow> g \<noteq> []"
  by (induction s rule: rust_chars.induct) auto

lemma rust_chars_append:
  assumes "t = [] \<or> \<not> is_cont (hd t)"
  shows "rust_chars (s @ t) = rust_chars s @ rust_chars t"
  using assms
proof (induction s rule: rust_chars.induct)
  case (2 c cs)
  then have "takeWhile is_cont (cs @ t) = takeWhile is_cont cs"
    and "dropWhile is_cont (cs @ t) = dropWhile is_cont cs @ t"
    by (induction cs) (cases t; auto)+
  with 2 show ?case by simp
qed simp

lemma rust_chars_Cons_nocont:
  "s = [] \<or> \<not> is_cont (hd s) \<Longrightarrow> rust_chars (c # s) = [c] # rust_chars s"
  using rust_chars_append [of s "[c]"] by simp

lemma is_cont_space [simp]: "\<not> is_cont CHR '' ''"
  by (simp add: is_cont_def)

lemma is_whitespace_space [simp]: "is_whitespace '' ''"
  by (simp add: is_whitespace_def unicode_spaces_def)

lemma eq_ignore_ascii_case_refl [simp]: "eq_ignore_ascii_case s s"
  by (simp add: eq_ignore_ascii_case_def)

lemma eq_ignore_ascii_case_sym: "eq_ignore_ascii_case s t = eq_ignore_ascii_case t s"
  by (auto simp: eq_ignore_ascii_case_def)

lemma eq_ignore_ascii_case_trans:
  "eq_ignore_ascii_case s t \<Longrightarrow> eq_ignore_ascii_case t u \<Longrightarrow> eq_ignore_ascii_case s u"
  by (simp add: eq_ignore_ascii_case_def)

section \<open>Trimming\<close>

text \<open>A string with no white space anywhere is its own trimming.\<close>

lemma trim_no_space:
  assumes "\<forall>g \<in> set (rust_chars s). \<not> is_whitespace g"
  shows "trim s = s"
proof -
  have idle: "dropWhile is_whitespace gs = gs" if "set gs = set (rust_chars s)" for gs
    using assms that by (cases gs) auto
  have "dropWhile is_whitespace (rust_chars s) = rust_chars s"
    and "dropWhile is_whitespace (rev (rust_chars s)) = rev (rust_chars s)"
    by (simp_all add: idle)
  then show ?thesis by (simp add: trim_def)
qed

lemma trim_Nil [simp]: "trim [] = []"
  by (simp add: trim_def)

definition chunked :: "string list \<Rightarrow> bool" where
  "chunked gs \<longleftrightarrow> (\<forall>g \<in> set gs. g \<noteq> [] \<and> (\<forall>c \<in> set (tl g). is_cont c)) \<and> (\<forall>g \<in> set (tl gs). \<not> is_cont (hd g))"

lemma chunked_appendD: "chunked (xs @ ys) \<Longrightarrow> chunked xs \<and> chunked ys"
  by (cases xs; cases ys) (auto simp: chunked_def)

lemma chunked_Cons: "chunked (g # gs) \<Longrightarrow> chunked gs"
  using chunked_appendD [of "[g]" gs] by simp

lemma takeWhile_idle: "xs = [] \<or> \<not> P (hd xs) \<Longrightarrow> takeWhile P xs = [] \<and> dropWhile P xs = xs"
  by (cases xs) auto

lemma rust_chars_concat: "chunked gs \<Longrightarrow> rust_chars (concat gs) = gs"
proof (induction gs)
  case step: (Cons g gs)
  obtain c cs where g: "g = c # cs" and cs: "\<forall>x \<in> set cs. is_cont x"
    using step.prems by (cases g) (auto simp: chunked_def)
  have IH: "rust_chars (concat gs) = gs" using step chunked_Cons by blast
  have stop: "concat gs = [] \<or> \<not> is_cont (hd (concat gs))"
  proof (cases gs)
    case (Cons h hs)
    with step.prems have "h \<noteq> []" "\<not> is_cont (hd h)" by (simp_all add: chunked_def)
    with Cons show ?thesis by simp
  qed simp
  have "takeWhile is_cont (cs @ concat gs) = cs" "dropWhile is_cont (cs @ concat gs) = concat gs"
    using cs takeWhile_idle [of "concat gs" is_cont] stop by (simp_all del: concat_eq_Nil_conv)
  with g IH show ?case by simp
qed simp

lemma chunked_rust_chars: "chunked (rust_chars s)"
proof (induction s rule: rust_chars.induct)
  case (2 c cs)
  let ?rest = "dropWhile is_cont cs"
  have "\<forall>g \<in> set (rust_chars ?rest). \<not> is_cont (hd g)"
  proof (cases ?rest)
    case (Cons d ds)
    then have "\<not> is_cont d" using hd_dropWhile [of is_cont cs] by simp
    with 2 Cons show ?thesis by (auto simp: chunked_def)
  next
    case Nil
    show ?thesis unfolding Nil by simp
  qed
  with 2 show ?case by (auto simp: chunked_def dest: set_takeWhileD)
qed (simp add: chunked_def)

lemma rust_chars_trim: "rust_chars (trim s) = rev (dropWhile is_whitespace (rev (dropWhile is_whitespace (rust_chars s))))"
proof -
  let ?d = "dropWhile is_whitespace (rust_chars s)"
  let ?t = "rev (dropWhile is_whitespace (rev ?d))"
  have "rust_chars s = takeWhile is_whitespace (rust_chars s) @ ?d" by simp
  then have "chunked ?d" using chunked_rust_chars [of s] chunked_appendD by metis
  moreover have "?d = ?t @ rev (takeWhile is_whitespace (rev ?d))"
    by (metis rev_append rev_rev_ident takeWhile_dropWhile_id)
  ultimately have "chunked ?t" using chunked_appendD by metis
  then show ?thesis unfolding trim_def by (rule rust_chars_concat)
qed

lemma trim_ends:
  assumes "trim s \<noteq> []"
  shows "\<not> is_whitespace (hd (rust_chars (trim s)))" and "\<not> is_whitespace (last (rust_chars (trim s)))"
proof -
  let ?d = "dropWhile is_whitespace (rust_chars s)"
  let ?r = "dropWhile is_whitespace (rev ?d)"
  have t: "rust_chars (trim s) = rev ?r" by (rule rust_chars_trim)
  have r: "?r \<noteq> []" using assms t by (metis concat.simps(1) concat_rust_chars rev.simps(1))
  then show "\<not> is_whitespace (last (rust_chars (trim s)))" using hd_dropWhile [OF r] t by (simp add: last_rev)
  have d: "?d \<noteq> []" using r by (metis dropWhile.simps(1) rev.simps(1))
  have "last ?r = last (rev ?d)" using r by (metis last_appendR takeWhile_dropWhile_id)
  then have "hd (rust_chars (trim s)) = hd ?d" using t d r by (simp add: hd_rev last_rev)
  then show "\<not> is_whitespace (hd (rust_chars (trim s)))" using hd_dropWhile [OF d] by simp
qed

lemma trim_trimmed:
  assumes "rust_chars s = [] \<or> \<not> is_whitespace (hd (rust_chars s)) \<and> \<not> is_whitespace (last (rust_chars s))"
  shows "trim s = s"
proof -
  have "dropWhile is_whitespace (rust_chars s) = rust_chars s"
    using assms by (cases "rust_chars s") auto
  moreover have "dropWhile is_whitespace (rev (rust_chars s)) = rev (rust_chars s)"
    using assms by (cases "rust_chars s" rule: rev_cases) auto
  ultimately show ?thesis by (simp add: trim_def)
qed

lemma trim_idem [simp]: "trim (trim s) = trim s"
proof (cases "trim s = []")
  case False
  then show ?thesis using trim_ends [OF False] by (intro trim_trimmed) blast
qed simp

lemma set_rust_chars_trim: "set (rust_chars (trim s)) \<subseteq> set (rust_chars s)"
  unfolding rust_chars_trim by (auto dest!: set_dropWhileD)

section \<open>Splitting and joining\<close>

fun split_on :: "char \<Rightarrow> string \<Rightarrow> string list" where
  "split_on c [] = [[]]"
| "split_on c (x # xs) =
     (if x = c then [] # split_on c xs
      else case split_on c xs of [] \<Rightarrow> [[x]] | y # ys \<Rightarrow> (x # y) # ys)"

fun join :: "string \<Rightarrow> string list \<Rightarrow> string" where
  "join sep [] = []"
| "join sep [x] = x"
| "join sep (x # y # zs) = x @ sep @ join sep (y # zs)"

fun strip_prefix :: "string \<Rightarrow> string \<Rightarrow> string option" where
  "strip_prefix [] s = Some s"
| "strip_prefix (_ # _) [] = None"
| "strip_prefix (p # ps) (c # cs) = (if p = c then strip_prefix ps cs else None)"

definition strip_suffix :: "string \<Rightarrow> string \<Rightarrow> string option" where
  "strip_suffix p s = map_option rev (strip_prefix (rev p) (rev s))"

definition starts_with :: "string \<Rightarrow> string \<Rightarrow> bool" where
  "starts_with p s \<longleftrightarrow> strip_prefix p s \<noteq> None"

definition ends_with :: "string \<Rightarrow> string \<Rightarrow> bool" where
  "ends_with p s \<longleftrightarrow> strip_suffix p s \<noteq> None"

fun split_once :: "string \<Rightarrow> string \<Rightarrow> (string \<times> string) option" where
  "split_once sep [] = (if sep = [] then Some ([], []) else None)"
| "split_once sep (c # cs) =
     (case strip_prefix sep (c # cs) of
        Some rest \<Rightarrow> Some ([], rest)
      | None \<Rightarrow> map_option (\<lambda>(a, b). (c # a, b)) (split_once sep cs))"

definition rsplit_once :: "string \<Rightarrow> string \<Rightarrow> (string \<times> string) option" where
  "rsplit_once sep s =
     map_option (\<lambda>(a, b). (rev b, rev a)) (split_once (rev sep) (rev s))"

definition replace_char :: "char \<Rightarrow> string \<Rightarrow> string \<Rightarrow> string" where
  "replace_char c r s = concat (map (\<lambda>x. if x = c then r else [x]) s)"

definition strip_cr :: "string \<Rightarrow> string" where
  "strip_cr l = (if l \<noteq> [] \<and> last l = CHR 0x0D then butlast l else l)"

definition lines :: "string \<Rightarrow> string list" where
  "lines s =
     (let ps = split_on CHR 0x0A s
      in map strip_cr (butlast ps) @ (if last ps = [] then [] else [last ps]))"

fun split_ws :: "string list \<Rightarrow> string list" where
  "split_ws [] = [[]]"
| "split_ws (g # gs) =
     (if is_whitespace g then [] # split_ws gs
      else case split_ws gs of [] \<Rightarrow> [g] | w # ws \<Rightarrow> (g @ w) # ws)"

definition split_whitespace :: "string \<Rightarrow> string list" where
  "split_whitespace s = filter (\<lambda>w. w \<noteq> []) (split_ws (rust_chars s))"

lemma strip_prefix_append [simp]: "strip_prefix p (p @ s) = Some s"
  by (induction p) auto

lemma strip_prefix_Some_iff: "strip_prefix p s = Some r \<longleftrightarrow> s = p @ r"
  by (induction p s rule: strip_prefix.induct) auto

lemma starts_with_iff: "starts_with p s \<longleftrightarrow> (\<exists>r. s = p @ r)"
  by (auto simp: starts_with_def strip_prefix_Some_iff)

lemma strip_suffix_Some_iff: "strip_suffix p s = Some r \<longleftrightarrow> s = r @ p"
  by (auto simp: strip_suffix_def strip_prefix_Some_iff)
    (metis rev_append rev_rev_ident)

lemma ends_with_iff: "ends_with p s \<longleftrightarrow> (\<exists>r. s = r @ p)"
  by (auto simp: ends_with_def strip_suffix_Some_iff)

lemma split_on_nonempty [simp]: "split_on c s \<noteq> []"
  by (induction s) (auto split: list.splits)

lemma split_on_append:
  "split_on c (s @ c # t) = split_on c s @ split_on c t"
proof (induction s)
  case (Cons x s)
  then show ?case
    by (cases "split_on c s") (auto split: list.splits)
qed simp

lemma split_on_no_sep: "c \<notin> set s \<Longrightarrow> split_on c s = [s]"
  by (induction s) auto

lemma split_on_join:
  "ls \<noteq> [] \<Longrightarrow> \<forall>l \<in> set ls. c \<notin> set l \<Longrightarrow> split_on c (join [c] ls) = ls"
  by (induction "[c]" ls rule: join.induct) (auto simp: split_on_append split_on_no_sep)

text \<open>
  Reading back what was written line by line: the lines of a joined text are the lines
  that were joined, as long as none of them holds a line terminator and the last is not empty.
\<close>

lemma lines_join:
  assumes "ls \<noteq> []" and "last ls \<noteq> []"
    and "\<forall>l \<in> set ls. CHR 0x0A \<notin> set l \<and> CHR 0x0D \<notin> set l"
  shows "lines (join [CHR 0x0A] ls) = ls"
proof -
  have sp: "split_on CHR 0x0A (join [CHR 0x0A] ls) = ls"
    using assms(1,3) by (intro split_on_join) auto
  have "map strip_cr (butlast ls) = butlast ls"
    using assms(3) last_in_set
    by (intro map_idI) (fastforce simp: strip_cr_def dest!: in_set_butlastD)
  with sp assms(1,2) show ?thesis by (simp add: lines_def Let_def)
qed

lemma split_ws_no_space:
  "\<forall>g \<in> set gs. \<not> is_whitespace g \<Longrightarrow> split_ws gs = [concat gs]"
  by (induction gs) auto

lemma split_ws_nonempty [simp]: "split_ws gs \<noteq> []"
  by (induction gs) (auto split: list.splits)

lemma split_ws_append_space:
  assumes "is_whitespace w"
  shows "split_ws (gs @ w # hs) = split_ws gs @ split_ws hs"
proof (induction gs)
  case (Cons g gs)
  then show ?case
    by (cases "split_ws gs") (auto split: list.splits)
qed (simp add: assms)

definition word_like :: "string \<Rightarrow> bool" where
  "word_like s \<longleftrightarrow> s \<noteq> [] \<and> \<not> is_cont (hd s) \<and> (\<forall>g \<in> set (rust_chars s). \<not> is_whitespace g)"

lemma split_ws_word: "word_like s \<Longrightarrow> split_ws (rust_chars s) = [s]"
  by (simp add: word_like_def split_ws_no_space)

lemma hd_join_word:
  "ws \<noteq> [] \<Longrightarrow> \<forall>w \<in> set ws. word_like w \<Longrightarrow> join sep ws \<noteq> [] \<and> \<not> is_cont (hd (join sep ws))"
  by (induction sep ws rule: join.induct) (auto simp: word_like_def hd_append)

lemma split_ws_join:
  "ws \<noteq> [] \<Longrightarrow> \<forall>w \<in> set ws. word_like w \<Longrightarrow> split_ws (rust_chars (join '' '' ws)) = ws"
proof (induction "'' '' :: string" ws rule: join.induct)
  case (3 x y zs)
  from 3 have IH: "split_ws (rust_chars (join '' '' (y # zs))) = y # zs" by simp
  have nc: "join '' '' (y # zs) = [] \<or> \<not> is_cont (hd (join '' '' (y # zs)))"
    using 3 hd_join_word by auto
  have "rust_chars (join '' '' (x # y # zs))
      = rust_chars x @ '' '' # rust_chars (join '' '' (y # zs))"
    using rust_chars_append [of "CHR '' '' # join '' '' (y # zs)" x]
      rust_chars_Cons_nocont [OF nc] by simp
  then show ?case
    using 3(3) IH split_ws_word [of x] by (simp add: split_ws_append_space)
qed (auto simp: split_ws_word)

lemma split_whitespace_join:
  "\<forall>w \<in> set ws. word_like w \<Longrightarrow> split_whitespace (join '' '' ws) = ws"
proof (cases ws)
  case (Cons w ws')
  assume wl: "\<forall>w \<in> set ws. word_like w"
  then have "split_ws (rust_chars (join '' '' ws)) = ws"
    using Cons by (intro split_ws_join) auto
  moreover have "filter (\<lambda>w. w \<noteq> []) ws = ws"
    using wl by (intro filter_True) (auto simp: word_like_def)
  ultimately show ?thesis by (simp add: split_whitespace_def)
qed (simp add: split_whitespace_def)

section \<open>Numbers\<close>

fun show_nat :: "nat \<Rightarrow> string" where
  "show_nat n = (if n < 10 then [char_of (48 + n)] else show_nat (n div 10) @ [char_of (48 + n mod 10)])"

declare show_nat.simps [simp del]

definition is_digit :: "char \<Rightarrow> bool" where
  "is_digit c \<longleftrightarrow> 48 \<le> (of_char c :: nat) \<and> (of_char c :: nat) \<le> 57"

fun digits_value :: "nat \<Rightarrow> string \<Rightarrow> nat option" where
  "digits_value acc [] = Some acc"
| "digits_value acc (c # cs) =
     (if is_digit c then digits_value (10 * acc + (of_char c - 48)) cs else None)"

text \<open>\<open>str::parse\<close> at an unsigned type of \<open>w\<close> bits: an optional plus sign, then digits
  whose value fits.\<close>

definition parse_unsigned :: "nat \<Rightarrow> string \<Rightarrow> nat option" where
  "parse_unsigned w s =
     (let d = (case s of c # cs \<Rightarrow> if c = CHR ''+'' then cs else s | [] \<Rightarrow> [])
      in if d = [] then None
         else option_filter (\<lambda>n. n < 2 ^ w) (digits_value 0 d))"

lemma digits_value_append:
  "digits_value acc (s @ t) = Option.bind (digits_value acc s) (\<lambda>a. digits_value a t)"
  by (induction acc s rule: digits_value.induct) auto

lemma digits_value_show: "digits_value 0 (show_nat n) = Some n"
proof (induction n rule: show_nat.induct)
  case (1 n)
  show ?case
  proof (cases "n < 10")
    case True
    then show ?thesis by (simp add: show_nat.simps [of n] is_digit_def)
  next
    case False
    with 1 have "digits_value 0 (show_nat (n div 10)) = Some (n div 10)" by simp
    with False show ?thesis
      by (simp add: show_nat.simps [of n] digits_value_append is_digit_def)
  qed
qed

lemma show_nat_digits: "c \<in> set (show_nat n) \<Longrightarrow> is_digit c"
proof (induction n rule: show_nat.induct)
  case (1 n)
  then show ?case
    by (subst (asm) show_nat.simps) (auto simp: is_digit_def split: if_splits)
qed

lemma show_nat_nonempty [simp]: "show_nat n \<noteq> []"
  by (subst show_nat.simps) simp

lemma parse_show: "n < 2 ^ w \<Longrightarrow> parse_unsigned w (show_nat n) = Some n"
proof -
  assume n: "n < 2 ^ w"
  obtain c cs where c: "show_nat n = c # cs" by (cases "show_nat n") auto
  have "is_digit c" using show_nat_digits [of c n] c by simp
  then have "c \<noteq> CHR ''+''" by (auto simp: is_digit_def)
  with n c show ?thesis
    using digits_value_show [of n] by (simp add: parse_unsigned_def)
qed

end
