(* ===== verification/Crypto.thy ===== *)
theory Crypto
  imports Rust_Text
begin

text \<open>
  \<open>crates/sshwarden-api/src/crypto.rs\<close>: Bitwarden's encrypted strings, key derivation and the
  PIN envelope.

  The cryptographic crates are the parameter \<open>crypto_lib\<close>. What the code relies on of them is
  the predicate \<open>suite_ok\<close>: base64 and AES-CBC invert, base64 uses neither a bar nor a full stop,
  keys and initialisation vectors of the right length are accepted, Argon2 fills the buffer it is
  given. Random numbers are arguments. Unicode's lower-case mapping is a function of
  \<open>crypto_lib\<close> too: only its tables decide it.
\<close>

record crypto_lib =
  b64_encode :: "bytes \<Rightarrow> string"
  b64_decode :: "string \<Rightarrow> bytes result"
  aes_new :: "bytes \<Rightarrow> bytes \<Rightarrow> unit result"
  aes_encrypt :: "bytes \<Rightarrow> bytes \<Rightarrow> bytes \<Rightarrow> bytes"
  aes_decrypt :: "bytes \<Rightarrow> bytes \<Rightarrow> bytes \<Rightarrow> bytes result"
  hmac_new :: "bytes \<Rightarrow> unit result"
  hmac_sha256 :: "bytes \<Rightarrow> bytes \<Rightarrow> bytes"
  sha256 :: "bytes \<Rightarrow> bytes"
  pbkdf2 :: "bytes \<Rightarrow> bytes \<Rightarrow> u32 \<Rightarrow> bytes"
    \<comment> \<open>password, salt, iterations; fills 32 bytes\<close>
  argon2_params :: "u32 \<Rightarrow> u32 \<Rightarrow> u32 \<Rightarrow> nat \<Rightarrow> unit result"
    \<comment> \<open>memory in KiB, iterations, parallelism, output length\<close>
  argon2_hash :: "u32 \<times> u32 \<times> u32 \<times> nat \<Rightarrow> bytes \<Rightarrow> bytes \<Rightarrow> bytes result"
  hkdf_from_prk :: "bytes \<Rightarrow> unit result"
  hkdf_expand :: "bytes \<Rightarrow> string \<Rightarrow> bytes result"
  lowercase :: "string \<Rightarrow> string"

record SymmetricKey =
  enc_key :: bytes
  mac_key :: bytes

datatype KdfType = Pbkdf2 | Argon2id

definition KdfType_try_from :: "u8 \<Rightarrow> KdfType result" where
  "KdfType_try_from v =
     (if v = 0 then Inr Pbkdf2 else if v = 1 then Inr Argon2id
      else Inl (''Unknown KDF type: '' @ show_nat (unat v)))"

record PreloginResponse =
  kdf :: KdfType
  kdf_iterations :: u32
  kdf_memory :: "u32 option"
  kdf_parallelism :: "u32 option"

section \<open>Key derivation\<close>

definition derive_master_key :: "crypto_lib \<Rightarrow> string \<Rightarrow> string \<Rightarrow> PreloginResponse \<Rightarrow> bytes result" where
  "derive_master_key L password email prelogin =
     (let salt = lowercase L (trim email)
      in case kdf prelogin of
        Pbkdf2 \<Rightarrow> Inr (pbkdf2 L (as_bytes password) (as_bytes salt) (kdf_iterations prelogin))
      | Argon2id \<Rightarrow>
          bind_res (ok_or ''Argon2id requires kdf_memory'' (kdf_memory prelogin)) (\<lambda>m.
          let memory = m * 1024 in
          bind_res (ok_or ''Argon2id requires kdf_parallelism'' (kdf_parallelism prelogin)) (\<lambda>parallelism.
          let iterations = kdf_iterations prelogin; salt_hash = sha256 L (as_bytes salt) in
          bind_res (map_err (\<lambda>e. ''Invalid Argon2 params: '' @ e)
                      (argon2_params L memory iterations parallelism 32)) (\<lambda>_.
          map_err (\<lambda>e. ''Argon2 hashing failed: '' @ e)
            (argon2_hash L (memory, iterations, parallelism, 32) (as_bytes password) salt_hash)))))"

definition derive_password_hash :: "crypto_lib \<Rightarrow> bytes \<Rightarrow> string \<Rightarrow> string result" where
  "derive_password_hash L master_key password =
     Inr (b64_encode L (pbkdf2 L master_key (as_bytes password) 1))"

definition stretch_master_key :: "crypto_lib \<Rightarrow> bytes \<Rightarrow> SymmetricKey result" where
  "stretch_master_key L master_key =
     bind_res (map_err (\<lambda>e. ''HKDF from_prk failed: '' @ e) (hkdf_from_prk L master_key)) (\<lambda>_.
     bind_res (map_err (\<lambda>e. ''HKDF expand enc failed: '' @ e) (hkdf_expand L master_key ''enc'')) (\<lambda>ek.
     bind_res (map_err (\<lambda>e. ''HKDF expand mac failed: '' @ e) (hkdf_expand L master_key ''mac'')) (\<lambda>mk.
       Inr \<lparr>enc_key = ek, mac_key = mk\<rparr>)))"

section \<open>Encrypted strings\<close>

definition aes_open :: "crypto_lib \<Rightarrow> SymmetricKey \<Rightarrow> bytes \<Rightarrow> bytes \<Rightarrow> bytes result" where
  "aes_open L key iv data =
     bind_res (map_err (\<lambda>e. ''AES-CBC init failed: '' @ e) (aes_new L (enc_key key) iv)) (\<lambda>_.
       map_err (\<lambda>e. ''AES-CBC decryption failed: '' @ e) (aes_decrypt L (enc_key key) iv data))"

definition decrypt_type0 :: "crypto_lib \<Rightarrow> string \<Rightarrow> SymmetricKey \<Rightarrow> bytes result" where
  "decrypt_type0 L payload key =
     (case split_on CHR ''|'' payload of
        [iv64, data64] \<Rightarrow>
          bind_res (context_msg ''Failed to decode IV'' (b64_decode L iv64)) (\<lambda>iv.
          bind_res (context_msg ''Failed to decode ciphertext'' (b64_decode L data64)) (\<lambda>data.
            aes_open L key iv data))
      | parts \<Rightarrow> Inl (''Invalid EncString type 0: expected 2 parts (iv|data), got ''
                      @ show_nat (length parts)))"

definition decrypt_type2 :: "crypto_lib \<Rightarrow> string \<Rightarrow> SymmetricKey \<Rightarrow> bytes result" where
  "decrypt_type2 L payload key =
     (case split_on CHR ''|'' payload of
        [iv64, data64, mac64] \<Rightarrow>
          bind_res (context_msg ''Failed to decode IV'' (b64_decode L iv64)) (\<lambda>iv.
          bind_res (context_msg ''Failed to decode ciphertext'' (b64_decode L data64)) (\<lambda>data.
          bind_res (context_msg ''Failed to decode MAC'' (b64_decode L mac64)) (\<lambda>mac.
          bind_res (map_err (\<lambda>e. ''HMAC init failed: '' @ e) (hmac_new L (mac_key key))) (\<lambda>_.
            if mac \<noteq> hmac_sha256 L (mac_key key) (iv @ data)
            then Inl ''HMAC verification failed - wrong key or corrupted data''
            else aes_open L key iv data))))
      | parts \<Rightarrow> Inl (''Invalid EncString type 2: expected 3 parts (iv|data|mac), got ''
                      @ show_nat (length parts)))"

definition decrypt_enc_string :: "crypto_lib \<Rightarrow> string \<Rightarrow> SymmetricKey \<Rightarrow> bytes result" where
  "decrypt_enc_string L enc_string key =
     (case split_once ''.'' enc_string of
        None \<Rightarrow> Inl ''Invalid EncString: no type separator''
      | Some (enc_type, payload) \<Rightarrow>
          (case parse_unsigned 8 enc_type of
             None \<Rightarrow> Inl (''Invalid EncString type: '' @ enc_type)
           | Some t \<Rightarrow>
               if t = 0 then decrypt_type0 L payload key
               else if t = 2 then decrypt_type2 L payload key
               else Inl (''Unsupported EncString type: '' @ show_nat t)))"

definition decrypt_enc_string_to_string :: "crypto_lib \<Rightarrow> string \<Rightarrow> SymmetricKey \<Rightarrow> string result" where
  "decrypt_enc_string_to_string L enc_string key =
     bind_res (decrypt_enc_string L enc_string key) (\<lambda>bs.
       ok_or ''Decrypted data is not valid UTF-8'' (from_utf8 bs))"

definition encrypt_enc_string :: "crypto_lib \<Rightarrow> bytes \<Rightarrow> bytes \<Rightarrow> SymmetricKey \<Rightarrow> string result" where
  "encrypt_enc_string L iv data key =
     bind_res (map_err (\<lambda>e. ''AES-CBC encrypt init failed: '' @ e) (aes_new L (enc_key key) iv)) (\<lambda>_.
     let ciphertext = aes_encrypt L (enc_key key) iv data in
     bind_res (map_err (\<lambda>e. ''HMAC init failed: '' @ e) (hmac_new L (mac_key key))) (\<lambda>_.
     let mac = hmac_sha256 L (mac_key key) (iv @ ciphertext) in
       Inr (''2.'' @ b64_encode L iv @ ''|'' @ b64_encode L ciphertext @ ''|'' @ b64_encode L mac)))"

definition decrypt_user_key :: "crypto_lib \<Rightarrow> string \<Rightarrow> bytes \<Rightarrow> SymmetricKey result" where
  "decrypt_user_key L encrypted_key_str master_key =
     bind_res (stretch_master_key L master_key) (\<lambda>stretched.
     bind_res (context_msg ''Failed to decrypt user symmetric key''
                 (decrypt_enc_string L encrypted_key_str stretched)) (\<lambda>decrypted.
       if length decrypted \<noteq> 64
       then Inl (''Decrypted user key has unexpected length: '' @ show_nat (length decrypted)
                 @ '' (expected 64)'')
       else Inr \<lparr>enc_key = take 32 decrypted, mac_key = drop 32 decrypted\<rparr>))"

section \<open>The PIN envelope\<close>

definition legacy_pin_salt :: "crypto_lib \<Rightarrow> bytes" where
  "legacy_pin_salt L = sha256 L (as_bytes ''sshwarden-pin-key-derivation'')"

definition derive_pin_key_with_salt :: "crypto_lib \<Rightarrow> string \<Rightarrow> bytes \<Rightarrow> SymmetricKey result" where
  "derive_pin_key_with_salt L pin salt =
     bind_res (map_err (\<lambda>e. ''Invalid Argon2 params: '' @ e) (argon2_params L (64 * 1024) 3 1 64)) (\<lambda>_.
     bind_res (map_err (\<lambda>e. ''Argon2 PIN derivation failed: '' @ e)
                 (argon2_hash L (64 * 1024, 3, 1, 64) (as_bytes pin) salt)) (\<lambda>key_material.
       Inr \<lparr>enc_key = take 32 key_material, mac_key = drop 32 key_material\<rparr>))"

definition derive_pin_key :: "crypto_lib \<Rightarrow> string \<Rightarrow> SymmetricKey result" where
  "derive_pin_key L pin = derive_pin_key_with_salt L pin (legacy_pin_salt L)"

definition random_symmetric_key :: "bytes \<Rightarrow> bytes \<Rightarrow> SymmetricKey" where
  "random_symmetric_key rnd_enc rnd_mac = \<lparr>enc_key = rnd_enc, mac_key = rnd_mac\<rparr>"

definition encode_symmetric_key :: "crypto_lib \<Rightarrow> SymmetricKey \<Rightarrow> string" where
  "encode_symmetric_key L key = b64_encode L (enc_key key @ mac_key key)"

definition decode_symmetric_key :: "crypto_lib \<Rightarrow> string \<Rightarrow> SymmetricKey result" where
  "decode_symmetric_key L encoded =
     bind_res (context_msg ''Failed to decode symmetric key material'' (b64_decode L encoded)) (\<lambda>material.
       if length material \<noteq> 64
       then Inl (''Symmetric key material has unexpected length: '' @ show_nat (length material))
       else Inr \<lparr>enc_key = take 32 material, mac_key = drop 32 material\<rparr>)"

definition pin_encrypt_with_salt :: "crypto_lib \<Rightarrow> bytes \<Rightarrow> string \<Rightarrow> string \<Rightarrow> bytes \<Rightarrow> string result" where
  "pin_encrypt_with_salt L iv data pin salt =
     bind_res (derive_pin_key_with_salt L pin salt) (\<lambda>key. encrypt_enc_string L iv (as_bytes data) key)"

definition pin_decrypt_with_salt :: "crypto_lib \<Rightarrow> string \<Rightarrow> string \<Rightarrow> bytes \<Rightarrow> string result" where
  "pin_decrypt_with_salt L enc_string pin salt =
     bind_res (derive_pin_key_with_salt L pin salt) (\<lambda>key.
     bind_res (decrypt_enc_string L enc_string key) (\<lambda>bs.
       ok_or ''PIN-decrypted data is not valid UTF-8'' (from_utf8 bs)))"

definition pin_encrypt :: "crypto_lib \<Rightarrow> bytes \<Rightarrow> string \<Rightarrow> string \<Rightarrow> string result" where
  "pin_encrypt L iv data pin = pin_encrypt_with_salt L iv data pin (legacy_pin_salt L)"

definition pin_decrypt :: "crypto_lib \<Rightarrow> string \<Rightarrow> string \<Rightarrow> string result" where
  "pin_decrypt L enc_string pin = pin_decrypt_with_salt L enc_string pin (legacy_pin_salt L)"

section \<open>What the crates promise\<close>

definition suite_ok :: "crypto_lib \<Rightarrow> bool" where
  "suite_ok L \<longleftrightarrow>
     (\<forall>bs. b64_decode L (b64_encode L bs) = Inr bs) \<and>
     (\<forall>bs. CHR ''|'' \<notin> set (b64_encode L bs)) \<and>
     (\<forall>bs. utf8_valid (as_bytes (b64_encode L bs))) \<and>
     (\<forall>k iv. length k = 32 \<and> length iv = 16 \<longrightarrow> aes_new L k iv = Inr ()) \<and>
     (\<forall>k iv d. length k = 32 \<and> length iv = 16 \<longrightarrow> aes_decrypt L k iv (aes_encrypt L k iv d) = Inr d) \<and>
     (\<forall>k. hmac_new L k = Inr ()) \<and>
     (\<forall>p q r n pw salt out. argon2_hash L (p, q, r, n) pw salt = Inr out \<longrightarrow> length out = n)"

definition key_ok :: "SymmetricKey \<Rightarrow> bool" where
  "key_ok k \<longleftrightarrow> length (enc_key k) = 32 \<and> length (mac_key k) = 32"

lemma suite_okD:
  assumes "suite_ok L"
  shows "b64_decode L (b64_encode L bs) = Inr bs"
    and "CHR ''|'' \<notin> set (b64_encode L bs)"
    and "length k = 32 \<Longrightarrow> length iv = 16 \<Longrightarrow> aes_new L k iv = Inr ()"
    and "length k = 32 \<Longrightarrow> length iv = 16 \<Longrightarrow> aes_decrypt L k iv (aes_encrypt L k iv d) = Inr d"
    and "hmac_new L k = Inr ()"
    and "argon2_hash L (p, q, r, n) pw salt = Inr out \<Longrightarrow> length out = n"
    and "utf8_valid (as_bytes (b64_encode L bs))"
  using assms by (auto simp: suite_ok_def)

lemma split_two_bars:
  "CHR ''|'' \<notin> set a \<Longrightarrow> CHR ''|'' \<notin> set b \<Longrightarrow> CHR ''|'' \<notin> set c \<Longrightarrow>
   split_on CHR ''|'' (a @ ''|'' @ b @ ''|'' @ c) = [a, b, c]"
  using split_on_join [of "[a, b, c]" "CHR ''|''"] by simp

lemma encrypt_ok:
  assumes "suite_ok L" and "key_ok k" and "length iv = 16"
  shows "\<exists>e. encrypt_enc_string L iv d k = Inr e"
  using assms by (simp add: encrypt_enc_string_def suite_okD key_ok_def Let_def)

lemma decrypt_encrypt:
  assumes "suite_ok L" and "key_ok k" and "length iv = 16" and "encrypt_enc_string L iv d k = Inr e"
  shows "decrypt_enc_string L e k = Inr d"
proof -
  let ?c = "aes_encrypt L (enc_key k) iv d"
  let ?m = "hmac_sha256 L (mac_key k) (iv @ ?c)"
  let ?p = "b64_encode L iv @ ''|'' @ b64_encode L ?c @ ''|'' @ b64_encode L ?m"
  have e: "e = ''2.'' @ ?p"
    using assms by (simp add: encrypt_enc_string_def suite_okD key_ok_def Let_def)
  have sp: "split_on CHR ''|'' ?p = [b64_encode L iv, b64_encode L ?c, b64_encode L ?m]"
    by (intro split_two_bars suite_okD(2) [OF assms(1)])
  have "decrypt_type2 L ?p k = Inr d"
    using assms(1-3) unfolding decrypt_type2_def sp
    by (simp add: suite_okD aes_open_def key_ok_def)
  moreover have "split_once ''.'' e = Some (''2'', ?p)" by (simp add: e)
  moreover have "parse_unsigned 8 ''2'' = Some 2"
    by (simp add: parse_unsigned_def is_digit_def)
  ultimately show ?thesis by (simp add: decrypt_enc_string_def)
qed

lemma derive_pin_key_ok:
  "suite_ok L \<Longrightarrow> derive_pin_key_with_salt L pin salt = Inr k \<Longrightarrow> key_ok k"
  by (auto simp: derive_pin_key_with_salt_def bind_res_Inr_iff key_ok_def
      dest!: suite_okD(6) [where n = 64])

section \<open>Envelopes\<close>

text \<open>
  The contract of an authenticated envelope: what is sealed under a key opens under it. Its
  clients store a payload under a fresh key and that key under a secret the user holds; reading the
  two layers back gives the payload, and sealing is injective.
\<close>

locale envelope =
  fixes good :: "'l \<Rightarrow> bool"
    and usable :: "'l \<Rightarrow> 'k \<Rightarrow> bool"
    and nonce_ok :: "'n \<Rightarrow> bool"
    and seal :: "'l \<Rightarrow> 'n \<Rightarrow> 'k \<Rightarrow> 'p \<Rightarrow> string result"
    and unseal :: "'l \<Rightarrow> 'k \<Rightarrow> string \<Rightarrow> 'p result"
    and content_ok :: "'p \<Rightarrow> bool"
  assumes seal_total: "good L \<Longrightarrow> usable L k \<Longrightarrow> nonce_ok n \<Longrightarrow> \<exists>e. seal L n k p = Inr e"
    and unseal_seal: "good L \<Longrightarrow> usable L k \<Longrightarrow> nonce_ok n \<Longrightarrow> content_ok p \<Longrightarrow>
      seal L n k p = Inr e \<Longrightarrow> unseal L k e = Inr p"
begin

lemma roundtrip:
  assumes "good L" "usable L k" "nonce_ok n" "content_ok p"
  shows "\<exists>e. seal L n k p = Inr e \<and> unseal L k e = Inr p"
proof -
  obtain e where e: "seal L n k p = Inr e" using seal_total assms by blast
  moreover have "unseal L k e = Inr p" using assms e by (rule unseal_seal)
  ultimately show ?thesis by blast
qed

lemma seal_inj:
  assumes "good L" "usable L k" "nonce_ok n" "nonce_ok n'" "content_ok p" "content_ok q"
    and "seal L n k p = Inr e" "seal L n' k q = Inr e"
  shows "p = q"
  using unseal_seal [OF assms(1,2,3,5,7)] unseal_seal [OF assms(1,2,4,6,8)] by simp

end

interpretation sym: envelope suite_ok "\<lambda>_. key_ok" "\<lambda>iv. length iv = 16"
  "\<lambda>L iv k s. encrypt_enc_string L iv (as_bytes s) k"
  "\<lambda>L k e. decrypt_enc_string_to_string L e k"
  "\<lambda>s. utf8_valid (as_bytes s)"
  by unfold_locales
    (simp_all add: encrypt_ok decrypt_enc_string_to_string_def decrypt_encrypt from_utf8_as_bytes)

definition pin_usable :: "crypto_lib \<Rightarrow> string \<times> bytes \<Rightarrow> bool" where
  "pin_usable L = (\<lambda>(pin, salt). is_ok (derive_pin_key_with_salt L pin salt))"

interpretation pin_env: envelope suite_ok pin_usable "\<lambda>iv. length iv = 16"
  "\<lambda>L iv (pin, salt) s. pin_encrypt_with_salt L iv s pin salt"
  "\<lambda>L (pin, salt) e. pin_decrypt_with_salt L e pin salt"
  "\<lambda>s. utf8_valid (as_bytes s)"
proof (unfold_locales, goal_cases)
  case (1 L k n p)
  then show ?case
    by (auto simp: pin_usable_def is_ok_iff pin_encrypt_with_salt_def encrypt_ok derive_pin_key_ok
        split: prod.splits)
next
  case (2 L k n p e)
  then show ?case
    by (auto simp: pin_encrypt_with_salt_def pin_decrypt_with_salt_def bind_res_Inr_iff
        decrypt_encrypt derive_pin_key_ok from_utf8_as_bytes split: prod.splits)
qed


section \<open>An instance\<close>

text \<open>
  A concrete \<open>crypto_lib\<close> that keeps the promises, for evaluating the model: two letters per
  byte for base64, the key itself as its MAC, and a derived key that repeats the password and salt.
\<close>

fun letters :: "bytes \<Rightarrow> string" where
  "letters [] = []"
| "letters (b # bs) = char_of (65 + unat b div 16) # char_of (65 + unat b mod 16) # letters bs"

fun unletters :: "string \<Rightarrow> bytes result" where
  "unletters [] = Inr []"
| "unletters [_] = Inl ''odd length''"
| "unletters (c # d # cs) =
     bind_res (unletters cs) (\<lambda>bs. Inr (word_of_nat ((of_char c - 65) * 16 + (of_char d - 65)) # bs))"

definition demo_crypto :: crypto_lib where
  "demo_crypto = \<lparr>b64_encode = letters, b64_decode = unletters,
     aes_new = (\<lambda>k iv. if length k = 32 \<and> length iv = 16 then Inr () else Inl ''bad length''),
     aes_encrypt = (\<lambda>k iv d. d), aes_decrypt = (\<lambda>k iv d. Inr d),
     hmac_new = (\<lambda>k. Inr ()), hmac_sha256 = (\<lambda>k d. k), sha256 = (\<lambda>d. take 32 (d @ replicate 32 0)),
     pbkdf2 = (\<lambda>pw salt n. take 32 (pw @ salt @ replicate 32 0)),
     argon2_params = (\<lambda>m t p n. if m < 8 then Inl ''memory too small'' else Inr ()),
     argon2_hash = (\<lambda>(m, t, p, n) pw salt. Inr (replicate (n - 32) 0 @ take (n - (n - 32)) (pw @ salt @ replicate 32 0))),
     hkdf_from_prk = (\<lambda>k. Inr ()), hkdf_expand = (\<lambda>k info. Inr (take 32 (k @ as_bytes info @ replicate 32 0))),
     lowercase = map to_ascii_lower\<rparr>"

lemma char_of_less: "n < 256 \<Longrightarrow> (of_char (char_of n :: char) :: nat) = n"
  by simp

lemma nibbles: "unat (b :: u8) div 16 < 16" "unat b mod 16 < 16"
  using unsigned_less [of b, where ?'a = nat] by simp_all

lemma unletters_letters: "unletters (letters bs) = Inr bs"
proof (induction bs)
  case (Cons b bs)
  have "65 + unat b div 16 < 256" "65 + unat b mod 16 < 256" using nibbles [of b] by simp_all
  with Cons show ?case by (simp add: char_of_less)
qed simp

lemma letters_no_bar: "CHR ''|'' \<notin> set (letters bs)"
proof (induction bs)
  case (Cons b bs)
  have "char_of (65 + k) \<noteq> CHR ''|''" if "k < 16" for k :: nat
  proof
    assume "char_of (65 + k) = CHR ''|''"
    then have "of_char (char_of (65 + k) :: char) = (124 :: nat)" by simp
    with that show False by (simp add: char_of_less)
  qed
  then show ?case using Cons nibbles [of b] by (metis letters.simps(2) set_ConsD)
qed simp

lemma letters_utf8: "utf8_valid (as_bytes (letters bs))"
proof (induction bs)
  case (Cons b bs)
  have w: "unat (word_of_nat k :: u8) < 128" if "k < 128" for k using that by (simp add: unat_of_nat)
  have "65 + unat b div 16 < 128" "65 + unat b mod 16 < 128" using nibbles [of b] by simp_all
  from w [OF this(1)] w [OF this(2)] this show ?case
    using Cons by (simp add: as_bytes_def del: of_nat_add)
qed (simp add: as_bytes_def)

lemma demo_suite_ok: "suite_ok demo_crypto"
  by (auto simp: suite_ok_def demo_crypto_def unletters_letters letters_no_bar letters_utf8)

lemma demo_argon2:
  "argon2_params demo_crypto (64 * 1024) 3 1 64 = Inr ()"
  "argon2_hash demo_crypto (64 * 1024, 3, 1, 64) pw salt = Inr (replicate 32 0 @ take 32 (pw @ salt @ replicate 32 0))"
  by (simp_all add: demo_crypto_def)

lemma demo_pin_usable: "pin_usable demo_crypto (p, s)"
  by (simp add: pin_usable_def derive_pin_key_with_salt_def demo_argon2 [simplified])

section \<open>Properties\<close>

text \<open>
  What is encrypted under a PIN and a salt decrypts under the same PIN and salt to the same
  string, for every string, and no two strings encrypt to the same text; the same holds under a
  symmetric key.
\<close>

theorem pin_envelope_roundtrip:
  assumes "suite_ok L" and "is_ok (derive_pin_key_with_salt L pin salt)" and "length iv = 16"
    and "utf8_valid (as_bytes data)"
  shows "(\<exists>e. pin_encrypt_with_salt L iv data pin salt = Inr e \<and> pin_decrypt_with_salt L e pin salt = Inr data)
       \<and> (\<forall>iv' data' e. length iv' = 16 \<and> utf8_valid (as_bytes data') \<and>
            pin_encrypt_with_salt L iv data pin salt = Inr e \<and> pin_encrypt_with_salt L iv' data' pin salt = Inr e \<longrightarrow>
            data = data')
       \<and> (\<forall>k. key_ok k \<longrightarrow> (\<exists>e. encrypt_enc_string L iv (as_bytes data) k = Inr e \<and>
            decrypt_enc_string_to_string L e k = Inr data))"
proof -
  have u: "pin_usable L (pin, salt)" using assms(2) by (simp add: pin_usable_def)
  from pin_env.roundtrip [OF assms(1) u assms(3,4)] sym.roundtrip [OF assms(1) _ assms(3,4)]
    pin_env.seal_inj [OF assms(1) u assms(3) _ assms(4)]
  show ?thesis by auto
qed

theorem pin_envelope_roundtrip_witness:
  "\<exists>e. pin_encrypt_with_salt demo_crypto (replicate 16 7) ''[]'' ''1234'' [1, 2] = Inr e
     \<and> pin_decrypt_with_salt demo_crypto e ''1234'' [1, 2] = Inr ''[]''"
proof -
  have "is_ok (derive_pin_key_with_salt demo_crypto ''1234'' [1, 2])"
    using demo_pin_usable [of "''1234''" "[1, 2]"] by (simp add: pin_usable_def)
  moreover have "utf8_valid (as_bytes ''[]'')" by (simp add: as_bytes_def)
  ultimately show ?thesis
    using pin_envelope_roundtrip [of demo_crypto "''1234''" "[1, 2]" "replicate 16 7" "''[]''"]
    by (simp add: demo_suite_ok)
qed

text \<open>
  C17: decryption fails closed. A plaintext comes out only of a string of type 0 or type 2 with the
  right number of parts, and out of a type 2 string only when its MAC is the HMAC of the
  initialisation vector and the ciphertext under the given key; the plaintext is then the AES
  decryption of exactly those bytes.
\<close>

theorem decrypt_fails_closed:
  assumes "decrypt_enc_string L s key = Inr plain"
  shows "\<exists>t payload. split_once ''.'' s = Some (t, payload) \<and>
    (parse_unsigned 8 t = Some 0 \<and>
       (\<exists>i d iv data. split_on CHR ''|'' payload = [i, d] \<and> b64_decode L i = Inr iv \<and> b64_decode L d = Inr data
          \<and> aes_decrypt L (enc_key key) iv data = Inr plain)
     \<or> parse_unsigned 8 t = Some 2 \<and>
       (\<exists>i d m iv data. split_on CHR ''|'' payload = [i, d, m] \<and> b64_decode L i = Inr iv \<and> b64_decode L d = Inr data
          \<and> b64_decode L m = Inr (hmac_sha256 L (mac_key key) (iv @ data))
          \<and> aes_decrypt L (enc_key key) iv data = Inr plain))"
proof -
  obtain t payload n where sp: "split_once ''.'' s = Some (t, payload)" and n: "parse_unsigned 8 t = Some n"
    and cases: "n = 0 \<and> decrypt_type0 L payload key = Inr plain \<or> n = 2 \<and> decrypt_type2 L payload key = Inr plain"
    using assms by (auto simp: decrypt_enc_string_def split: option.splits if_splits)
  have aes: "aes_open L key iv data = Inr plain \<Longrightarrow> aes_decrypt L (enc_key key) iv data = Inr plain" for iv data
    by (auto simp: aes_open_def bind_res_Inr_iff)
  from cases show ?thesis
  proof
    assume "n = 0 \<and> decrypt_type0 L payload key = Inr plain"
    with sp n aes show ?thesis
      by (auto simp: decrypt_type0_def bind_res_Inr_iff split: list.splits)
  next
    assume "n = 2 \<and> decrypt_type2 L payload key = Inr plain"
    with sp n aes show ?thesis
      by (fastforce simp: decrypt_type2_def bind_res_Inr_iff split: list.splits if_splits)
  qed
qed

theorem decrypt_fails_closed_witness:
  "decrypt_enc_string demo_crypto ''0.|'' \<lparr>enc_key = replicate 32 0, mac_key = []\<rparr> = Inl ''AES-CBC init failed: bad length''
   \<and> (\<exists>e plain t payload. encrypt_enc_string demo_crypto (replicate 16 0) [5] \<lparr>enc_key = replicate 32 0, mac_key = replicate 32 1\<rparr> = Inr e
        \<and> decrypt_enc_string demo_crypto e \<lparr>enc_key = replicate 32 0, mac_key = replicate 32 1\<rparr> = Inr plain
        \<and> split_once ''.'' e = Some (t, payload) \<and> parse_unsigned 8 t \<in> {Some 0, Some 2})"
proof -
  let ?k = "\<lparr>enc_key = replicate 32 0, mac_key = replicate 32 1\<rparr>"
  have k: "key_ok ?k" by (simp add: key_ok_def)
  obtain e where e: "encrypt_enc_string demo_crypto (replicate 16 0) [5] ?k = Inr e"
    using encrypt_ok [OF demo_suite_ok k] by fastforce
  have d: "decrypt_enc_string demo_crypto e ?k = Inr [5]"
    by (rule decrypt_encrypt [OF demo_suite_ok k _ e]) simp
  have "decrypt_enc_string demo_crypto ''0.|'' \<lparr>enc_key = replicate 32 0, mac_key = []\<rparr>
      = Inl ''AES-CBC init failed: bad length''"
    by (simp add: decrypt_enc_string_def decrypt_type0_def parse_unsigned_def is_digit_def
        demo_crypto_def aes_open_def)
  with e d decrypt_fails_closed [OF d] show ?thesis by blast
qed

text \<open>
  A symmetric key survives being written as base64 and read back, and only 64 bytes of key
  material are ever accepted, whatever the text.
\<close>

theorem symmetric_key_roundtrip:
  assumes "suite_ok L" and "key_ok k"
  shows "decode_symmetric_key L (encode_symmetric_key L k) = Inr k
       \<and> (\<forall>s k'. decode_symmetric_key L s = Inr k' \<longrightarrow> key_ok k')
       \<and> (\<forall>s m k'. decrypt_user_key L s m = Inr k' \<longrightarrow> key_ok k')"
  using assms
  by (auto simp: decode_symmetric_key_def encode_symmetric_key_def suite_okD key_ok_def
      decrypt_user_key_def bind_res_Inr_iff split: if_splits)

theorem symmetric_key_roundtrip_witness:
  "decode_symmetric_key demo_crypto (encode_symmetric_key demo_crypto
     \<lparr>enc_key = replicate 32 1, mac_key = replicate 32 2\<rparr>) = Inr \<lparr>enc_key = replicate 32 1, mac_key = replicate 32 2\<rparr>"
  using symmetric_key_roundtrip [OF demo_suite_ok, of "\<lparr>enc_key = replicate 32 1, mac_key = replicate 32 2\<rparr>"]
  by (simp add: key_ok_def)

text \<open>
  The Argon2 memory cost is the server's figure in KiB only below \<open>2 ^ 22\<close> MiB: the
  multiplication by 1024 is done in 32 bits.
\<close>

lemma argon2_memory_wraps:
  fixes m p :: u32
  shows "derive_master_key L password email
       \<lparr>kdf = Argon2id, kdf_iterations = iters, kdf_memory = Some m, kdf_parallelism = Some p\<rparr> =
     bind_res (map_err (\<lambda>e. ''Invalid Argon2 params: '' @ e)
         (argon2_params L (word_of_nat ((unat m * 1024) mod 2 ^ 32)) iters p 32)) (\<lambda>_.
       map_err (\<lambda>e. ''Argon2 hashing failed: '' @ e)
         (argon2_hash L (word_of_nat ((unat m * 1024) mod 2 ^ 32), iters, p, 32) (as_bytes password)
           (sha256 L (as_bytes (lowercase L (trim email))))))"
proof -
  have cost: "word_of_nat ((unat m * 1024) mod 2 ^ 32) = m * 1024"
    by (rule word_unat_eq_iff [THEN iffD2]) (simp add: unat_of_nat unat_word_ariths)
  show ?thesis
    unfolding cost derive_master_key_def Let_def
    by (simp only: PreloginResponse.select_convs KdfType.case ok_or_simps bind_res_simps)
qed

end
