(* ===== verification/Stores.thy ===== *)
theory Stores
  imports Crypto
begin

text \<open>
  The files the daemon keeps, \<open>crates/sshwarden-config/src/cache.rs\<close>, \<open>unlock_slots.rs\<close> and
  \<open>session.rs\<close>: their contents, versions, loading, saving and deleting.

  A file is absent, unreadable, not parsable, or holds a value. The operating system's answers are
  the parameter \<open>os\<close>: which paths the configuration yields, whether creating a directory or
  removing a file works, and how a replacing write ends (theory \<open>Atomic_File\<close> models the write
  itself: it succeeds, or fails and leaves the old content, or fails and leaves it only in the
  backup file).
\<close>

datatype 'a stored = Absent | Unreadable | Malformed | Present 'a

datatype write_outcome = Written | Kept_Old string | Lost string

record os =
  cache_path :: "string result"
  slots_path :: "string result"
  session_path :: "string result"
  legacy_session_path :: "string result"
  mkdir_io :: "string \<Rightarrow> unit result"
  write_io :: "string \<Rightarrow> write_outcome"
  remove_io :: "string \<Rightarrow> unit result"

definition parent_dir :: "string \<Rightarrow> string" where
  "parent_dir p = (case rsplit_once ''/'' p of Some (d, _) \<Rightarrow> if d = [] then ''/'' else d | None \<Rightarrow> [])"

section \<open>Contents\<close>

record KeyIdentity =
  ki_name :: string
  ki_vault_item_id :: string
  ki_public_key_openssh :: string

record LocalCacheKeySlots =
  pin_encrypted :: "string option"
  pin_salt :: "string option"
  hello_challenge :: "string option"
  hello_encrypted :: "string option"
  native_encrypted :: "string option"

record LocalKeyCacheHeader =
  hdr_email :: string
  hdr_server_url :: string
  hdr_keys :: "KeyIdentity list"

record LocalKeyCacheFile =
  cache_version :: u32
  cache_header :: LocalKeyCacheHeader
  encrypted_payload :: string
  local_cache_key :: LocalCacheKeySlots

record UnlockSlotsFile =
  slots_version :: u32
  slot_hello_challenge :: "string option"
  slot_hello_encrypted :: "string option"
  slot_native_encrypted :: "string option"

definition slots_default :: UnlockSlotsFile where
  "slots_default = \<lparr>slots_version = 1, slot_hello_challenge = None, slot_hello_encrypted = None,
     slot_native_encrypted = None\<rparr>"

record SessionFile =
  session_version :: u32
  session_device_id :: string
  pin_encrypted_token :: "string option"
  hello_encrypted_token :: "string option"
  session_identity_url :: string

record disk =
  cache_file :: "LocalKeyCacheFile stored"
  slots_file :: "UnlockSlotsFile stored"
  session_files :: "(string, SessionFile stored) amap"
    \<comment> \<open>by path: the device's own and the historical shared location, which may coincide\<close>

definition session_at :: "disk \<Rightarrow> string \<Rightarrow> SessionFile stored" where
  "session_at d p = unwrap_or Absent (am_get (session_files d) p)"

section \<open>Replacing a file\<close>

definition replaced :: "write_outcome \<Rightarrow> 'a \<Rightarrow> 'a stored \<Rightarrow> unit result \<times> 'a stored" where
  "replaced w x old =
     (case w of
        Written \<Rightarrow> (Inr (), Present x)
      | Kept_Old e \<Rightarrow> (Inl e, old)
      | Lost e \<Rightarrow> (Inl e, Absent))"

section \<open>The local key cache\<close>

definition load_cache :: "os \<Rightarrow> disk \<Rightarrow> LocalKeyCacheFile option result" where
  "load_cache os d =
     bind_res (cache_path os) (\<lambda>path.
       case cache_file d of
         Absent \<Rightarrow> Inr None
       | Unreadable \<Rightarrow> Inl (''Failed to read local key cache: '' @ path)
       | Malformed \<Rightarrow> Inl (''Failed to parse local key cache: '' @ path)
       | Present c \<Rightarrow>
           if cache_version c \<notin> {2, 3}
           then Inl (''Unsupported local key cache version '' @ show_nat (unat (cache_version c))
                     @ '' (supported: [2, 3]): '' @ path)
           else Inr (Some c))"

definition save_cache :: "os \<Rightarrow> LocalKeyCacheFile \<Rightarrow> disk \<Rightarrow> unit result \<times> disk" where
  "save_cache os c d =
     (case cache_path os of
        Inl e \<Rightarrow> (Inl e, d)
      | Inr path \<Rightarrow>
          (case mkdir_io os (parent_dir path) of
             Inl _ \<Rightarrow> (Inl (''Failed to create local key cache directory: '' @ parent_dir path), d)
           | Inr _ \<Rightarrow>
               (case replaced (write_io os path) c (cache_file d) of
                  (r, f) \<Rightarrow> (context_msg (''Failed to write local key cache: '' @ path) r,
                             d\<lparr>cache_file := f\<rparr>))))"

definition delete_cache :: "os \<Rightarrow> disk \<Rightarrow> unit result \<times> disk" where
  "delete_cache os d =
     (case cache_path os of
        Inl e \<Rightarrow> (Inl e, d)
      | Inr path \<Rightarrow>
          (if cache_file d = Absent then (Inr (), d)
           else case remove_io os path of
                  Inl _ \<Rightarrow> (Inl (''Failed to delete local key cache: '' @ path), d)
                | Inr _ \<Rightarrow> (Inr (), d\<lparr>cache_file := Absent\<rparr>)))"

section \<open>The device's unlock slots\<close>

definition ensure_supported_slots :: "u32 \<Rightarrow> string \<Rightarrow> unit result" where
  "ensure_supported_slots v path =
     (if v \<noteq> 1
      then Inl (''Unsupported unlock slots version '' @ show_nat (unat v) @ '' (supported: [1]): '' @ path)
      else Inr ())"

definition load_slots :: "os \<Rightarrow> disk \<Rightarrow> UnlockSlotsFile option result" where
  "load_slots os d =
     bind_res (slots_path os) (\<lambda>path.
       case slots_file d of
         Absent \<Rightarrow> Inr None
       | Unreadable \<Rightarrow> Inl (''Failed to read unlock slots file: '' @ path)
       | Malformed \<Rightarrow> Inl (''Failed to parse unlock slots file: '' @ path)
       | Present s \<Rightarrow> bind_res (ensure_supported_slots (slots_version s) path) (\<lambda>_. Inr (Some s)))"

definition save_slots :: "os \<Rightarrow> UnlockSlotsFile \<Rightarrow> disk \<Rightarrow> unit result \<times> disk" where
  "save_slots os s d =
     (case slots_path os of
        Inl e \<Rightarrow> (Inl e, d)
      | Inr path \<Rightarrow>
          (case ensure_supported_slots (slots_version s) path of
             Inl e \<Rightarrow> (Inl e, d)
           | Inr _ \<Rightarrow>
               (case mkdir_io os (parent_dir path) of
                  Inl _ \<Rightarrow> (Inl (''Failed to create unlock slots directory: '' @ parent_dir path), d)
                | Inr _ \<Rightarrow>
                    (case replaced (write_io os path) s (slots_file d) of
                       (r, f) \<Rightarrow> (context_msg (''Failed to write unlock slots file: '' @ path) r,
                                  d\<lparr>slots_file := f\<rparr>)))))"

definition delete_slots :: "os \<Rightarrow> disk \<Rightarrow> unit result \<times> disk" where
  "delete_slots os d =
     (case slots_path os of
        Inl e \<Rightarrow> (Inl e, d)
      | Inr path \<Rightarrow>
          (if slots_file d = Absent then (Inr (), d)
           else case remove_io os path of
                  Inl _ \<Rightarrow> (Inl (''Failed to delete unlock slots file: '' @ path), d)
                | Inr _ \<Rightarrow> (Inr (), d\<lparr>slots_file := Absent\<rparr>)))"

section \<open>The device session\<close>

definition put_session :: "string \<Rightarrow> SessionFile stored \<Rightarrow> disk \<Rightarrow> disk" where
  "put_session p f d = d\<lparr>session_files := am_insert p f (session_files d)\<rparr>"

definition load_session :: "os \<Rightarrow> disk \<Rightarrow> SessionFile option result" where
  "load_session os d =
     bind_res (session_path os) (\<lambda>own.
     bind_res (if session_at d own \<noteq> Absent then Inr (Some own)
               else bind_res (legacy_session_path os) (\<lambda>legacy.
                      if session_at d legacy \<noteq> Absent then Inr (Some legacy) else Inr None)) (\<lambda>found.
       case found of
         None \<Rightarrow> Inr None
       | Some path \<Rightarrow>
           (case session_at d path of
              Absent \<Rightarrow> Inr None
            | Unreadable \<Rightarrow> Inl (''Failed to read session file: '' @ path)
            | Malformed \<Rightarrow> Inl (''Failed to parse session file: '' @ path)
            | Present s \<Rightarrow>
                if session_version s \<noteq> 1
                then Inl (''Unsupported session file version '' @ show_nat (unat (session_version s))
                          @ '' (supported: [1]): '' @ path)
                else Inr (Some s))))"

definition save_session :: "os \<Rightarrow> SessionFile \<Rightarrow> disk \<Rightarrow> unit result \<times> disk" where
  "save_session os s d =
     (case session_path os of
        Inl e \<Rightarrow> (Inl e, d)
      | Inr path \<Rightarrow>
          (case mkdir_io os (parent_dir path) of
             Inl _ \<Rightarrow> (Inl (''Failed to create session directory: '' @ parent_dir path), d)
           | Inr _ \<Rightarrow>
               (case replaced (write_io os path) s (session_at d path) of
                  (r, f) \<Rightarrow> (context_msg (''Failed to write session file: '' @ path) r,
                             put_session path f d))))"

definition delete_session :: "os \<Rightarrow> disk \<Rightarrow> unit result \<times> disk" where
  "delete_session os d =
     (case session_path os of
        Inl e \<Rightarrow> (Inl e, d)
      | Inr path \<Rightarrow>
          (case (if session_at d path = Absent then (Inr (), d)
                 else case remove_io os path of
                        Inl _ \<Rightarrow> (Inl (''Failed to delete session file: '' @ path), d)
                      | Inr _ \<Rightarrow> (Inr (), put_session path Absent d)) of
             (Inl e, d') \<Rightarrow> (Inl e, d')
           | (Inr _, d') \<Rightarrow>
               (case legacy_session_path os of
                  Inl e \<Rightarrow> (Inl e, d')
                | Inr legacy \<Rightarrow>
                    (if session_at d' legacy = Absent \<or> legacy = path then (Inr (), d')
                     else case remove_io os legacy of
                            Inl _ \<Rightarrow> (Inl (''Failed to delete legacy session file: '' @ legacy), d')
                          | Inr _ \<Rightarrow> (Inr (), put_session legacy Absent d')))))"

section \<open>The contract of a store\<close>

text \<open>
  What the callers of the three files rely on: what was saved is what is loaded, a deleted file is
  gone, and a version this build cannot handle is never handed out. With these laws a
  read-modify-write cycle is one update of the stored value.
\<close>

locale versioned_store =
  fixes load :: "'e \<Rightarrow> 'd \<Rightarrow> 'a option result"
    and save :: "'e \<Rightarrow> 'a \<Rightarrow> 'd \<Rightarrow> unit result \<times> 'd"
    and delete :: "'e \<Rightarrow> 'd \<Rightarrow> unit result \<times> 'd"
    and supported :: "'a \<Rightarrow> bool"
  assumes load_save: "supported x \<Longrightarrow> save e x d = (Inr (), d') \<Longrightarrow> load e d' = Inr (Some x)"
    and load_supported: "load e d = Inr (Some x) \<Longrightarrow> supported x"
    and load_delete: "delete e d = (Inr (), d') \<Longrightarrow> load e d' = Inr None"
begin

lemma save_save:
  assumes "supported y" and "save e x d = (Inr (), d')" and "save e y d' = (Inr (), d'')"
  shows "load e d'' = Inr (Some y)"
  using assms(1,3) by (rule load_save)

lemma update_loaded:
  assumes "load e d = Inr (Some x)" and "\<And>x. supported x \<Longrightarrow> supported (f x)"
    and "save e (f x) d = (Inr (), d')"
  shows "load e d' = Inr (Some (f x))"
  using load_save assms load_supported by blast

end

lemma session_at_put [simp]: "session_at (put_session p f d) q = (if q = p then f else session_at d q)"
  by (simp add: session_at_def put_session_def)

lemma replaced_Inr_iff: "replaced w x old = (Inr (), f) \<longleftrightarrow> w = Written \<and> f = Present x"
  by (cases w) (auto simp: replaced_def)

interpretation cache_store: versioned_store load_cache save_cache delete_cache
  "\<lambda>c. cache_version c \<in> {2, 3}"
proof (unfold_locales, goal_cases)
  case (1 x e d d')
  then show ?case
    by (auto simp: save_cache_def load_cache_def replaced_Inr_iff split: sum.splits prod.splits)
next
  case (2 e d x)
  then show ?case
    by (cases "cache_file d") (auto simp: load_cache_def bind_res_Inr_iff split: if_splits)
next
  case (3 e d d')
  then show ?case
    by (auto simp: delete_cache_def load_cache_def split: sum.splits if_splits)
qed

interpretation slots_store: versioned_store load_slots save_slots delete_slots
  "\<lambda>s. slots_version s = 1"
proof (unfold_locales, goal_cases)
  case (1 x e d d')
  then show ?case
    by (auto simp: save_slots_def load_slots_def ensure_supported_slots_def replaced_Inr_iff
        split: sum.splits prod.splits)
next
  case (2 e d x)
  then show ?case
    by (cases "slots_file d")
      (auto simp: load_slots_def ensure_supported_slots_def bind_res_Inr_iff split: if_splits)
next
  case (3 e d d')
  then show ?case
    by (auto simp: delete_slots_def load_slots_def split: sum.splits if_splits)
qed

interpretation session_store: versioned_store load_session save_session delete_session
  "\<lambda>s. session_version s = 1"
proof (unfold_locales, goal_cases)
  case (1 x e d d')
  then show ?case
    by (auto simp: save_session_def load_session_def replaced_Inr_iff split: sum.splits prod.splits)
next
  case (2 e d x)
  then show ?case
    by (auto simp: load_session_def bind_res_Inr_iff split: stored.splits if_splits option.splits)
next
  case (3 e d d')
  then show ?case
    by (auto simp: delete_session_def load_session_def split: sum.splits if_splits prod.splits)
qed

end
