(* ===== verification/Ssh_Request.thy ===== *)
theory Ssh_Request
  imports Rust_Text
begin

text \<open>
  \<open>crates/sshwarden-agent/src/request_parser.rs\<close>: classification of the data an SSH client
  asks the agent to sign. An \<open>SSHSIG\<close> blob carries a namespace and is a Git, file or generic
  signature; everything else is SSH authentication.
\<close>

datatype OperationKind = SshAuthentication | GitSigning | FileSigning | SshSignature

fun as_str :: "OperationKind \<Rightarrow> string" where
  "as_str SshAuthentication = ''ssh_authentication''"
| "as_str GitSigning = ''git_signing''"
| "as_str FileSigning = ''file_signing''"
| "as_str SshSignature = ''ssh_signature''"

datatype SshAgentSignRequest = SshSigRequest string | SignRequest

definition operation_kind_from_namespace :: "string \<Rightarrow> OperationKind" where
  "operation_kind_from_namespace namespace =
     (if namespace = ''git'' then GitSigning
      else if namespace = ''file'' then FileSigning
      else if namespace = ''ssh'' then SshAuthentication
      else SshSignature)"

fun operation_kind :: "SshAgentSignRequest \<Rightarrow> OperationKind" where
  "operation_kind SignRequest = SshAuthentication"
| "operation_kind (SshSigRequest namespace) = operation_kind_from_namespace namespace"

definition magic_header :: bytes where
  "magic_header = as_bytes ''SSHSIG''"

definition parse_request :: "bytes \<Rightarrow> SshAgentSignRequest result" where
  "parse_request data =
     (if length data < length magic_header then Inr SignRequest
      else let header = take (length magic_header) data;
               rest = drop (length magic_header) data
           in if header = magic_header then
                (if length rest < 4 then Inl ''Truncated SSHSIG request: missing version''
                 else let namespace = takeWhile (\<lambda>x. x \<noteq> 0) (drop 4 rest)
                      in case from_utf8 namespace of
                           None \<Rightarrow> Inl ''Invalid namespace''
                         | Some ns \<Rightarrow> Inr (SshSigRequest ns))
              else Inr SignRequest)"

lemma as_str_inj: "as_str a = as_str b \<longleftrightarrow> a = b"
  by (cases a; cases b) simp_all

lemma length_magic_header [simp]: "length magic_header = 6"
  by (simp add: magic_header_def as_bytes_def)

text \<open>
  The data OpenSSH hands to an agent for an \<open>SSHSIG\<close> signature (PROTOCOL.sshsig): the magic
  preamble, then the namespace, a reserved string, the hash algorithm and the message hash, each
  as an SSH string with a 32-bit big-endian length in front.
\<close>

definition be32 :: "nat \<Rightarrow> bytes" where
  "be32 n = [word_of_nat (n div 2 ^ 24), word_of_nat (n div 2 ^ 16), word_of_nat (n div 2 ^ 8), word_of_nat n]"

definition ssh_string :: "bytes \<Rightarrow> bytes" where
  "ssh_string bs = be32 (length bs) @ bs"

definition sshsig_signed_data :: "string \<Rightarrow> bytes \<Rightarrow> bytes \<Rightarrow> bytes \<Rightarrow> bytes" where
  "sshsig_signed_data ns reserved halg h =
     magic_header @ ssh_string (as_bytes ns) @ ssh_string reserved @ ssh_string halg @ ssh_string h"

lemma takeWhile_before_zero: "0 \<notin> set xs \<Longrightarrow> takeWhile (\<lambda>x. x \<noteq> 0) (xs @ 0 # ys) = xs"
  by (induction xs) auto

lemma be32_short_hd: "n < 2 ^ 24 \<Longrightarrow> \<exists>rest. be32 n = 0 # rest"
  by (simp add: be32_def)

text \<open>
  For every well-formed \<open>SSHSIG\<close> blob whose namespace is NUL-free UTF-8 text and whose
  reserved field is shorter than 16 MiB (OpenSSH leaves it empty), the parser recovers exactly
  the namespace, although it skips the namespace's length as if it were a version number.
\<close>

theorem parse_request_sshsig:
  assumes "utf8_valid (as_bytes ns)" and "0 \<notin> set (as_bytes ns)" and "length reserved < 2 ^ 24"
  shows "parse_request (sshsig_signed_data ns reserved halg h) = Inr (SshSigRequest ns)"
proof -
  obtain r where r: "be32 (length reserved) = 0 # r"
    using be32_short_hd [OF assms(3)] by blast
  have "takeWhile (\<lambda>x. x \<noteq> 0)
      (as_bytes ns @ ssh_string reserved @ ssh_string halg @ ssh_string h) = as_bytes ns"
    using takeWhile_before_zero [OF assms(2)] r by (simp add: ssh_string_def)
  then show ?thesis
    using from_utf8_as_bytes [OF assms(1)]
    by (simp add: parse_request_def sshsig_signed_data_def ssh_string_def be32_def)
qed

theorem parse_request_sshsig_witness:
  "parse_request (sshsig_signed_data ''git'' [] (as_bytes ''sha512'') [1, 2, 3])
     = Inr (SshSigRequest ''git'')"
  by (rule parse_request_sshsig) (simp_all add: as_bytes_def)

text \<open>
  The parser is total and fails in exactly two situations, both on data that starts with
  the magic preamble: the four bytes behind it are missing, or the bytes up to the first NUL are
  not UTF-8. Data that is shorter than the preamble or does not start with it is a plain
  signature request.
\<close>

theorem parse_request_errors:
  "(\<exists>e. parse_request data = Inl e) \<longleftrightarrow>
     take 6 data = magic_header \<and>
     (length data < 10 \<or> \<not> utf8_valid (takeWhile (\<lambda>x. x \<noteq> 0) (drop 10 data)))"
proof (cases "length data < 6")
  case True
  then have "take 6 data \<noteq> magic_header"
    by (metis length_magic_header length_take min.absorb2 less_imp_le_nat less_irrefl_nat min_def)
  with True show ?thesis by (simp add: parse_request_def)
next
  case False
  then show ?thesis
    by (auto simp: parse_request_def from_utf8_def Let_def split: if_splits)
qed

theorem parse_request_errors_witness: "\<exists>e. parse_request (as_bytes ''SSHSIG'' @ [0, 0, 0]) = Inl e"
  unfolding parse_request_errors by (simp add: magic_header_def as_bytes_def)

lemma parse_request_plain:
  "take 6 data \<noteq> magic_header \<Longrightarrow> parse_request data = Inr SignRequest"
  by (auto simp: parse_request_def Let_def)

end
