(* ===== verification/Agent.thy ===== *)
theory Agent
  imports Ssh_Request
begin

text \<open>
  \<open>crates/sshwarden-agent/src/agent.rs\<close> and \<open>peerinfo/models.rs\<close>: the key store
  of the SSH agent, its lock state and the confirmation of list and sign requests.

  The crate \<open>ssh_key\<close> is a parameter: \<open>ssh_lib\<close> holds the functions the agent
  calls. A parsed private key is represented by its bytes. The store is keyed by the public key's
  wire encoding, as in the source.
\<close>

type_synonym private_key = bytes
type_synonym key_tuple = "string \<times> string \<times> string"
  \<comment> \<open>private key in PEM (or public key in OpenSSH form), name, vault item id\<close>

record ssh_lib =
  private_from_openssh :: "string \<Rightarrow> private_key result"
  public_to_bytes :: "private_key \<Rightarrow> bytes result"
  public_to_openssh :: "private_key \<Rightarrow> string result"
  public_from_openssh_bytes :: "string \<Rightarrow> bytes result"

section \<open>Peer information\<close>

record PeerInfo =
  peer_uid :: u32
  peer_pid :: u32
  peer_process_name :: string
  peer_is_forwarding :: bool
  peer_host_key :: bytes

definition PeerInfo_new :: "u32 \<Rightarrow> u32 \<Rightarrow> string \<Rightarrow> PeerInfo" where
  "PeerInfo_new uid pid process_name =
     \<lparr>peer_uid = uid, peer_pid = pid, peer_process_name = process_name,
      peer_is_forwarding = False, peer_host_key = []\<rparr>"

definition PeerInfo_unknown :: PeerInfo where
  "PeerInfo_unknown =
     \<lparr>peer_uid = 0, peer_pid = 0, peer_process_name = ''Unknown application'',
      peer_is_forwarding = False, peer_host_key = []\<rparr>"

datatype SessionBindResult = Success bool bytes | SignatureFailure
  \<comment> \<open>\<open>Success is_forwarding host_key\<close>\<close>

fun set_sessionbind_info :: "SessionBindResult \<Rightarrow> PeerInfo \<Rightarrow> PeerInfo" where
  "set_sessionbind_info (Success is_forwarding host_key) info =
     info\<lparr>peer_is_forwarding := is_forwarding, peer_host_key := host_key\<rparr>"
| "set_sessionbind_info SignatureFailure info = info"

text \<open>The process table (crate \<open>sysinfo\<close>): what the operating system says about a pid.\<close>

record process_entry =
  proc_pid :: u32
  proc_name :: "string option"
  proc_cmd :: "string option list"
    \<comment> \<open>\<open>None\<close> is an argument, or a name, that is not UTF-8\<close>

definition get_peer_info :: "(u32 \<Rightarrow> process_entry option) \<Rightarrow> u32 \<Rightarrow> PeerInfo result" where
  "get_peer_info ps pid =
     (case ps pid of
        Some p \<Rightarrow>
          (case proc_name p of
             Some name \<Rightarrow> Inr (PeerInfo_new pid (proc_pid p) name)
           | None \<Rightarrow> Inl ''Failed to get process name'')
      | None \<Rightarrow> Inl ''Failed to get process'')"

fun collect_options :: "'a option list \<Rightarrow> 'a list option" where
  "collect_options [] = Some []"
| "collect_options (None # _) = None"
| "collect_options (Some x # xs) = map_option ((#) x) (collect_options xs)"

definition get_peer_cmd :: "(u32 \<Rightarrow> process_entry option) \<Rightarrow> u32 \<Rightarrow> string list option" where
  "get_peer_cmd ps pid =
     (case ps pid of None \<Rightarrow> None | Some p \<Rightarrow> collect_options (proc_cmd p))"

section \<open>The key store\<close>

record SshWardenKey =
  key_private :: "private_key option"
  key_public_bytes :: bytes
  key_name :: string
  key_cipher_uuid :: string

record SshWardenAgent =
  keystore :: "(bytes, SshWardenKey) amap"
  request_id :: u32
  needs_unlock :: bool
  is_running :: bool
  cancelled :: bool

definition agent_new :: SshWardenAgent where
  "agent_new = \<lparr>keystore = [], request_id = 0, needs_unlock = True, is_running = False,
                cancelled = False\<rparr>"

definition agent_stop :: "SshWardenAgent \<Rightarrow> SshWardenAgent" where
  "agent_stop a =
     (if \<not> is_running a then a
      else a\<lparr>is_running := False, cancelled := True, keystore := []\<rparr>)"

definition parse_key_safe :: "ssh_lib \<Rightarrow> string \<Rightarrow> private_key result" where
  "parse_key_safe lib pem =
     (case private_from_openssh lib pem of
        Inr key \<Rightarrow>
          (case public_to_bytes lib key of
             Inr _ \<Rightarrow> Inr key
           | Inl e \<Rightarrow> Inl (''Failed to parse public key: '' @ e))
      | Inl e \<Rightarrow> Inl (''Failed to parse key: '' @ e))"

text \<open>
  The body of the loop of \<open>set_keys\<close>. The source unwraps the public bytes with
  \<open>expect\<close>; \<open>parse_key_safe\<close> has already seen the same call succeed, so the
  \<open>Inl\<close> branch is never taken (lemma \<open>parse_key_safe_public\<close>).
\<close>

definition load_key :: "ssh_lib \<Rightarrow> key_tuple \<Rightarrow> (bytes, SshWardenKey) amap \<Rightarrow> (bytes, SshWardenKey) amap" where
  "load_key lib t ks =
     (case t of (pem, name, cipher_id) \<Rightarrow>
        (case parse_key_safe lib pem of
           Inr private \<Rightarrow>
             (case public_to_bytes lib private of
                Inr public_bytes \<Rightarrow>
                  am_insert public_bytes
                    \<lparr>key_private = Some private, key_public_bytes = public_bytes,
                     key_name = name, key_cipher_uuid = cipher_id\<rparr> ks
              | Inl _ \<Rightarrow> ks)
         | Inl _ \<Rightarrow> ks))"

definition set_keys :: "ssh_lib \<Rightarrow> key_tuple list \<Rightarrow> SshWardenAgent \<Rightarrow> unit result \<times> SshWardenAgent" where
  "set_keys lib new_keys a =
     (if \<not> is_running a
      then (Inl ''[SshWardenAgent] Tried to set keys while agent is not running'', a)
      else (Inr (), a\<lparr>keystore := fold (load_key lib) new_keys [], needs_unlock := True\<rparr>))"

definition load_identity :: "ssh_lib \<Rightarrow> key_tuple \<Rightarrow> (bytes, SshWardenKey) amap \<Rightarrow> (bytes, SshWardenKey) amap" where
  "load_identity lib t ks =
     (case t of (public_openssh, name, cipher_id) \<Rightarrow>
        (case public_from_openssh_bytes lib public_openssh of
           Inr public_bytes \<Rightarrow>
             am_insert public_bytes
               \<lparr>key_private = None, key_public_bytes = public_bytes,
                key_name = name, key_cipher_uuid = cipher_id\<rparr> ks
         | Inl _ \<Rightarrow> ks))"

definition set_public_identities ::
  "ssh_lib \<Rightarrow> key_tuple list \<Rightarrow> SshWardenAgent \<Rightarrow> unit result \<times> SshWardenAgent" where
  "set_public_identities lib identities a =
     (if \<not> is_running a
      then (Inl ''[SshWardenAgent] Tried to set identities while agent is not running'', a)
      else (Inr (), a\<lparr>keystore := fold (load_identity lib) identities [], needs_unlock := False\<rparr>))"

definition agent_lock :: "SshWardenAgent \<Rightarrow> unit result \<times> SshWardenAgent" where
  "agent_lock a =
     (if \<not> is_running a
      then (Inl ''[SshWardenAgent] Tried to lock agent, but it is not running'', a)
      else (Inr (), a\<lparr>keystore := am_map (\<lambda>k. k\<lparr>key_private := None\<rparr>) (keystore a),
                     needs_unlock := False\<rparr>))"

definition clear_keys :: "SshWardenAgent \<Rightarrow> SshWardenAgent" where
  "clear_keys a = a\<lparr>keystore := [], needs_unlock := True\<rparr>"

definition key_count :: "SshWardenAgent \<Rightarrow> nat" where
  "key_count a = length (keystore a)"

definition signable_key_count :: "SshWardenAgent \<Rightarrow> nat" where
  "signable_key_count a = length (filter (\<lambda>(_, k). key_private k \<noteq> None) (keystore a))"

definition clear_needs_unlock :: "SshWardenAgent \<Rightarrow> SshWardenAgent" where
  "clear_needs_unlock a = a\<lparr>needs_unlock := False\<rparr>"

definition set_running :: "bool \<Rightarrow> SshWardenAgent \<Rightarrow> SshWardenAgent" where
  "set_running v a = a\<lparr>is_running := v\<rparr>"

definition get_request_id :: "SshWardenAgent \<Rightarrow> u32 \<times> SshWardenAgent" where
  "get_request_id a =
     (if \<not> is_running a then (0, a) else (request_id a, a\<lparr>request_id := request_id a + 1\<rparr>))"

section \<open>Confirming requests\<close>

record SshAgentUIRequest =
  req_request_id :: u32
  req_cipher_id :: "string option"
  req_process_name :: string
  req_pid :: u32
  req_is_list :: bool
  req_namespace :: "string option"
  req_operation_kind :: OperationKind
  req_is_forwarding :: bool

text \<open>
  Waiting on the broadcast channel: the answers received after the request was sent, in order. The
  list ends where the receiver gets an error (the channel closed, or it lagged behind).
\<close>

fun await_response :: "u32 \<Rightarrow> (u32 \<times> bool) list \<Rightarrow> bool" where
  "await_response rid [] = False"
| "await_response rid ((i, response) # rest) = (if i = rid then response else await_response rid rest)"

definition confirm_request :: "SshWardenKey \<Rightarrow> bytes \<Rightarrow> PeerInfo \<Rightarrow> SshWardenAgent \<Rightarrow>
    SshAgentUIRequest option \<times> SshWardenAgent" where
  "confirm_request key data info a =
     (if \<not> is_running a then (None, a)
      else let (rid, a') = get_request_id a
           in case parse_request data of
                Inl _ \<Rightarrow> (None, a')
              | Inr r \<Rightarrow>
                  (Some \<lparr>req_request_id = rid, req_cipher_id = Some (key_cipher_uuid key),
                         req_process_name = peer_process_name info, req_pid = peer_pid info,
                         req_is_list = False,
                         req_namespace = (case r of SshSigRequest ns \<Rightarrow> Some ns | _ \<Rightarrow> None),
                         req_operation_kind = operation_kind r,
                         req_is_forwarding = peer_is_forwarding info\<rparr>, a'))"

definition confirm :: "SshWardenKey \<Rightarrow> bytes \<Rightarrow> PeerInfo \<Rightarrow> bool \<Rightarrow> (u32 \<times> bool) list \<Rightarrow>
    SshWardenAgent \<Rightarrow> bool \<times> SshWardenAgent" where
  "confirm key data info ui_open responses a =
     (case confirm_request key data info a of
        (None, a') \<Rightarrow> (False, a')
      | (Some req, a') \<Rightarrow>
          (if ui_open then (await_response (req_request_id req) responses, a') else (False, a')))"

definition can_list :: "bool \<Rightarrow> (u32 \<times> bool) list \<Rightarrow> SshWardenAgent \<Rightarrow> bool \<times> SshWardenAgent" where
  "can_list ui_open responses a =
     (if \<not> needs_unlock a then (True, a)
      else let (rid, a') = get_request_id a
           in (if ui_open then await_response rid responses else False, a'))"

section \<open>Invariant and lemmas of the store\<close>

definition entry_ok :: "ssh_lib \<Rightarrow> bytes \<Rightarrow> SshWardenKey \<Rightarrow> bool" where
  "entry_ok lib b k \<longleftrightarrow> key_public_bytes k = b \<and>
     (\<forall>p. key_private k = Some p \<longrightarrow> public_to_bytes lib p = Inr b)"

definition keystore_ok :: "ssh_lib \<Rightarrow> SshWardenAgent \<Rightarrow> bool" where
  "keystore_ok lib a \<longleftrightarrow> am_inv (keystore a) \<and> (\<forall>(b, k) \<in> set (keystore a). entry_ok lib b k)"

definition listed :: "SshWardenAgent \<Rightarrow> bytes set" where
  "listed a = fst ` set (keystore a)"

definition signable :: "SshWardenAgent \<Rightarrow> bytes set" where
  "signable a = {b. \<exists>k. am_get (keystore a) b = Some k \<and> key_private k \<noteq> None}"

lemma parse_key_safe_public:
  "parse_key_safe lib pem = Inr key \<Longrightarrow> \<exists>b. public_to_bytes lib key = Inr b"
  by (auto simp: parse_key_safe_def split: sum.splits)

lemma set_am_insert_subset: "set (am_insert k v m) \<subseteq> insert (k, v) (set m)"
  by (induction k v m rule: am_insert.induct) auto

lemma fold_ks_inv:
  assumes "\<And>t ks. P ks \<Longrightarrow> P (f t ks)" and "P ks"
  shows "P (fold f ts ks)"
  using assms(2) by (induction ts arbitrary: ks) (auto intro: assms(1))

lemma load_key_cases:
  "load_key lib (pem, name, cid) ks = ks \<or>
   (\<exists>p b. parse_key_safe lib pem = Inr p \<and> public_to_bytes lib p = Inr b \<and>
     load_key lib (pem, name, cid) ks =
       am_insert b \<lparr>key_private = Some p, key_public_bytes = b, key_name = name, key_cipher_uuid = cid\<rparr> ks)"
  by (auto simp: load_key_def split: sum.splits)

lemma load_identity_cases:
  "load_identity lib (s, name, cid) ks = ks \<or>
   (\<exists>b. public_from_openssh_bytes lib s = Inr b \<and>
     load_identity lib (s, name, cid) ks =
       am_insert b \<lparr>key_private = None, key_public_bytes = b, key_name = name, key_cipher_uuid = cid\<rparr> ks)"
  by (auto simp: load_identity_def split: sum.splits)

definition store_ok :: "ssh_lib \<Rightarrow> (bytes, SshWardenKey) amap \<Rightarrow> bool" where
  "store_ok lib ks \<longleftrightarrow> am_inv ks \<and> (\<forall>(b, k) \<in> set ks. entry_ok lib b k)"

lemma store_ok_insert: "store_ok lib ks \<Longrightarrow> entry_ok lib b k \<Longrightarrow> store_ok lib (am_insert b k ks)"
  using set_am_insert_subset [of b k ks] by (fastforce simp: store_ok_def am_inv_insert)

lemma store_ok_load_key: "store_ok lib ks \<Longrightarrow> store_ok lib (load_key lib t ks)"
  by (auto simp: load_key_def entry_ok_def intro!: store_ok_insert split: prod.splits sum.splits)

lemma store_ok_load_identity: "store_ok lib ks \<Longrightarrow> store_ok lib (load_identity lib t ks)"
  by (auto simp: load_identity_def entry_ok_def intro!: store_ok_insert split: prod.splits sum.splits)

lemma store_ok_Nil [simp]: "store_ok lib []"
  by (simp add: store_ok_def)

lemma keystore_ok_iff: "keystore_ok lib a = store_ok lib (keystore a)"
  by (simp add: keystore_ok_def store_ok_def)

lemma keystore_ok_set_keys: "keystore_ok lib a \<Longrightarrow> keystore_ok lib (snd (set_keys lib ts a))"
  by (simp add: set_keys_def keystore_ok_iff fold_ks_inv store_ok_load_key)

lemma keystore_ok_set_public_identities:
  "keystore_ok lib a \<Longrightarrow> keystore_ok lib (snd (set_public_identities lib ts a))"
  by (simp add: set_public_identities_def keystore_ok_iff fold_ks_inv store_ok_load_identity)

lemma keystore_ok_lock: "keystore_ok lib a \<Longrightarrow> keystore_ok lib (snd (agent_lock a))"
  by (auto simp: agent_lock_def keystore_ok_iff store_ok_def entry_ok_def am_map_def
      case_prod_unfold am_inv_def comp_def)

lemma keystore_ok_clear [simp]: "keystore_ok lib (clear_keys a)"
  by (simp add: clear_keys_def keystore_ok_def)

lemma keystore_ok_stop: "keystore_ok lib a \<Longrightarrow> keystore_ok lib (agent_stop a)"
  by (simp add: agent_stop_def keystore_ok_def)

lemma listed_get: "b \<in> listed a \<longleftrightarrow> am_get (keystore a) b \<noteq> None"
  by (simp add: listed_def map_of_eq_None_iff)

lemma signable_subset_listed: "signable a \<subseteq> listed a"
  by (auto simp: signable_def listed_get)

lemma key_count_card: "keystore_ok lib a \<Longrightarrow> key_count a = card (listed a)"
  using distinct_card [of "map fst (keystore a)"]
  by (simp add: key_count_def listed_def keystore_ok_def am_inv_def)

lemma signable_image:
  assumes "am_inv (keystore a)"
  shows "signable a = fst ` set (filter (\<lambda>(_, k). key_private k \<noteq> None) (keystore a))"
proof -
  have "b \<in> signable a \<longleftrightarrow> (\<exists>k. (b, k) \<in> set (keystore a) \<and> key_private k \<noteq> None)" for b
    using assms by (auto simp: signable_def am_inv_def map_of_eq_Some_iff)
  then show ?thesis by (force simp: image_iff)
qed

lemma signable_key_count_card:
  assumes "keystore_ok lib a"
  shows "signable_key_count a = card (signable a)"
proof -
  let ?f = "filter (\<lambda>(_, k). key_private k \<noteq> None) (keystore a)"
  have inv: "am_inv (keystore a)" using assms by (simp add: keystore_ok_def)
  then have "distinct (map fst ?f)" using am_inv_filter am_inv_def by blast
  from distinct_card [OF this] show ?thesis
    by (simp add: signable_key_count_def signable_image [OF inv])
qed

lemma signable_lock: "is_running a \<Longrightarrow> signable (snd (agent_lock a)) = {}"
  by (auto simp: agent_lock_def signable_def)

lemma listed_lock: "listed (snd (agent_lock a)) = listed a"
  by (auto simp: agent_lock_def listed_get set_eq_iff)

lemma all_private_load_keys:
  "\<forall>(b, k) \<in> set ks. key_private k \<noteq> None \<Longrightarrow>
   \<forall>(b, k) \<in> set (fold (load_key lib) ts ks). key_private k \<noteq> None"
proof (induction ts arbitrary: ks)
  case (Cons t ts)
  obtain pem name cid where t: "t = (pem, name, cid)" by (cases t)
  have "\<forall>(b, k) \<in> set (load_key lib t ks). key_private k \<noteq> None"
    using load_key_cases [of lib pem name cid ks] Cons.prems set_am_insert_subset t by fastforce
  then show ?case using Cons.IH by simp
qed simp

lemma no_private_load_identities:
  "\<forall>(b, k) \<in> set ks. key_private k = None \<Longrightarrow>
   \<forall>(b, k) \<in> set (fold (load_identity lib) ts ks). key_private k = None"
proof (induction ts arbitrary: ks)
  case (Cons t ts)
  obtain pem name cid where t: "t = (pem, name, cid)" by (cases t)
  have "\<forall>(b, k) \<in> set (load_identity lib t ks). key_private k = None"
    using load_identity_cases [of lib pem name cid ks] Cons.prems set_am_insert_subset t by fastforce
  then show ?case using Cons.IH by simp
qed simp

lemma signable_set_keys:
  assumes "is_running a"
  shows "signable (snd (set_keys lib ts a)) = listed (snd (set_keys lib ts a))"
proof -
  have "\<forall>(b, k) \<in> set (fold (load_key lib) ts []). key_private k \<noteq> None"
    by (rule all_private_load_keys) simp
  then show ?thesis
    using assms
    by (fastforce simp: set_keys_def signable_def listed_get dest: map_of_SomeD)
qed

lemma signable_set_public_identities:
  assumes "is_running a"
  shows "signable (snd (set_public_identities lib ts a)) = {}"
proof -
  have "\<forall>(b, k) \<in> set (fold (load_identity lib) ts []). key_private k = None"
    by (rule no_private_load_identities) simp
  then show ?thesis
    using assms by (auto simp: set_public_identities_def signable_def dest!: map_of_SomeD)
qed

text \<open>Which entry of a key list ends up in the store: the last one that parses to that public key.\<close>

definition key_entry :: "ssh_lib \<Rightarrow> key_tuple \<Rightarrow> (bytes \<times> SshWardenKey) option" where
  "key_entry lib t =
     (case t of (pem, name, cid) \<Rightarrow>
        Option.bind (res_ok (parse_key_safe lib pem)) (\<lambda>p.
        map_option (\<lambda>b. (b, \<lparr>key_private = Some p, key_public_bytes = b, key_name = name,
                             key_cipher_uuid = cid\<rparr>))
          (res_ok (public_to_bytes lib p))))"

lemma load_key_entry:
  "load_key lib t ks = (case key_entry lib t of None \<Rightarrow> ks | Some (b, k) \<Rightarrow> am_insert b k ks)"
  by (auto simp: load_key_def key_entry_def split: sum.splits prod.splits)

lemma fold_load_key:
  "fold (load_key lib) ts ks = fold (\<lambda>(b, k). am_insert b k) (List.map_filter (key_entry lib) ts) ks"
  by (induction ts arbitrary: ks)
    (auto simp: load_key_entry map_filter_simps split: option.splits)

lemma get_set_keys:
  assumes "is_running a"
  shows "am_get (keystore (snd (set_keys lib ts a))) b
       = map_of (rev (List.map_filter (key_entry lib) ts)) b"
  using assms am.get_of_pairs [of "List.map_filter (key_entry lib) ts" b]
  by (simp add: set_keys_def fold_load_key am_of_pairs_def)

lemma running_ops [frame]:
  "is_running (snd (set_keys lib ts a)) = is_running a"
  "is_running (snd (set_public_identities lib ts a)) = is_running a"
  "is_running (snd (agent_lock a)) = is_running a"
  "is_running (clear_keys a) = is_running a"
  "is_running (clear_needs_unlock a) = is_running a"
  by (simp_all add: set_keys_def set_public_identities_def agent_lock_def clear_keys_def
      clear_needs_unlock_def)

lemma ok_ops [simp]:
  "fst (set_keys lib ts a) = Inr () \<longleftrightarrow> is_running a"
  "fst (set_public_identities lib ts a) = Inr () \<longleftrightarrow> is_running a"
  "fst (agent_lock a) = Inr () \<longleftrightarrow> is_running a"
  by (simp_all add: set_keys_def set_public_identities_def agent_lock_def)

lemma signable_clear [simp]: "signable (clear_keys a) = {}" "listed (clear_keys a) = {}"
  by (simp_all add: clear_keys_def signable_def listed_def)

section \<open>The agent as the daemon sees it\<close>

text \<open>
  The contract the daemon relies on: which public keys the agent lists and which of them it can
  sign with after each operation. The operations that only prepare or lock the store never make a
  key signable; loading private keys is the only way.
\<close>

datatype 't agent_op = Load "'t list" | Identities "'t list" | Lock | Clear

locale key_agent =
  fixes load :: "'t list \<Rightarrow> 'a \<Rightarrow> unit result \<times> 'a"
    and idents :: "'t list \<Rightarrow> 'a \<Rightarrow> unit result \<times> 'a"
    and lock :: "'a \<Rightarrow> unit result \<times> 'a"
    and clear :: "'a \<Rightarrow> 'a"
    and lists :: "'a \<Rightarrow> 'b set"
    and signs :: "'a \<Rightarrow> 'b set"
    and runs :: "'a \<Rightarrow> bool"
  assumes signs_lists: "signs a \<subseteq> lists a"
    and load_signs: "runs a \<Longrightarrow> signs (snd (load ts a)) = lists (snd (load ts a))"
    and idents_signs: "runs a \<Longrightarrow> signs (snd (idents ts a)) = {}"
    and lock_signs: "runs a \<Longrightarrow> signs (snd (lock a)) = {}"
    and lock_lists: "lists (snd (lock a)) = lists a"
    and clear_lists: "lists (clear a) = {}"
    and runs_kept: "runs (snd (load ts a)) = runs a" "runs (snd (idents ts a)) = runs a"
      "runs (snd (lock a)) = runs a" "runs (clear a) = runs a"
    and stopped: "\<not> runs a \<Longrightarrow> snd (load ts a) = a" "\<not> runs a \<Longrightarrow> snd (idents ts a) = a"
      "\<not> runs a \<Longrightarrow> snd (lock a) = a"
begin

primrec op :: "'t agent_op \<Rightarrow> 'a \<Rightarrow> 'a" where
  "op (Load ts) a = snd (load ts a)"
| "op (Identities ts) a = snd (idents ts a)"
| "op Lock a = snd (lock a)"
| "op Clear a = clear a"

lemma clear_signs: "signs (clear a) = {}"
  using signs_lists [of "clear a"] clear_lists by auto

lemma op_runs: "runs (op x a) = runs a"
  by (cases x) (simp_all add: runs_kept)

lemma op_silent: "signs a = {} \<Longrightarrow> (\<And>ts. x \<noteq> Load ts) \<Longrightarrow> signs (op x a) = {}"
  by (cases "runs a"; cases x)
    (auto simp: idents_signs lock_signs clear_signs stopped)

lemma ops_silent:
  "signs a = {} \<Longrightarrow> \<forall>x \<in> set xs. \<forall>ts. x \<noteq> Load ts \<Longrightarrow> signs (fold op xs a) = {}"
  by (induction xs arbitrary: a) (auto simp: op_silent)

lemma lock_then_silent:
  assumes "runs a" and "\<forall>x \<in> set xs. \<forall>ts. x \<noteq> Load ts"
  shows "signs (fold op xs (snd (lock a))) = {}"
  using assms by (intro ops_silent lock_signs)

end

interpretation ka: key_agent "set_keys lib" "set_public_identities lib" agent_lock clear_keys
    listed signable is_running for lib
  by unfold_locales
    (simp_all add: signable_subset_listed signable_set_keys signable_set_public_identities
      signable_lock listed_lock running_ops,
     simp_all add: set_keys_def set_public_identities_def agent_lock_def)

primrec agent_op_step :: "ssh_lib \<Rightarrow> key_tuple agent_op \<Rightarrow> SshWardenAgent \<Rightarrow> SshWardenAgent" where
  "agent_op_step lib (Load ts) a = snd (set_keys lib ts a)"
| "agent_op_step lib (Identities ts) a = snd (set_public_identities lib ts a)"
| "agent_op_step lib Lock a = snd (agent_lock a)"
| "agent_op_step lib Clear a = clear_keys a"

lemma agent_op_step_eq: "ka.op lib = agent_op_step lib"
  by (intro ext, rename_tac x a, case_tac x) simp_all

section \<open>Properties\<close>

text \<open>
  Locking a running agent keeps every listed public key listed and every count of listed
  keys, but leaves nothing it could sign with.
\<close>

theorem lock_keeps_keys_listable_but_not_signable:
  assumes "is_running a"
  shows "fst (agent_lock a) = Inr () \<and> listed (snd (agent_lock a)) = listed a
    \<and> key_count (snd (agent_lock a)) = key_count a
    \<and> signable_key_count (snd (agent_lock a)) = 0 \<and> signable (snd (agent_lock a)) = {}"
proof (intro conjI)
  show "signable_key_count (snd (agent_lock a)) = 0"
    using assms by (auto simp: agent_lock_def signable_key_count_def am_map_def filter_empty_conv)
qed (use assms in \<open>simp_all add: listed_lock signable_lock\<close>,
     simp add: agent_lock_def key_count_def)

definition demo_lib :: ssh_lib where
  "demo_lib =
     \<lparr>private_from_openssh = (\<lambda>pem. if pem = [] then Inl ''empty'' else Inr (as_bytes pem)),
      public_to_bytes = (\<lambda>k. Inr (take 1 k)),
      public_to_openssh = (\<lambda>k. Inr (of_bytes (take 1 k))),
      public_from_openssh_bytes = (\<lambda>s. if s = [] then Inl ''empty'' else Inr (as_bytes s))\<rparr>"

definition demo_agent :: SshWardenAgent where
  "demo_agent = set_running True agent_new"

lemmas demo_defs = demo_lib_def demo_agent_def agent_new_def set_running_def

theorem lock_keeps_keys_listable_but_not_signable_witness:
  "key_count (snd (agent_lock (snd (set_keys demo_lib [(''ab'', ''k'', ''id'')] demo_agent)))) = 1
   \<and> signable_key_count (snd (agent_lock (snd (set_keys demo_lib [(''ab'', ''k'', ''id'')] demo_agent)))) = 0"
proof -
  have r: "is_running (snd (set_keys demo_lib [(''ab'', ''k'', ''id'')] demo_agent))"
    by (simp add: running_ops demo_defs)
  show ?thesis
    using lock_keeps_keys_listable_but_not_signable [OF r]
    by (simp add: demo_defs set_keys_def load_key_def parse_key_safe_def key_count_def)
qed

text \<open>
  After a lock, no sequence of identity reloads, further locks and clears makes the agent able
  to sign: only loading private keys does.
\<close>

theorem locked_agent_stays_silent:
  assumes "is_running a" and "\<forall>x \<in> set xs. \<forall>ts. x \<noteq> Load ts"
  shows "signable (fold (agent_op_step lib) xs (snd (agent_lock a))) = {}"
  using ka.lock_then_silent [OF assms, of lib] by (simp add: agent_op_step_eq)

theorem locked_agent_stays_silent_witness:
  "signable (fold (agent_op_step demo_lib) [Identities [(''p'', ''k'', ''id'')], Lock]
     (snd (agent_lock demo_agent))) = {}"
  by (rule locked_agent_stays_silent) (simp_all add: demo_defs)

text \<open>
  C17: \<open>set_keys\<close> on a running agent replaces the store by the last parsable entry for
  each public key, every listed key can sign, entries whose PEM does not parse are skipped, and the
  call reports success.
\<close>

theorem set_keys_loads_exactly:
  assumes "is_running a"
  shows "fst (set_keys lib ts a) = Inr ()
    \<and> am_get (keystore (snd (set_keys lib ts a))) = map_of (rev (List.map_filter (key_entry lib) ts))
    \<and> signable (snd (set_keys lib ts a)) = fst ` set (List.map_filter (key_entry lib) ts)
    \<and> listed (snd (set_keys lib ts a)) = fst ` set (List.map_filter (key_entry lib) ts)"
proof -
  let ?a = "snd (set_keys lib ts a)" and ?es = "List.map_filter (key_entry lib) ts"
  have g: "am_get (keystore ?a) = map_of (rev ?es)"
    by (rule ext) (rule get_set_keys [OF assms])
  then have l: "listed ?a = fst ` set ?es"
    by (simp add: set_eq_iff listed_get map_of_eq_None_iff)
  show ?thesis
    using assms g l by (simp add: signable_set_keys)
qed

theorem set_keys_loads_exactly_witness:
  "am_get (keystore (snd (set_keys demo_lib [(''ab'', ''old'', ''1''), ([], ''bad'', ''2''),
      (''ac'', ''new'', ''3'')] demo_agent))) (as_bytes ''a'')
   = Some \<lparr>key_private = Some (as_bytes ''ac''), key_public_bytes = as_bytes ''a'',
           key_name = ''new'', key_cipher_uuid = ''3''\<rparr>"
proof -
  have r: "is_running demo_agent" by (simp add: demo_defs)
  show ?thesis
    using set_keys_loads_exactly [OF r, of demo_lib
        "[(''ab'', ''old'', ''1''), ([], ''bad'', ''2''), (''ac'', ''new'', ''3'')]"]
    by (simp add: demo_lib_def key_entry_def parse_key_safe_def map_filter_simps as_bytes_def)
qed

text \<open>
  C14: every operation keeps the store well formed: each entry is filed under its own public key,
  a private key in it belongs to that public key, and no public key has two entries; and then the
  reported counts are the numbers of listed and of signable keys.
\<close>

theorem keystore_ok_preserved:
  assumes "keystore_ok lib a"
  shows "keystore_ok lib (agent_op_step lib x a) \<and> keystore_ok lib (agent_stop a)
    \<and> key_count a = card (listed a) \<and> signable_key_count a = card (signable a)"
proof -
  have "keystore_ok lib (agent_op_step lib x a)"
    using assms
    by (cases x)
      (simp_all add: keystore_ok_set_keys keystore_ok_set_public_identities keystore_ok_lock)
  then show ?thesis
    using assms by (simp add: keystore_ok_stop key_count_card signable_key_count_card)
qed

theorem keystore_ok_preserved_witness:
  "keystore_ok demo_lib (agent_op_step demo_lib (Load [(''ab'', ''k'', ''1'')]) demo_agent)
   \<and> key_count demo_agent = card (listed demo_agent)"
proof -
  have k: "keystore_ok demo_lib demo_agent" by (simp add: keystore_ok_def demo_defs)
  show ?thesis
    using keystore_ok_preserved [OF k, of "Load [(''ab'', ''k'', ''1'')]"] by blast
qed

lemma await_response_find:
  "await_response rid rs \<longleftrightarrow> find (\<lambda>(i, _). i = rid) rs = Some (rid, True)"
  by (induction rid rs rule: await_response.induct) auto

text \<open>
  C10: a signature is confirmed exactly if the agent runs, the data parses, the UI channel is open
  and the first answer carrying the request's id is an approval: answers to other requests, a
  closed channel and malformed data all deny.
\<close>

theorem confirm_fails_closed:
  "fst (confirm key data info ui_open responses a) \<longleftrightarrow>
     is_running a \<and> is_ok (parse_request data) \<and> ui_open \<and>
     find (\<lambda>(i, _). i = request_id a) responses = Some (request_id a, True)"
  by (auto simp: confirm_def confirm_request_def get_request_id_def Let_def
      await_response_find split: sum.splits)

end
