(* ===== verification/Key_Cache.thy ===== *)
theory Key_Cache
  imports Stores Agent
begin

text \<open>
  \<open>src/cache.rs\<close>: the envelope of the local key cache (the key tuples encrypted under a random
  cache key, that key encrypted under the PIN and, where the platform offers it, under the native
  key store), the device's own unlock slots, the migration of caches with the fixed salt, key
  fingerprints and the authorization memory they guard.

  The build modelled is the one without Windows Hello. JSON (serde), the native key store and the
  operating system are functions of the parameter \<open>host\<close>; randomness is the parameter
  \<open>entropy\<close>, the draws one operation makes.
\<close>

record host =
  h_os :: os
  h_crypto :: crypto_lib
  h_ssh :: ssh_lib
  keys_to_json :: "key_tuple list \<Rightarrow> string result"
  keys_from_json :: "string \<Rightarrow> key_tuple list result"
  multi_device_enabled :: "bool result"
  native_available :: bool
  native_encrypt :: "string \<Rightarrow> string result"
  native_decrypt :: "string \<Rightarrow> string result"

record entropy =
  rnd_key_iv :: bytes  \<comment> \<open>initialisation vector of the PIN slot\<close>
  rnd_payload_iv :: bytes
  rnd_token_iv :: bytes
  rnd_salt :: bytes
  rnd_enc :: bytes
  rnd_mac :: bytes

section \<open>Building the envelope\<close>

definition public_key_openssh_from_pem :: "host \<Rightarrow> string \<Rightarrow> string result" where
  "public_key_openssh_from_pem H pem =
     bind_res (map_err (\<lambda>e. ''Failed to parse private key for public identity: '' @ e)
                 (private_from_openssh (h_ssh H) pem)) (\<lambda>private_key.
       map_err (\<lambda>e. ''Failed to encode public key: '' @ e) (public_to_openssh (h_ssh H) private_key))"

definition key_identities_from_tuples :: "host \<Rightarrow> key_tuple list \<Rightarrow> KeyIdentity list" where
  "key_identities_from_tuples H keys =
     map (\<lambda>(pem, name, vault_item_id).
       \<lparr>ki_name = name, ki_vault_item_id = vault_item_id,
        ki_public_key_openssh = unwrap_or [] (res_ok (public_key_openssh_from_pem H pem))\<rparr>) keys"

definition multi_device_mode :: "host \<Rightarrow> bool" where
  "multi_device_mode H = unwrap_or False (res_ok (multi_device_enabled H))"

definition build_envelope_local_key_cache ::
  "host \<Rightarrow> entropy \<Rightarrow> key_tuple list \<Rightarrow> string \<Rightarrow> string \<Rightarrow> SymmetricKey \<Rightarrow> string option \<Rightarrow>
     string option \<Rightarrow> string option \<Rightarrow> string option \<Rightarrow> string option \<Rightarrow> LocalKeyCacheFile result" where
  "build_envelope_local_key_cache H rnd keys email server_url key pin_enc pin_slt hello_ch hello_enc native_enc =
     bind_res (context_msg ''Failed to serialize cache payload'' (keys_to_json H keys)) (\<lambda>keys_json.
     bind_res (encrypt_enc_string (h_crypto H) (rnd_payload_iv rnd) (as_bytes keys_json) key) (\<lambda>payload.
       Inr \<lparr>cache_version = 3,
            cache_header = \<lparr>hdr_email = email, hdr_server_url = server_url,
                            hdr_keys = key_identities_from_tuples H keys\<rparr>,
            encrypted_payload = payload,
            local_cache_key = \<lparr>pin_encrypted = pin_enc, pin_salt = pin_slt, hello_challenge = hello_ch,
                               hello_encrypted = hello_enc, native_encrypted = native_enc\<rparr>\<rparr>))"

definition encrypt_local_cache_key_with_pin ::
  "host \<Rightarrow> entropy \<Rightarrow> SymmetricKey \<Rightarrow> string \<Rightarrow> (string \<times> string) result" where
  "encrypt_local_cache_key_with_pin H rnd key pin =
     (let encoded = encode_symmetric_key (h_crypto H) key; salt = rnd_salt rnd
      in bind_res (pin_encrypt_with_salt (h_crypto H) (rnd_key_iv rnd) encoded pin salt) (\<lambda>enc.
           Inr (enc, b64_encode (h_crypto H) salt)))"

section \<open>The device's own slots\<close>

definition load_device_unlock_slots :: "host \<Rightarrow> disk \<Rightarrow> UnlockSlotsFile option" where
  "load_device_unlock_slots H d = unwrap_or None (res_ok (load_slots (h_os H) d))"

definition current_native_unlock_slot :: "host \<Rightarrow> LocalKeyCacheFile \<Rightarrow> disk \<Rightarrow> string option" where
  "current_native_unlock_slot H cache d =
     (let device_slot = Option.bind (load_device_unlock_slots H d) slot_native_encrypted
      in if multi_device_mode H then device_slot
         else option_or device_slot (native_encrypted (local_cache_key cache)))"

definition native_encrypt_device_slot :: "host \<Rightarrow> SymmetricKey \<Rightarrow> disk \<Rightarrow> unit result \<times> disk" where
  "native_encrypt_device_slot H key d =
     (case native_encrypt H (encode_symmetric_key (h_crypto H) key) of
        Inl e \<Rightarrow> (Inl e, d)
      | Inr native_slot \<Rightarrow>
          (let slots = unwrap_or slots_default (load_device_unlock_slots H d)
           in save_slots (h_os H) (slots\<lparr>slot_native_encrypted := Some native_slot\<rparr>) d))"

definition persist_device_unlock_slots_from_cache :: "host \<Rightarrow> LocalKeyCacheFile \<Rightarrow> disk \<Rightarrow> unit result \<times> disk" where
  "persist_device_unlock_slots_from_cache H cache d =
     (if \<not> multi_device_mode H then (Inr (), d)
      else let slots = unwrap_or slots_default (load_device_unlock_slots H d);
               ck = local_cache_key cache;
               n = slot_native_encrypted slots = None \<and> native_encrypted ck \<noteq> None;
               c = slot_hello_challenge slots = None \<and> hello_challenge ck \<noteq> None;
               e = slot_hello_encrypted slots = None \<and> hello_encrypted ck \<noteq> None;
               slots1 = (if n then slots\<lparr>slot_native_encrypted := native_encrypted ck\<rparr> else slots);
               slots2 = (if c then slots1\<lparr>slot_hello_challenge := hello_challenge ck\<rparr> else slots1);
               slots3 = (if e then slots2\<lparr>slot_hello_encrypted := hello_encrypted ck\<rparr> else slots2)
           in if n \<or> c \<or> e then save_slots (h_os H) slots3 d else (Inr (), d))"

definition enroll_device_platform_slots_if_missing :: "host \<Rightarrow> SymmetricKey \<Rightarrow> disk \<Rightarrow> disk" where
  "enroll_device_platform_slots_if_missing H key d =
     (if \<not> multi_device_mode H then d
      else let slots = unwrap_or slots_default (load_device_unlock_slots H d)
           in if slot_native_encrypted slots = None \<and> native_available H
              then snd (native_encrypt_device_slot H key d)
              else d)"

definition enroll_native_for_local_key_cache ::
  "host \<Rightarrow> LocalKeyCacheFile \<Rightarrow> SymmetricKey \<Rightarrow> disk \<Rightarrow> unit result \<times> LocalKeyCacheFile \<times> disk" where
  "enroll_native_for_local_key_cache H cache key d =
     (let put = (\<lambda>v. cache\<lparr>local_cache_key := (local_cache_key cache)\<lparr>native_encrypted := v\<rparr>\<rparr>)
      in if \<not> native_available H then (Inl ''native unlock is not available'', cache, d)
         else if multi_device_mode H then
           (case native_encrypt_device_slot H key d of
              (Inl e, d') \<Rightarrow> (Inl e, cache, d')
            | (Inr _, d') \<Rightarrow> (Inr (), put None, d'))
         else
           (case native_encrypt H (encode_symmetric_key (h_crypto H) key) of
              Inl e \<Rightarrow> (Inl e, cache, d)
            | Inr native_slot \<Rightarrow> (Inr (), put (Some native_slot), d)))"

section \<open>Writing the cache\<close>

definition write_envelope_local_key_cache_with_key ::
  "host \<Rightarrow> entropy \<Rightarrow> key_tuple list \<Rightarrow> string \<Rightarrow> string \<Rightarrow> string \<Rightarrow> SymmetricKey \<Rightarrow> disk \<Rightarrow>
     (LocalKeyCacheFile \<times> SymmetricKey) result \<times> disk" where
  "write_envelope_local_key_cache_with_key H rnd keys email server_url pin key d =
     (case encrypt_local_cache_key_with_pin H rnd key pin of
        Inl e \<Rightarrow> (Inl e, d)
      | Inr (pin_enc, pin_slt) \<Rightarrow>
          (case build_envelope_local_key_cache H rnd keys email server_url key
                  (Some pin_enc) (Some pin_slt) None None None of
             Inl e \<Rightarrow> (Inl e, d)
           | Inr cache \<Rightarrow>
               (case enroll_native_for_local_key_cache H cache key d of
                  (_, cache', d') \<Rightarrow>
                    (case save_cache (h_os H) cache' d' of
                       (Inl e, d'') \<Rightarrow> (Inl e, d'')
                     | (Inr _, d'') \<Rightarrow> (Inr (cache', key), d'')))))"

definition write_envelope_local_key_cache ::
  "host \<Rightarrow> entropy \<Rightarrow> key_tuple list \<Rightarrow> string \<Rightarrow> string \<Rightarrow> string \<Rightarrow> disk \<Rightarrow>
     (LocalKeyCacheFile \<times> SymmetricKey) result \<times> disk" where
  "write_envelope_local_key_cache H rnd keys email server_url pin d =
     write_envelope_local_key_cache_with_key H rnd keys email server_url pin
       (random_symmetric_key (rnd_enc rnd) (rnd_mac rnd)) d"

definition refresh_envelope_local_key_cache ::
  "host \<Rightarrow> entropy \<Rightarrow> key_tuple list \<Rightarrow> LocalKeyCacheFile \<Rightarrow> SymmetricKey \<Rightarrow> disk \<Rightarrow>
     LocalKeyCacheFile result \<times> disk" where
  "refresh_envelope_local_key_cache H rnd keys existing key d =
     (let keep = \<not> multi_device_mode H;
          slots = local_cache_key existing;
          kept = (\<lambda>v. if keep then v else None)
      in case build_envelope_local_key_cache H rnd keys (hdr_email (cache_header existing))
                (hdr_server_url (cache_header existing)) key (pin_encrypted slots) (pin_salt slots)
                (kept (hello_challenge slots)) (kept (hello_encrypted slots)) (kept (native_encrypted slots)) of
           Inl e \<Rightarrow> (Inl e, d)
         | Inr cache \<Rightarrow>
             (case save_cache (h_os H) cache d of
                (Inl e, d') \<Rightarrow> (Inl e, d')
              | (Inr _, d') \<Rightarrow> (Inr cache, d')))"

definition reload_shared_local_cache_from_disk_if_multi_device ::
  "host \<Rightarrow> LocalKeyCacheFile option \<Rightarrow> disk \<Rightarrow> LocalKeyCacheFile option \<times> disk" where
  "reload_shared_local_cache_from_disk_if_multi_device H cached d =
     (if \<not> multi_device_mode H then (cached, d)
      else case load_cache (h_os H) d of
             Inr (Some cache) \<Rightarrow> (Some cache, snd (persist_device_unlock_slots_from_cache H cache d))
           | Inr None \<Rightarrow> (cached, d)
           | Inl _ \<Rightarrow> (cached, d))"

section \<open>Opening the cache\<close>

definition decrypt_envelope_payload ::
  "host \<Rightarrow> LocalKeyCacheFile \<Rightarrow> SymmetricKey \<Rightarrow> (string \<times> SymmetricKey) result" where
  "decrypt_envelope_payload H cache key =
     bind_res (context_msg ''Failed to decrypt local key cache payload''
                 (decrypt_enc_string (h_crypto H) (encrypted_payload cache) key)) (\<lambda>payload.
     bind_res (ok_or ''Local key cache payload is not valid UTF-8'' (from_utf8 payload)) (\<lambda>keys_json.
       Inr (keys_json, key)))"

definition decrypt_envelope_local_key_cache_with_native ::
  "host \<Rightarrow> LocalKeyCacheFile \<Rightarrow> disk \<Rightarrow> (string \<times> SymmetricKey) result" where
  "decrypt_envelope_local_key_cache_with_native H cache d =
     bind_res (ok_or ''Local key cache has no native unlock slot'' (current_native_unlock_slot H cache d)) (\<lambda>slot.
     bind_res (context_msg ''Failed to unlock Local Cache Key with native unlock'' (native_decrypt H slot)) (\<lambda>encoded.
     bind_res (context_msg ''Failed to decode Local Cache Key'' (decode_symmetric_key (h_crypto H) encoded)) (\<lambda>key.
       decrypt_envelope_payload H cache key)))"

definition decrypt_envelope_local_key_cache_with_pin ::
  "host \<Rightarrow> LocalKeyCacheFile \<Rightarrow> string \<Rightarrow> (string \<times> SymmetricKey) result" where
  "decrypt_envelope_local_key_cache_with_pin H cache pin =
     bind_res (ok_or ''Local key cache has no PIN unlock slot'' (pin_encrypted (local_cache_key cache))) (\<lambda>enc.
     bind_res (case pin_salt (local_cache_key cache) of
                 Some salt_b64 \<Rightarrow>
                   bind_res (context_msg ''Invalid PIN salt in local key cache'' (b64_decode (h_crypto H) salt_b64)) (\<lambda>salt.
                     context_msg ''Failed to unlock Local Cache Key with PIN''
                       (pin_decrypt_with_salt (h_crypto H) enc pin salt))
               | None \<Rightarrow>
                   context_msg ''Failed to unlock Local Cache Key with PIN''
                     (pin_decrypt_with_salt (h_crypto H) enc pin (legacy_pin_salt (h_crypto H)))) (\<lambda>encoded.
     bind_res (context_msg ''Failed to decode Local Cache Key'' (decode_symmetric_key (h_crypto H) encoded)) (\<lambda>key.
       decrypt_envelope_payload H cache key)))"

section \<open>Migrating the fixed salt\<close>

definition needs_pin_salt_migration :: "LocalKeyCacheFile \<Rightarrow> bool" where
  "needs_pin_salt_migration cache \<longleftrightarrow>
     pin_encrypted (local_cache_key cache) \<noteq> None \<and>
     (cache_version cache < 3 \<or> pin_salt (local_cache_key cache) = None)"

definition migrate_pin_salt_to_v3 ::
  "host \<Rightarrow> entropy \<Rightarrow> LocalKeyCacheFile \<Rightarrow> SymmetricKey \<Rightarrow> string \<Rightarrow> disk \<Rightarrow> LocalKeyCacheFile result \<times> disk" where
  "migrate_pin_salt_to_v3 H rnd cache key pin d =
     (case encrypt_local_cache_key_with_pin H rnd key pin of
        Inl e \<Rightarrow> (Inl e, d)
      | Inr (pin_enc, pin_slt) \<Rightarrow>
          (let migrated = cache\<lparr>cache_version := 3,
                 local_cache_key := (local_cache_key cache)\<lparr>pin_encrypted := Some pin_enc,
                                                            pin_salt := Some pin_slt\<rparr>\<rparr>
           in case save_cache (h_os H) migrated d of
                (Inl e, d') \<Rightarrow> (Inl e, d')
              | (Inr _, d') \<Rightarrow> (Inr migrated, d')))"

section \<open>Fingerprints and authorization memory\<close>

fun hex_digit :: "nat \<Rightarrow> char" where
  "hex_digit n = (if n < 10 then char_of (48 + n) else char_of (87 + n))"

definition hex :: "bytes \<Rightarrow> string" where
  "hex bs = concat (map (\<lambda>b. [hex_digit (unat b div 16), hex_digit (unat b mod 16)]) bs)"

definition key_material_fingerprints_from_tuples :: "host \<Rightarrow> key_tuple list \<Rightarrow> (string, string) amap" where
  "key_material_fingerprints_from_tuples H keys =
     am_of_pairs (map (\<lambda>(pem, _, vault_item_id). (vault_item_id, hex (sha256 (h_crypto H) (as_bytes pem)))) keys)"

type_synonym auth_memory = "(string \<times> string, unit) amap"

definition changed_or_removed :: "(string, string) amap \<Rightarrow> (string, string) amap \<Rightarrow> string list" where
  "changed_or_removed old new =
     map fst (filter (\<lambda>(i, fp). am_get new i \<noteq> Some fp) old)
     @ filter (\<lambda>i. am_get old i = None) (map fst new)"

definition clear_authorization_memory_for_changed_keys ::
  "host \<Rightarrow> (string, string) amap \<Rightarrow> key_tuple list \<Rightarrow> auth_memory \<Rightarrow>
     nat \<times> (string, string) amap \<times> auth_memory" where
  "clear_authorization_memory_for_changed_keys H old new_keys memory =
     (let new = key_material_fingerprints_from_tuples H new_keys;
          gone = changed_or_removed old new
      in if gone = [] then (0, new, memory)
         else let memory' = am_retain (\<lambda>(i, _) _. i \<notin> set gone) memory
              in (length memory - length memory', new, memory'))"

definition key_tuples_from_cache_header :: "LocalKeyCacheFile \<Rightarrow> key_tuple list" where
  "key_tuples_from_cache_header cache =
     map (\<lambda>k. (ki_public_key_openssh k, ki_name k, ki_vault_item_id k)) (hdr_keys (cache_header cache))"


section \<open>What the host promises\<close>

definition json_ok :: "host \<Rightarrow> bool" where
  "json_ok H \<longleftrightarrow> (\<forall>ks j. keys_to_json H ks = Inr j \<longrightarrow> keys_from_json H j = Inr ks \<and> utf8_valid (as_bytes j))"

definition host_ok :: "host \<Rightarrow> bool" where
  "host_ok H \<longleftrightarrow> suite_ok (h_crypto H) \<and> json_ok H"

definition rnd_ok :: "entropy \<Rightarrow> bool" where
  "rnd_ok rnd \<longleftrightarrow> length (rnd_key_iv rnd) = 16 \<and> length (rnd_payload_iv rnd) = 16 \<and>
     length (rnd_token_iv rnd) = 16 \<and> length (rnd_salt rnd) = 16 \<and>
     length (rnd_enc rnd) = 32 \<and> length (rnd_mac rnd) = 32"

definition opens_to :: "host \<Rightarrow> LocalKeyCacheFile \<Rightarrow> string \<Rightarrow> SymmetricKey \<Rightarrow> key_tuple list \<Rightarrow> bool" where
  "opens_to H cache pin key keys \<longleftrightarrow>
     (\<exists>json. decrypt_envelope_local_key_cache_with_pin H cache pin = Inr (json, key) \<and>
             keys_from_json H json = Inr keys)"

section \<open>Lemmas\<close>

lemma random_key_ok: "rnd_ok rnd \<Longrightarrow> key_ok (random_symmetric_key (rnd_enc rnd) (rnd_mac rnd))"
  by (simp add: rnd_ok_def random_symmetric_key_def key_ok_def)

lemma payload_of_slots:
  "decrypt_envelope_payload H (c\<lparr>local_cache_key := s\<rparr>) key = decrypt_envelope_payload H c key"
  "decrypt_envelope_payload H (c\<lparr>cache_version := v\<rparr>) key = decrypt_envelope_payload H c key"
  by (simp_all add: decrypt_envelope_payload_def)

lemma decode_encode_key:
  "suite_ok L \<Longrightarrow> key_ok k \<Longrightarrow> decode_symmetric_key L (encode_symmetric_key L k) = Inr k"
  by (simp add: decode_symmetric_key_def encode_symmetric_key_def suite_okD key_ok_def)

lemma build_opens:
  assumes "build_envelope_local_key_cache H rnd keys em url key a b c e f = Inr cache"
    and "host_ok H" and "key_ok key" and "rnd_ok rnd"
  shows "\<exists>json. decrypt_envelope_payload H cache key = Inr (json, key) \<and> keys_from_json H json = Inr keys"
proof -
  obtain json payload where j: "keys_to_json H keys = Inr json"
    and p: "encrypt_enc_string (h_crypto H) (rnd_payload_iv rnd) (as_bytes json) key = Inr payload"
    and c: "encrypted_payload cache = payload"
    using assms(1) by (auto simp: build_envelope_local_key_cache_def bind_res_Inr_iff)
  have iv: "length (rnd_payload_iv rnd) = 16" using assms(4) by (simp add: rnd_ok_def)
  have "decrypt_enc_string (h_crypto H) payload key = Inr (as_bytes json)"
    using assms(2,3) iv p by (auto simp: host_ok_def intro: decrypt_encrypt)
  moreover have "keys_from_json H json = Inr keys" "utf8_valid (as_bytes json)"
    using assms(2) j by (auto simp: host_ok_def json_ok_def)
  ultimately show ?thesis
    by (simp add: decrypt_envelope_payload_def c from_utf8_as_bytes)
qed

lemma build_fields:
  "build_envelope_local_key_cache H rnd keys em url key a b c e f = Inr cache \<Longrightarrow>
   cache_version cache = 3 \<and> cache_header cache = \<lparr>hdr_email = em, hdr_server_url = url,
     hdr_keys = key_identities_from_tuples H keys\<rparr> \<and>
   local_cache_key cache = \<lparr>pin_encrypted = a, pin_salt = b, hello_challenge = c, hello_encrypted = e,
     native_encrypted = f\<rparr>"
  by (auto simp: build_envelope_local_key_cache_def bind_res_Inr_iff)

text \<open>The PIN slot: whatever else the cache holds, the PIN opens it to the payload under the wrapped key.\<close>

lemma pin_slot_opens:
  assumes "encrypt_local_cache_key_with_pin H rnd key pin = Inr (enc, slt)"
    and "host_ok H" and "key_ok key" and "rnd_ok rnd"
    and "pin_encrypted (local_cache_key c) = Some enc" and "pin_salt (local_cache_key c) = Some slt"
  shows "decrypt_envelope_local_key_cache_with_pin H c pin = decrypt_envelope_payload H c key"
proof -
  let ?L = "h_crypto H" and ?e = "encode_symmetric_key (h_crypto H) key"
  have L: "suite_ok ?L" using assms(2) by (simp add: host_ok_def)
  have enc: "pin_encrypt_with_salt ?L (rnd_key_iv rnd) ?e pin (rnd_salt rnd) = Inr enc"
    and slt: "slt = b64_encode ?L (rnd_salt rnd)"
    using assms(1) by (auto simp: encrypt_local_cache_key_with_pin_def bind_res_Inr_iff Let_def)
  have "pin_usable ?L (pin, rnd_salt rnd)"
    using enc by (auto simp: pin_usable_def is_ok_iff pin_encrypt_with_salt_def bind_res_Inr_iff)
  moreover have "utf8_valid (as_bytes ?e)" by (simp add: encode_symmetric_key_def suite_okD [OF L])
  moreover have "length (rnd_key_iv rnd) = 16" using assms(4) by (simp add: rnd_ok_def)
  ultimately have "pin_decrypt_with_salt ?L enc pin (rnd_salt rnd) = Inr ?e"
    using pin_env.unseal_seal [OF L, of "(pin, rnd_salt rnd)" "rnd_key_iv rnd" ?e enc] enc by simp
  then show ?thesis
    using assms(5,6)
    by (simp add: decrypt_envelope_local_key_cache_with_pin_def slt suite_okD(1) [OF L] decode_encode_key L assms(3))
qed

lemma legacy_slot_opens:
  assumes "pin_encrypt (h_crypto H) iv (encode_symmetric_key (h_crypto H) key) pin = Inr enc"
    and "host_ok H" and "key_ok key" and "length iv = 16"
    and "pin_encrypted (local_cache_key c) = Some enc" and "pin_salt (local_cache_key c) = None"
  shows "decrypt_envelope_local_key_cache_with_pin H c pin = decrypt_envelope_payload H c key"
proof -
  let ?L = "h_crypto H" and ?e = "encode_symmetric_key (h_crypto H) key"
  have L: "suite_ok ?L" using assms(2) by (simp add: host_ok_def)
  have "pin_usable ?L (pin, legacy_pin_salt ?L)"
    using assms(1) by (auto simp: pin_usable_def is_ok_iff pin_encrypt_def pin_encrypt_with_salt_def bind_res_Inr_iff)
  moreover have "utf8_valid (as_bytes ?e)" by (simp add: encode_symmetric_key_def suite_okD [OF L])
  ultimately have "pin_decrypt_with_salt ?L enc pin (legacy_pin_salt ?L) = Inr ?e"
    using pin_env.unseal_seal [OF L, of "(pin, legacy_pin_salt ?L)" iv ?e enc] assms(1,4) by (simp add: pin_encrypt_def)
  then show ?thesis
    using assms(5,6)
    by (simp add: decrypt_envelope_local_key_cache_with_pin_def decode_encode_key L assms(3))
qed

definition with_native :: "string option \<Rightarrow> LocalKeyCacheFile \<Rightarrow> LocalKeyCacheFile" where
  "with_native v c = c\<lparr>local_cache_key := (local_cache_key c)\<lparr>native_encrypted := v\<rparr>\<rparr>"

lemma with_native_same: "with_native (native_encrypted (local_cache_key c)) c = c"
  by (simp add: with_native_def)

lemma enroll_native_fields:
  assumes "enroll_native_for_local_key_cache H cache key d = (r, cache', d')"
  shows "\<exists>v. cache' = with_native v cache
    \<and> (multi_device_mode H \<longrightarrow> v = None \<or> v = native_encrypted (local_cache_key cache))"
proof -
  have "cache' = cache \<or> cache' = with_native None cache \<or>
      \<not> multi_device_mode H \<and> (\<exists>s. cache' = with_native (Some s) cache)"
    using assms unfolding enroll_native_for_local_key_cache_def Let_def
    by (auto simp: with_native_def split: if_splits prod.splits sum.splits)
  then show ?thesis using with_native_same by metis
qed

lemma write_with_key_spec:
  assumes "write_envelope_local_key_cache_with_key H rnd keys em url pin key d = (Inr (cache, key'), d')"
    and "host_ok H" and "key_ok key" and "rnd_ok rnd"
  shows "key' = key \<and> opens_to H cache pin key keys \<and> load_cache (h_os H) d' = Inr (Some cache) \<and>
    \<not> needs_pin_salt_migration cache \<and>
    (multi_device_mode H \<longrightarrow> native_encrypted (local_cache_key cache) = None \<and> hello_encrypted (local_cache_key cache) = None)"
proof -
  note w = assms(1) [unfolded write_envelope_local_key_cache_with_key_def]
  obtain enc slt where e: "encrypt_local_cache_key_with_pin H rnd key pin = Inr (enc, slt)"
    using w by (cases "encrypt_local_cache_key_with_pin H rnd key pin") auto
  obtain c0 where b: "build_envelope_local_key_cache H rnd keys em url key (Some enc) (Some slt) None None None = Inr c0"
    using w e
    by (cases "build_envelope_local_key_cache H rnd keys em url key (Some enc) (Some slt) None None None") auto
  obtain r c1 d1 where n: "enroll_native_for_local_key_cache H c0 key d = (r, c1, d1)"
    by (cases "enroll_native_for_local_key_cache H c0 key d") auto
  have s: "save_cache (h_os H) cache d1 = (Inr (), d')" and k: "key' = key" and c1: "c1 = cache"
    using w e b n by (auto split: prod.splits sum.splits)
  from enroll_native_fields [OF n] obtain v where c: "cache = with_native v c0"
    and v: "multi_device_mode H \<longrightarrow> v = None \<or> v = native_encrypted (local_cache_key c0)" using c1 by blast
  note f = build_fields [OF b]
  have "decrypt_envelope_local_key_cache_with_pin H cache pin = decrypt_envelope_payload H c0 key"
    using pin_slot_opens [OF e assms(2-4), of cache] f by (simp add: c with_native_def payload_of_slots)
  with build_opens [OF b assms(2-4)] have "opens_to H cache pin key keys" by (auto simp: opens_to_def)
  moreover have "load_cache (h_os H) d' = Inr (Some cache)"
    using s f by (intro cache_store.load_save) (auto simp: c with_native_def)
  ultimately show ?thesis using k f v by (auto simp: c with_native_def needs_pin_salt_migration_def)
qed

lemma opens_legacy_or_salted:
  "opens_to H cache pin key keys \<Longrightarrow> suite_ok (h_crypto H) \<Longrightarrow> key_ok key"
  by (auto simp: opens_to_def decrypt_envelope_local_key_cache_with_pin_def decrypt_envelope_payload_def
      bind_res_Inr_iff decode_symmetric_key_def key_ok_def split: if_splits)

lemma opens_payload:
  "decrypt_envelope_local_key_cache_with_pin H cache pin = Inr (json, key) \<Longrightarrow>
   decrypt_envelope_payload H cache key = Inr (json, key)"
  by (auto simp: decrypt_envelope_local_key_cache_with_pin_def decrypt_envelope_payload_def bind_res_Inr_iff)


lemma pin_wrap_total:
  assumes "host_ok H" and "rnd_ok rnd" and "is_ok (derive_pin_key_with_salt (h_crypto H) pin (rnd_salt rnd))"
  shows "\<exists>es. encrypt_local_cache_key_with_pin H rnd key pin = Inr es"
proof -
  have "\<exists>e. pin_encrypt_with_salt (h_crypto H) (rnd_key_iv rnd) x pin (rnd_salt rnd) = Inr e" for x
    using pin_env.seal_total [of "h_crypto H" "(pin, rnd_salt rnd)" "rnd_key_iv rnd"] assms
    by (simp add: host_ok_def rnd_ok_def pin_usable_def)
  then show ?thesis
    by (fastforce simp: encrypt_local_cache_key_with_pin_def bind_res_Inr_iff Let_def)
qed

definition io_works :: "os \<Rightarrow> bool" where
  "io_works os \<longleftrightarrow> (\<exists>p. cache_path os = Inr p \<and> mkdir_io os (parent_dir p) = Inr () \<and> write_io os p = Written)"

lemma save_cache_total: "io_works os \<Longrightarrow> \<exists>d'. save_cache os c d = (Inr (), d')"
  by (auto simp: io_works_def save_cache_def replaced_def)

lemma build_total:
  assumes "host_ok H" and "key_ok key" and "rnd_ok rnd" and "is_ok (keys_to_json H keys)"
  shows "\<exists>c. build_envelope_local_key_cache H rnd keys em url key a b x e f = Inr c"
proof -
  have "\<exists>p. encrypt_enc_string (h_crypto H) (rnd_payload_iv rnd) t key = Inr p" for t
    using assms by (intro encrypt_ok) (auto simp: host_ok_def rnd_ok_def)
  then show ?thesis
    using assms(4) by (fastforce simp: build_envelope_local_key_cache_def bind_res_Inr_iff is_ok_iff)
qed

lemma write_with_key_total:
  assumes "host_ok H" and "key_ok key" and "rnd_ok rnd" and "io_works (h_os H)"
    and "is_ok (keys_to_json H keys)"
    and "is_ok (derive_pin_key_with_salt (h_crypto H) pin (rnd_salt rnd))"
  shows "\<exists>cache d'. write_envelope_local_key_cache_with_key H rnd keys em url pin key d = (Inr (cache, key), d')"
proof -
  obtain enc slt where e: "encrypt_local_cache_key_with_pin H rnd key pin = Inr (enc, slt)"
    using pin_wrap_total [OF assms(1,3,6)] by fastforce
  obtain c0 where b: "build_envelope_local_key_cache H rnd keys em url key (Some enc) (Some slt) None None None = Inr c0"
    using build_total [OF assms(1,2,3,5)] by blast
  obtain r c1 d1 where n: "enroll_native_for_local_key_cache H c0 key d = (r, c1, d1)"
    by (cases "enroll_native_for_local_key_cache H c0 key d") auto
  from save_cache_total [OF assms(4), of c1 d1] e b n show ?thesis
    by (auto simp: write_envelope_local_key_cache_with_key_def)
qed

lemma migrate_total:
  assumes "host_ok H" and "rnd_ok rnd" and "io_works (h_os H)"
    and "is_ok (derive_pin_key_with_salt (h_crypto H) pin (rnd_salt rnd))"
  shows "\<exists>cache' d'. migrate_pin_salt_to_v3 H rnd cache key pin d = (Inr cache', d')"
proof -
  obtain enc slt where e: "encrypt_local_cache_key_with_pin H rnd key pin = Inr (enc, slt)"
    using pin_wrap_total [OF assms(1,2,4)] by fastforce
  obtain d' where "save_cache (h_os H) (cache\<lparr>cache_version := 3, local_cache_key := (local_cache_key cache)
      \<lparr>pin_encrypted := Some enc, pin_salt := Some slt\<rparr>\<rparr>) d = (Inr (), d')"
    using save_cache_total [OF assms(3)] by blast
  with e show ?thesis by (simp add: migrate_pin_salt_to_v3_def Let_def)
qed

lemma refresh_total:
  assumes "host_ok H" and "key_ok key" and "rnd_ok rnd" and "io_works (h_os H)" and "is_ok (keys_to_json H keys)"
  shows "\<exists>cache d'. refresh_envelope_local_key_cache H rnd keys existing key d = (Inr cache, d')"
proof -
  let ?s = "local_cache_key existing" and ?kept = "\<lambda>v. if \<not> multi_device_mode H then v else None"
  obtain c where c: "build_envelope_local_key_cache H rnd keys (hdr_email (cache_header existing))
      (hdr_server_url (cache_header existing)) key (pin_encrypted ?s) (pin_salt ?s)
      (?kept (hello_challenge ?s)) (?kept (hello_encrypted ?s)) (?kept (native_encrypted ?s)) = Inr c"
    using build_total [OF assms(1,2,3,5)] by blast
  obtain d' where "save_cache (h_os H) c d = (Inr (), d')" using save_cache_total [OF assms(4)] by blast
  with c show ?thesis unfolding refresh_envelope_local_key_cache_def Let_def c by simp
qed

section \<open>An instance\<close>

definition demo_key :: key_tuple where "demo_key = (''pem'', ''laptop'', ''id-1'')"

definition demo_os :: os where
  "demo_os = \<lparr>cache_path = Inr ''/c/local-key-cache.json'', slots_path = Inr ''/c/unlock-slots.json'',
     session_path = Inr ''/c/session-h.enc'', legacy_session_path = Inr ''/c/session-h.enc'',
     mkdir_io = (\<lambda>_. Inr ()), write_io = (\<lambda>_. Written), remove_io = (\<lambda>_. Inr ())\<rparr>"

definition demo_host :: host where
  "demo_host = \<lparr>h_os = demo_os, h_crypto = demo_crypto, h_ssh = demo_lib,
     keys_to_json = (\<lambda>ks. if ks = [] then Inr ''[]'' else if ks = [demo_key] then Inr ''k'' else Inl ''unsupported''),
     keys_from_json = (\<lambda>j. if j = ''[]'' then Inr [] else if j = ''k'' then Inr [demo_key] else Inl ''bad''),
     multi_device_enabled = Inr False, native_available = False,
     native_encrypt = (\<lambda>_. Inl ''no key store''), native_decrypt = (\<lambda>_. Inl ''no key store'')\<rparr>"

definition demo_rnd :: entropy where
  "demo_rnd = \<lparr>rnd_key_iv = replicate 16 1, rnd_payload_iv = replicate 16 2, rnd_token_iv = replicate 16 3,
     rnd_salt = replicate 16 4, rnd_enc = replicate 32 5, rnd_mac = replicate 32 6\<rparr>"

definition empty_disk :: disk where
  "empty_disk = \<lparr>cache_file = Absent, slots_file = Absent, session_files = []\<rparr>"

lemma demo_host_ok [simp]: "host_ok demo_host" "rnd_ok demo_rnd" "io_works (h_os demo_host)"
  by (auto simp: host_ok_def json_ok_def demo_host_def demo_suite_ok rnd_ok_def demo_rnd_def as_bytes_def
      io_works_def demo_os_def demo_key_def)

lemma demo_host_pin [simp]:
  "is_ok (derive_pin_key_with_salt (h_crypto demo_host) pin salt)"
  "is_ok (keys_to_json demo_host [])" "is_ok (keys_to_json demo_host [demo_key])"
  using demo_pin_usable [of pin salt] by (simp_all add: pin_usable_def demo_host_def)

lemma demo_write:
  obtains cache key d' where
    "write_envelope_local_key_cache demo_host demo_rnd [demo_key] ''a@b'' ''https://s'' pin d = (Inr (cache, key), d')"
  using write_with_key_total [OF demo_host_ok(1) random_key_ok [OF demo_host_ok(2)] demo_host_ok(2,3) demo_host_pin(3) demo_host_pin(1)]
  unfolding write_envelope_local_key_cache_def by blast

section \<open>Properties\<close>

text \<open>
  C12: a cache written under a PIN can be read back. Whenever writing succeeds, what the next load of
  the file returns opens under the same PIN to exactly the keys that were written, together with
  the cache key that was handed out, and is in the current format; writing succeeds whenever the
  file system and the key derivation do. In multi-device mode no platform slot ends up in the
  shared file.
\<close>

theorem cache_pin_roundtrip:
  assumes "host_ok H" and "rnd_ok rnd"
  shows "(\<forall>cache key d'. write_envelope_local_key_cache H rnd keys em url pin d = (Inr (cache, key), d') \<longrightarrow>
            load_cache (h_os H) d' = Inr (Some cache) \<and> opens_to H cache pin key keys \<and> key_ok key \<and>
            \<not> needs_pin_salt_migration cache \<and>
            (multi_device_mode H \<longrightarrow> native_encrypted (local_cache_key cache) = None \<and>
               hello_encrypted (local_cache_key cache) = None))
       \<and> (io_works (h_os H) \<and> is_ok (keys_to_json H keys) \<and>
            is_ok (derive_pin_key_with_salt (h_crypto H) pin (rnd_salt rnd)) \<longrightarrow>
          (\<exists>cache key d'. write_envelope_local_key_cache H rnd keys em url pin d = (Inr (cache, key), d')))"
  using write_with_key_spec [OF _ assms(1) random_key_ok [OF assms(2)] assms(2)]
    write_with_key_total [OF assms(1) random_key_ok [OF assms(2)] assms(2)] random_key_ok [OF assms(2)]
  unfolding write_envelope_local_key_cache_def by blast

theorem cache_pin_roundtrip_witness:
  "\<exists>cache key d'. write_envelope_local_key_cache demo_host demo_rnd [demo_key] ''a@b'' ''https://s'' ''1234'' empty_disk
       = (Inr (cache, key), d')
     \<and> load_cache demo_os d' = Inr (Some cache) \<and> opens_to demo_host cache ''1234'' key [demo_key]"
proof -
  obtain cache key d' where "write_envelope_local_key_cache demo_host demo_rnd [demo_key] ''a@b'' ''https://s'' ''1234'' empty_disk
       = (Inr (cache, key), d')" by (rule demo_write)
  moreover have "h_os demo_host = demo_os" by (simp add: demo_host_def)
  ultimately show ?thesis
    using cache_pin_roundtrip [OF demo_host_ok(1,2), of "[demo_key]" "''a@b''" "''https://s''" "''1234''" empty_disk]
    by metis
qed

text \<open>
  Migrating an old cache to a random salt loses nothing. After a successful migration the same
  PIN opens the new file to the same keys under the same cache key, the header, the payload and the
  platform slots are untouched, the new file is what the next load returns, and it needs no further
  migration.
\<close>

theorem salt_migration_preserves_unlock:
  assumes "host_ok H" and "rnd_ok rnd" and "opens_to H cache pin key keys"
    and "migrate_pin_salt_to_v3 H rnd cache key pin d = (Inr cache', d')"
  shows "opens_to H cache' pin key keys \<and> load_cache (h_os H) d' = Inr (Some cache')
       \<and> \<not> needs_pin_salt_migration cache'
       \<and> cache_header cache' = cache_header cache \<and> encrypted_payload cache' = encrypted_payload cache
       \<and> native_encrypted (local_cache_key cache') = native_encrypted (local_cache_key cache)
       \<and> hello_encrypted (local_cache_key cache') = hello_encrypted (local_cache_key cache)"
proof -
  obtain enc slt where e: "encrypt_local_cache_key_with_pin H rnd key pin = Inr (enc, slt)"
    and c: "cache' = cache\<lparr>cache_version := 3,
      local_cache_key := (local_cache_key cache)\<lparr>pin_encrypted := Some enc, pin_salt := Some slt\<rparr>\<rparr>"
    and s: "save_cache (h_os H) cache' d = (Inr (), d')"
    using assms(4) unfolding migrate_pin_salt_to_v3_def
    by (auto simp: Let_def split: sum.splits prod.splits)
  have k: "key_ok key" using opens_legacy_or_salted [OF assms(3)] assms(1) by (simp add: host_ok_def)
  obtain json where j: "decrypt_envelope_payload H cache key = Inr (json, key)" "keys_from_json H json = Inr keys"
    using assms(3) opens_payload by (auto simp: opens_to_def)
  have "decrypt_envelope_local_key_cache_with_pin H cache' pin = decrypt_envelope_payload H cache key"
    using pin_slot_opens [OF e assms(1) k assms(2), of cache'] by (simp add: c payload_of_slots)
  with j have "opens_to H cache' pin key keys" by (simp add: opens_to_def)
  moreover have "load_cache (h_os H) d' = Inr (Some cache')"
    using s by (intro cache_store.load_save) (auto simp: c)
  ultimately show ?thesis by (simp add: c needs_pin_salt_migration_def)
qed


text \<open>A cache of the old format: the cache key wrapped with the fixed salt.\<close>

lemma demo_legacy:
  obtains cache key where "opens_to demo_host cache ''1234'' key [demo_key]" and "needs_pin_salt_migration cache"
proof -
  let ?L = "h_crypto demo_host" and ?k = "random_symmetric_key (rnd_enc demo_rnd) (rnd_mac demo_rnd)"
  have k: "key_ok ?k" using demo_host_ok(2) by (rule random_key_ok)
  have L: "suite_ok ?L" using demo_host_ok(1) by (simp add: host_ok_def)
  obtain enc where e: "pin_encrypt ?L (replicate 16 0) (encode_symmetric_key ?L ?k) ''1234'' = Inr enc"
    using pin_env.seal_total [OF L, of "(''1234'', legacy_pin_salt ?L)" "replicate 16 0"]
    by (force simp: pin_encrypt_def pin_usable_def)
  obtain c where b: "build_envelope_local_key_cache demo_host demo_rnd [demo_key] ''a@b'' ''s'' ?k (Some enc) None None None None = Inr c"
    using build_total [OF demo_host_ok(1) k demo_host_ok(2) demo_host_pin(3)] by blast
  note f = build_fields [OF b]
  have "decrypt_envelope_local_key_cache_with_pin demo_host c ''1234'' = decrypt_envelope_payload demo_host c ?k"
    using f by (intro legacy_slot_opens [OF e demo_host_ok(1) k]) simp_all
  with build_opens [OF b demo_host_ok(1) k demo_host_ok(2)] have "opens_to demo_host c ''1234'' ?k [demo_key]"
    by (auto simp: opens_to_def)
  moreover have "needs_pin_salt_migration c" using f by (simp add: needs_pin_salt_migration_def)
  ultimately show thesis by (rule that)
qed

theorem salt_migration_preserves_unlock_witness:
  "\<exists>cache key cache' d'. needs_pin_salt_migration cache \<and> opens_to demo_host cache ''1234'' key [demo_key]
     \<and> migrate_pin_salt_to_v3 demo_host demo_rnd cache key ''1234'' empty_disk = (Inr cache', d')
     \<and> opens_to demo_host cache' ''1234'' key [demo_key] \<and> \<not> needs_pin_salt_migration cache'"
proof -
  obtain cache key where o: "opens_to demo_host cache ''1234'' key [demo_key]" and n: "needs_pin_salt_migration cache"
    by (rule demo_legacy)
  obtain c' d' where m: "migrate_pin_salt_to_v3 demo_host demo_rnd cache key ''1234'' empty_disk = (Inr c', d')"
    using migrate_total [OF demo_host_ok demo_host_pin(1)] by blast
  from salt_migration_preserves_unlock [OF demo_host_ok(1,2) o m] o n m show ?thesis by blast
qed

lemma refresh_spec:
  assumes "host_ok H" and "rnd_ok rnd" and "opens_to H existing pin key old_keys"
    and "refresh_envelope_local_key_cache H rnd keys existing key d = (Inr cache, d')"
  shows "opens_to H cache pin key keys \<and> load_cache (h_os H) d' = Inr (Some cache)
       \<and> hdr_email (cache_header cache) = hdr_email (cache_header existing)
       \<and> hdr_keys (cache_header cache) = key_identities_from_tuples H keys
       \<and> native_encrypted (local_cache_key cache)
           = (if multi_device_mode H then None else native_encrypted (local_cache_key existing))"
proof -
  have k: "key_ok key" using opens_legacy_or_salted [OF assms(3)] assms(1) by (simp add: host_ok_def)
  let ?s = "local_cache_key existing" and ?kept = "\<lambda>v. if \<not> multi_device_mode H then v else None"
  obtain b: "build_envelope_local_key_cache H rnd keys (hdr_email (cache_header existing))
      (hdr_server_url (cache_header existing)) key (pin_encrypted ?s) (pin_salt ?s)
      (?kept (hello_challenge ?s)) (?kept (hello_encrypted ?s)) (?kept (native_encrypted ?s)) = Inr cache"
    and s: "save_cache (h_os H) cache d = (Inr (), d')"
    using assms(4) unfolding refresh_envelope_local_key_cache_def Let_def
    by (auto split: sum.splits prod.splits)
  note f = build_fields [OF b]
  obtain json where j: "decrypt_envelope_payload H cache key = Inr (json, key)" "keys_from_json H json = Inr keys"
    using build_opens [OF b assms(1) k assms(2)] by blast
  have "decrypt_envelope_local_key_cache_with_pin H cache pin = Inr (json, key)"
    using assms(3) f j
    by (auto simp: opens_to_def decrypt_envelope_local_key_cache_with_pin_def decrypt_envelope_payload_def
        bind_res_Inr_iff)
  then have "opens_to H cache pin key keys" using j by (simp add: opens_to_def)
  moreover have "load_cache (h_os H) d' = Inr (Some cache)"
    using s f by (intro cache_store.load_save) auto
  ultimately show ?thesis using f by simp
qed

text \<open>
  Refreshing the cache after a sync keeps it openable. If the PIN opened the old cache under the
  cache key, it opens the refreshed file to the new keys under the same cache key; the public
  identities in the header are those of the new keys, the account is kept, and in multi-device mode
  the platform slots are stripped from the shared file.
\<close>

theorem refresh_keeps_pin:
  assumes "host_ok H" and "rnd_ok rnd" and "opens_to H existing pin key old_keys"
    and "refresh_envelope_local_key_cache H rnd keys existing key d = (Inr cache, d')"
  shows "opens_to H cache pin key keys \<and> load_cache (h_os H) d' = Inr (Some cache)
       \<and> hdr_email (cache_header cache) = hdr_email (cache_header existing)
       \<and> hdr_keys (cache_header cache) = key_identities_from_tuples H keys
       \<and> native_encrypted (local_cache_key cache)
           = (if multi_device_mode H then None else native_encrypted (local_cache_key existing))"
  using assms by (rule refresh_spec)

theorem refresh_keeps_pin_witness:
  "\<exists>existing key cache d'. opens_to demo_host existing ''1234'' key [demo_key]
     \<and> refresh_envelope_local_key_cache demo_host demo_rnd [] existing key empty_disk = (Inr cache, d')
     \<and> opens_to demo_host cache ''1234'' key []"
proof -
  obtain existing key where o: "opens_to demo_host existing ''1234'' key [demo_key]" by (rule demo_legacy)
  have k: "key_ok key" using opens_legacy_or_salted [OF o] demo_host_ok(1) by (simp add: host_ok_def)
  obtain cache d' where r: "refresh_envelope_local_key_cache demo_host demo_rnd [] existing key empty_disk = (Inr cache, d')"
    using refresh_total [OF demo_host_ok(1) k demo_host_ok(2,3) demo_host_pin(2)] by blast
  from refresh_keeps_pin [OF demo_host_ok(1,2) o r] o r show ?thesis by blast
qed

lemma fingerprint_get:
  "am_get (key_material_fingerprints_from_tuples H keys) i =
     map_of (rev (map (\<lambda>(pem, _, v). (v, hex (sha256 (h_crypto H) (as_bytes pem)))) keys)) i"
  by (simp add: key_material_fingerprints_from_tuples_def am.get_of_pairs)

lemma changed_iff:
  assumes "am_inv old" and "am_inv new"
  shows "i \<in> set (changed_or_removed old new) \<longleftrightarrow> am_get new i \<noteq> am_get old i"
proof
  assume "i \<in> set (changed_or_removed old new)"
  then consider fp where "(i, fp) \<in> set old" "am_get new i \<noteq> Some fp"
    | v where "(i, v) \<in> set new" "am_get old i = None"
    by (auto simp: changed_or_removed_def)
  then show "am_get new i \<noteq> am_get old i"
  proof cases
    case (1 fp)
    then have "am_get old i = Some fp" using assms(1) by (simp add: am_inv_def)
    with 1 show ?thesis by simp
  next
    case (2 v)
    then have "am_get new i = Some v" using assms(2) by (simp add: am_inv_def)
    with 2 show ?thesis by simp
  qed
next
  assume ne: "am_get new i \<noteq> am_get old i"
  show "i \<in> set (changed_or_removed old new)"
  proof (cases "am_get old i")
    case None
    with ne obtain v where "am_get new i = Some v" by auto
    then show ?thesis using None map_of_SomeD by (force simp: changed_or_removed_def)
  next
    case (Some fp)
    then show ?thesis using ne map_of_SomeD by (force simp: changed_or_removed_def)
  qed
qed

text \<open>
  C16: after a sync, a remembered authorization survives exactly for the keys whose material did not
  change: an entry is kept if and only if the fingerprint of its key is the same before and after
  (so a rotated, removed or newly added key has to be approved again), the fingerprints on record
  become those of the new keys, and the reported number is that of the entries dropped.
\<close>

theorem auth_memory_cleared_for_changed_keys:
  assumes "am_inv old" and "am_inv memory"
    and "clear_authorization_memory_for_changed_keys H old keys memory = (n, new, memory')"
  shows "new = key_material_fingerprints_from_tuples H keys
       \<and> (\<forall>i op. am_get memory' (i, op) = (if am_get new i = am_get old i then am_get memory (i, op) else None))
       \<and> n + length memory' = length memory \<and> am_inv memory'"
proof -
  let ?new = "key_material_fingerprints_from_tuples H keys"
  let ?gone = "changed_or_removed old ?new"
  have inv: "am_inv ?new" by (simp add: key_material_fingerprints_from_tuples_def am.inv_of_pairs)
  note ch = changed_iff [OF assms(1) inv]
  show ?thesis
  proof (cases "?gone = []")
    case True
    then have "am_get ?new i = am_get old i" for i using ch [of i] by simp
    with True assms show ?thesis
      by (simp add: clear_authorization_memory_for_changed_keys_def Let_def)
  next
    case False
    then have m: "memory' = am_retain (\<lambda>(i, _) _. i \<notin> set ?gone) memory"
      and n: "n = length memory - length memory'" and new: "new = ?new"
      using assms(3) by (auto simp: clear_authorization_memory_for_changed_keys_def Let_def)
    have "am_get memory' (i, op) = (if am_get new i = am_get old i then am_get memory (i, op) else None)" for i op
      using ch [of i] by (cases "am_get memory (i, op)") (auto simp: m new am.get_retain [OF assms(2)])
    moreover have "length memory' \<le> length memory" using am.size_retain_le [OF assms(2)] by (simp add: m)
    moreover have "am_inv memory'" using assms(2) by (simp add: m am.inv_retain)
    ultimately show ?thesis using n new by simp
  qed
qed

theorem auth_memory_cleared_for_changed_keys_witness:
  "\<exists>n new memory'. clear_authorization_memory_for_changed_keys demo_host
       (key_material_fingerprints_from_tuples demo_host [(''old'', ''k'', ''1''), (''same'', ''m'', ''2'')])
       [(''new'', ''k'', ''1''), (''same'', ''m'', ''2'')] [((''1'', ''auth''), ()), ((''2'', ''auth''), ())] = (n, new, memory')
     \<and> am_get memory' (''2'', ''auth'') = Some () \<and> n + length memory' = 2"
proof -
  let ?old = "key_material_fingerprints_from_tuples demo_host [(''old'', ''k'', ''1''), (''same'', ''m'', ''2'')]"
  let ?new = "[(''new'', ''k'', ''1''), (''same'', ''m'', ''2'')]"
  let ?mem = "[((''1'', ''auth''), ()), ((''2'', ''auth''), ())]"
  obtain n new mem' where r: "clear_authorization_memory_for_changed_keys demo_host ?old ?new ?mem = (n, new, mem')"
    using prod_cases3 by blast
  have io: "am_inv ?old" by (simp add: key_material_fingerprints_from_tuples_def am.inv_of_pairs)
  have im: "am_inv ?mem" by (simp add: am_inv_def)
  note t = auth_memory_cleared_for_changed_keys [OF io im r]
  have "am_get new ''2'' = am_get ?old ''2''" using t by (simp add: fingerprint_get)
  with t have "am_get mem' (''2'', ''auth'') = Some ()" by simp
  with t r show ?thesis by (intro exI [of _ n] exI [of _ new] exI [of _ mem']) simp
qed

end
