(* ===== verification/Signalr.thy ===== *)
theory Signalr
  imports Rust_Text
begin

unbundle bit_operations_syntax

text \<open>
  The wire format of the notification hub, \<open>crates/sshwarden-api/src/notifications.rs\<close>:
  the hub URL, the handshake check, SignalR frames (a variable-length size followed by a
  MessagePack payload) and the events read from them.

  \<open>usize\<close> is 64 bits wide. The crate \<open>rmpv\<close> is the parameter \<open>msgpack\<close>:
  its encoder, its decoder and the accessors of its value type, which stays abstract.
  A slice with its bounds out of order is a panic of the program, a value of \<open>run\<close>.
\<close>

datatype 'a run = Returns 'a | Panics

section \<open>Hub URL and handshake\<close>

definition trim_end_char :: "char \<Rightarrow> string \<Rightarrow> string" where
  "trim_end_char c s = rev (dropWhile (\<lambda>x. x = c) (rev s))"

definition to_ws_scheme :: "string \<Rightarrow> string" where
  "to_ws_scheme url =
     (case strip_prefix ''https://'' url of
        Some rest \<Rightarrow> ''wss://'' @ rest
      | None \<Rightarrow>
          (case strip_prefix ''http://'' url of
             Some rest \<Rightarrow> ''ws://'' @ rest
           | None \<Rightarrow>
               if starts_with ''wss://'' url \<or> starts_with ''ws://'' url then url
               else ''wss://'' @ url))"

definition build_ws_url :: "string \<Rightarrow> string \<Rightarrow> string result" where
  "build_ws_url notifications_url access_token =
     (let base = trim_end_char CHR ''/'' notifications_url;
          ws_base = to_ws_scheme base;
          hub = (if ends_with ''/hub'' ws_base \<or> ends_with ''/anonymous-hub'' ws_base then ws_base
                 else ws_base @ ''/hub'')
      in Inr (hub @ ''?access_token='' @ access_token))"

datatype message = Text string | Binary bytes | Ping bytes | Pong bytes | Close "string option" | Frame
  \<comment> \<open>\<open>tungstenite::Message\<close>; \<open>Close\<close> carries the reason of its frame\<close>

definition RECORD_SEP :: u8 where "RECORD_SEP = 0x1E"

definition is_handshake_bytes :: "bytes \<Rightarrow> bool" where
  "is_handshake_bytes bs =
     (let bs' = (if bs \<noteq> [] \<and> last bs = RECORD_SEP then butlast bs else bs)
      in take 2 bs' = [0x7B, 0x7D])"

fun is_handshake_response :: "message \<Rightarrow> bool" where
  "is_handshake_response (Text text) = is_handshake_bytes (as_bytes text)"
| "is_handshake_response (Binary bs) = is_handshake_bytes bs"
| "is_handshake_response _ = False"

section \<open>Frames\<close>

record 'v msgpack =
  write_value :: "'v \<Rightarrow> bytes"
  read_value :: "bytes \<Rightarrow> 'v result"
  as_array :: "'v \<Rightarrow> 'v list option"
  as_map :: "'v \<Rightarrow> ('v \<times> 'v) list option"
  as_str :: "'v \<Rightarrow> string option"
  as_u64 :: "'v \<Rightarrow> u64 option"
  from_u64 :: "u64 \<Rightarrow> 'v"
  from_array :: "'v list \<Rightarrow> 'v"

lemma unat_drop_7: "unat (drop_bit 7 w) = unat w div 128" for w :: u64
  by (simp add: drop_bit_eq_div unat_div)

text \<open>The size loop of \<open>encode_signalr_message\<close>.\<close>

function encode_size :: "u64 \<Rightarrow> bytes" where
  "encode_size n =
     (let size_part = n AND 0x7F; n' = drop_bit 7 n
      in if n' > 0 then ucast (size_part OR 0x80) # encode_size n' else [ucast size_part])"
  by pat_completeness auto
termination
proof (relation "measure unat", goal_cases)
  case (2 n x xa)
  then have "unat (drop_bit 7 n) \<noteq> 0" by (metis unat_eq_zero word_gt_0)
  then show ?case using 2 by (simp add: unat_drop_7)
qed simp

declare encode_size.simps [simp del]

definition encode_signalr_message :: "'v msgpack \<Rightarrow> 'v \<Rightarrow> bytes" where
  "encode_signalr_message mp v =
     (let payload = write_value mp v in encode_size (word_of_nat (length payload)) @ payload)"

definition create_signalr_ping :: "'v msgpack \<Rightarrow> bytes" where
  "create_signalr_ping mp = encode_signalr_message mp (from_array mp [from_u64 mp 6])"

fun read_varint_from :: "nat \<Rightarrow> nat \<Rightarrow> u64 \<Rightarrow> bytes \<Rightarrow> (u64 \<times> nat) option" where
  "read_varint_from i shift result [] = None"
| "read_varint_from i shift result (byte # rest) =
     (let result' = result OR push_bit shift (ucast (byte AND 0x7F))
      in if byte AND 0x80 = 0 then Some (result', i + 1)
         else if shift + 7 \<ge> 64 then None
         else read_varint_from (i + 1) (shift + 7) result' rest)"

definition read_varint :: "bytes \<Rightarrow> (u64 \<times> nat) option" where
  "read_varint data = read_varint_from 0 0 0 data"

section \<open>Events\<close>

datatype update = CipherUpdate | LogOutUpdate
  \<comment> \<open>\<open>SyncEvent::CipherChanged\<close> and \<open>SyncEvent::LogOut\<close>, the two a frame can carry\<close>

fun update_type_of_pairs :: "'v msgpack \<Rightarrow> ('v \<times> 'v) list \<Rightarrow> u64 option" where
  "update_type_of_pairs mp [] = None"
| "update_type_of_pairs mp ((k, v) # rest) =
     (let key_str = unwrap_or '''' (as_str mp k)
      in if key_str = ''Type'' \<or> key_str = ''type'' then as_u64 mp v
         else update_type_of_pairs mp rest)"

definition extract_update_type :: "'v msgpack \<Rightarrow> 'v \<Rightarrow> u64 option" where
  "extract_update_type mp v =
     (case as_map mp v of Some m \<Rightarrow> update_type_of_pairs mp m | None \<Rightarrow> None)"

definition nth_opt :: "'a list \<Rightarrow> nat \<Rightarrow> 'a option" where
  "nth_opt xs i = (if i < length xs then Some (xs ! i) else None)"

definition update_event :: "u64 \<Rightarrow> update option" where
  "update_event update_type =
     (if update_type \<in> {0, 1, 2, 4, 5, 6} then Some CipherUpdate
      else if update_type = 11 then Some LogOutUpdate
      else None)"

definition message_event :: "'v msgpack \<Rightarrow> 'v \<Rightarrow> update option" where
  "message_event mp v =
     Option.bind (as_array mp v) (\<lambda>arr.
     Option.bind (nth_opt arr 0) (\<lambda>t.
     Option.bind (as_u64 mp t) (\<lambda>msg_type.
       if msg_type = 1 then
         Option.bind (nth_opt arr 4) (\<lambda>a.
         Option.bind (as_array mp a) (\<lambda>arguments.
         Option.bind (nth_opt arguments 0) (\<lambda>first_arg.
         Option.bind (extract_update_type mp first_arg) update_event)))
       else None)))"

definition parse_signalr_message :: "'v msgpack \<Rightarrow> bytes \<Rightarrow> update option run" where
  "parse_signalr_message mp data =
     (case read_varint data of
        None \<Rightarrow> Returns None
      | Some (payload_len, header_size) \<Rightarrow>
          (let payload_start = (word_of_nat header_size :: u64);
               payload_end = payload_start + payload_len
           in if unat payload_end > length data then Returns None
              else if payload_start > payload_end then Panics
              else case read_value mp (take (unat (payload_end - payload_start))
                                        (drop (unat payload_start) data)) of
                     Inl _ \<Rightarrow> Returns None
                   | Inr v \<Rightarrow> Returns (message_event mp v)))"

section \<open>The size prefix\<close>

lemma encode_size_small: "unat n < 128 \<Longrightarrow> encode_size n = [ucast (n AND 0x7F)]"
proof -
  assume "unat n < 128"
  then have "unat (drop_bit 7 n) = 0" by (simp add: unat_drop_7)
  then have "drop_bit 7 n = 0" using unat_eq_zero by blast
  then show ?thesis by (subst encode_size.simps) (simp add: Let_def)
qed

lemma encode_size_large:
  "128 \<le> unat n \<Longrightarrow> encode_size n = ucast ((n AND 0x7F) OR 0x80) # encode_size (drop_bit 7 n)"
proof -
  assume "128 \<le> unat n"
  then have "unat (drop_bit 7 n) \<noteq> 0" by (simp add: unat_drop_7)
  then have "drop_bit 7 n > 0" by (metis unat_eq_zero word_gt_0)
  then show ?thesis by (subst encode_size.simps) (simp add: Let_def)
qed

lemma mask_7: "(0x7F :: 'a::len word) = mask 7"
  by (simp add: mask_eq_exp_minus_1)

lemma bit_0x80: "bit (0x80 :: 'a::len word) k \<longleftrightarrow> k = 7 \<and> 7 < LENGTH('a)"
proof -
  have "(0x80 :: 'a word) = 2 ^ 7" by simp
  then show ?thesis by (simp only: bit_exp_iff) auto
qed

lemmas size_bit_simps = bit_simps bit_0x80

lemma size_byte_bits:
  fixes n :: u64
  shows "(ucast (n AND 0x7F) :: u8) AND 0x80 = 0"
    and "(ucast ((ucast (n AND 0x7F) :: u8) AND 0x7F) :: u64) = n AND 0x7F"
    and "(ucast ((n AND 0x7F) OR 0x80) :: u8) AND 0x80 \<noteq> 0"
    and "(ucast ((ucast ((n AND 0x7F) OR 0x80) :: u8) AND 0x7F) :: u64) = n AND 0x7F"
proof -
  have "\<not> bit ((ucast (n AND 0x7F) :: u8) AND 0x80) k" for k
    unfolding mask_7 by (simp only: bit_and_iff bit_0x80 bit_unsigned_iff) (simp add: bit_simps)
  then show "(ucast (n AND 0x7F) :: u8) AND 0x80 = 0" by (intro bit_eqI) simp
  show "(ucast ((ucast (n AND 0x7F) :: u8) AND 0x7F) :: u64) = n AND 0x7F"
    unfolding mask_7 by (rule bit_eqI) (auto simp: size_bit_simps)
  have "bit ((ucast ((n AND 0x7F) OR 0x80) :: u8) AND 0x80) 7" by (simp add: size_bit_simps)
  then show "(ucast ((n AND 0x7F) OR 0x80) :: u8) AND 0x80 \<noteq> 0" by fastforce
  have "bit (ucast ((ucast ((n AND 0x7F) OR 0x80) :: u8) AND 0x7F) :: u64) k = bit (n AND 0x7F) k" for k
    unfolding mask_7
    by (simp only: bit_and_iff bit_or_iff bit_0x80 bit_unsigned_iff) (auto simp: bit_simps)
  then show "(ucast ((ucast ((n AND 0x7F) OR 0x80) :: u8) AND 0x7F) :: u64) = n AND 0x7F"
    by (intro bit_eqI) simp
qed

lemma glue_bits:
  fixes n r :: u64
  shows "(r OR push_bit s (n AND 0x7F)) OR push_bit (s + 7) (drop_bit 7 n) = r OR push_bit s n"
proof (unfold mask_7, rule bit_eqI)
  fix k
  show "bit ((r OR push_bit s (n AND mask 7)) OR push_bit (s + 7) (drop_bit 7 n)) k
      = bit (r OR push_bit s n) k"
    by (cases "s + 7 \<le> k") (auto simp: size_bit_simps)
qed

lemma read_encoded_from:
  "shift < 64 \<Longrightarrow> unat n < 2 ^ (64 - shift) \<Longrightarrow>
   read_varint_from i shift r (encode_size n @ rest)
     = Some (r OR push_bit shift n, i + length (encode_size n))"
proof (induction n arbitrary: i shift r rule: encode_size.induct)
  case (1 n)
  show ?case
  proof (cases "unat n < 128")
    case True
    have "n AND 0x7F = n"
      using True unfolding mask_7 take_bit_eq_mask [symmetric]
      by (intro word_unat_eq_iff [THEN iffD2]) (simp add: take_bit_eq_mod unat_mod)
    then show ?thesis
      using True size_byte_bits(1,2) [of n] by (simp add: encode_size_small Let_def)
  next
    case False
    then have pos: "drop_bit 7 n > 0"
      using unat_drop_7 [of n] by (auto simp: word_gt_0 simp flip: unat_eq_zero)
    have sh: "shift + 7 < 64"
    proof (rule ccontr)
      assume "\<not> shift + 7 < 64"
      then have "(2::nat) ^ (64 - shift) \<le> 2 ^ 7" by (intro power_increasing) auto
      with False 1(3) show False by simp
    qed
    have "64 - shift = (64 - (shift + 7)) + 7" using sh by simp
    then have "(2::nat) ^ (64 - shift) = 2 ^ (64 - (shift + 7)) * 128"
      by (simp only: power_add) simp
    then have b: "unat (drop_bit 7 n) < 2 ^ (64 - (shift + 7))"
      using 1(3) by (simp add: unat_drop_7 less_mult_imp_div_less)
    let ?r = "r OR push_bit shift (n AND 0x7F)"
    have "read_varint_from (i + 1) (shift + 7) ?r (encode_size (drop_bit 7 n) @ rest)
        = Some (?r OR push_bit (shift + 7) (drop_bit 7 n), i + 1 + length (encode_size (drop_bit 7 n)))"
      using 1(1) [OF refl refl pos sh b] by blast
    then have "read_varint_from (i + 1) (shift + 7) ?r (encode_size (drop_bit 7 n) @ rest)
        = Some (r OR push_bit shift n, i + 1 + length (encode_size (drop_bit 7 n)))"
      by (simp only: glue_bits)
    then show ?thesis
      using False sh size_byte_bits(3,4) [of n] by (simp add: encode_size_large Let_def del: push_bit_and)
  qed
qed

lemma read_encoded: "read_varint (encode_size n @ rest) = Some (n, length (encode_size n))"
  using read_encoded_from [of 0 n 0 0 rest] unsigned_less [of n, where ?'a = nat]
  by (simp add: read_varint_def)

lemma read_varint_from_bounds:
  "read_varint_from i shift r data = Some (v, c) \<Longrightarrow> shift = 7 * i \<Longrightarrow> i \<le> 9 \<Longrightarrow>
   i < c \<and> c \<le> i + length data \<and> c \<le> 10"
proof (induction i shift r data rule: read_varint_from.induct)
  case (2 i shift r b bs)
  show ?case
  proof (cases "b AND 0x80 = 0")
    case True
    with 2(2) have "c = i + 1" by (simp add: Let_def)
    with 2(4) show ?thesis by simp
  next
    case False
    then have sh: "\<not> 64 \<le> shift + 7" using 2(2) by (auto simp: Let_def split: if_splits)
    then have "i + 1 \<le> 9" using 2(3) by simp
    moreover have "read_varint_from (i + 1) (shift + 7) (r OR push_bit shift (ucast (b AND 0x7F))) bs
        = Some (v, c)"
      using 2(2) False sh by (simp add: Let_def)
    ultimately have "i + 1 < c \<and> c \<le> i + 1 + length bs \<and> c \<le> 10"
      using 2(1) [OF refl False sh] 2(3) by simp
    then show ?thesis by simp
  qed
qed simp

lemma read_varint_bounds: "read_varint data = Some (v, c) \<Longrightarrow> 0 < c \<and> c \<le> length data \<and> c \<le> 10"
  using read_varint_from_bounds [of 0 0 0 data v c] by (simp add: read_varint_def)


section \<open>Framing\<close>

lemma parse_framed:
  assumes "read_varint data = Some (n, c)" and "c + unat n < 2 ^ 64"
  shows "parse_signalr_message mp data =
    (if length data < c + unat n then Returns None
     else Returns (Option.bind (res_ok (read_value mp (take (unat n) (drop c data)))) (message_event mp)))"
proof -
  have c: "c \<le> 10" using read_varint_bounds [OF assms(1)] by simp
  then have uc: "unat (word_of_nat c :: u64) = c" by (simp add: unat_of_nat)
  then have ue: "unat (word_of_nat c + n) = c + unat n" using assms(2) by (simp add: unat_word_ariths)
  then have "\<not> word_of_nat c > word_of_nat c + n" using uc by (simp add: word_less_nat_alt)
  then show ?thesis
    using assms(1) uc ue by (auto simp: parse_signalr_message_def Let_def split: sum.splits)
qed

lemma parse_overflowing:
  assumes "read_varint data = Some (n, c)" and "2 ^ 64 \<le> c + unat n"
  shows "parse_signalr_message mp data = Panics"
proof -
  have c: "c \<le> 10" "c \<le> length data" using read_varint_bounds [OF assms(1)] by simp_all
  then have uc: "unat (word_of_nat c :: u64) = c" by (simp add: unat_of_nat)
  have "unat n < 2 ^ 64" using unsigned_less [of n, where ?'a = nat] by simp
  with c(1) assms(2) have "(c + unat n) mod 2 ^ 64 = c + unat n - 2 ^ 64"
    by (simp add: mod_if)
  then have ue: "unat (word_of_nat c + n) = c + unat n - 2 ^ 64" using uc by (simp add: unat_word_ariths)
  then have lt: "unat (word_of_nat c + n) < c" using \<open>unat n < 2 ^ 64\<close> assms(2) by simp
  then have "word_of_nat c > word_of_nat c + n" using uc by (simp add: word_less_nat_alt)
  then show ?thesis
    using assms(1) lt c(2) by (simp add: parse_signalr_message_def Let_def)
qed

definition demo_mp :: "nat msgpack" where
  "demo_mp = \<lparr>write_value = (\<lambda>v. [0x91, word_of_nat v]), read_value = (\<lambda>bs. if length bs = 2 then Inr (unat (bs ! 1)) else Inl ''eof''),
     as_array = (\<lambda>v. if v = 1 then Some [1, 0, 0, 0, 1] else None),
     as_map = (\<lambda>v. if v = 1 then Some [(9, 11)] else None),
     as_str = (\<lambda>v. if v = 9 then Some ''Type'' else None),
     as_u64 = (\<lambda>v. Some (word_of_nat v)), from_u64 = unat, from_array = (\<lambda>_. 1)\<rparr>"

text \<open>
  What \<open>encode_signalr_message\<close> writes, \<open>parse_signalr_message\<close> reads back. For every
  payload the decoder inverts and every length a vector can have, the frame, with any bytes after
  it, parses to the event of the encoded value; the size prefix of every 64-bit length is read back
  exactly, with the number of bytes it took.
\<close>

theorem frame_roundtrip:
  assumes "read_value mp (write_value mp v) = Inr v"
    and "length (write_value mp v) < 2 ^ 63"
  shows "parse_signalr_message mp (encode_signalr_message mp v @ rest) = Returns (message_event mp v)
       \<and> read_varint (encode_size n @ rest) = Some (n, length (encode_size n))"
proof -
  let ?p = "write_value mp v"
  let ?n = "word_of_nat (length ?p) :: u64"
  have un: "unat ?n = length ?p" using assms(2) by (simp add: unat_of_nat)
  have rv: "read_varint (encode_size ?n @ ?p @ rest) = Some (?n, length (encode_size ?n))"
    by (rule read_encoded)
  then have "length (encode_size ?n) \<le> 10" using read_varint_bounds by blast
  then have "length (encode_size ?n) + unat ?n < 2 ^ 64" using un assms(2) by simp
  from parse_framed [OF rv this, of mp] have
    "parse_signalr_message mp (encode_signalr_message mp v @ rest) = Returns (message_event mp v)"
    using un assms(1) by (simp add: encode_signalr_message_def Let_def)
  then show ?thesis by (simp add: read_encoded)
qed

theorem frame_roundtrip_witness:
  "parse_signalr_message demo_mp (encode_signalr_message demo_mp 1 @ [7]) = Returns (Some LogOutUpdate)
   \<and> read_varint (encode_size 300 @ [7]) = Some (300, length (encode_size 300))"
proof -
  have "message_event demo_mp 1 = Some LogOutUpdate"
    by (simp add: message_event_def demo_mp_def nth_opt_def extract_update_type_def update_event_def)
  then show ?thesis
    using frame_roundtrip [of demo_mp 1 "[7]" 300] by (simp add: demo_mp_def)
qed

text \<open>
  C15: exactly when a frame brings the program down. A frame whose announced size, added to the size
  of its prefix, exceeds 64 bits passes the truncation check by wrapping around and the slice
  panics; every other frame is handled: it is ignored when the announced payload is not there, and
  otherwise decoded from exactly the announced bytes. A prefix takes at most ten bytes.
\<close>

theorem frame_panic_iff_size_wraps:
  "(parse_signalr_message mp data = Panics \<longleftrightarrow>
      (\<exists>n c. read_varint data = Some (n, c) \<and> 2 ^ 64 \<le> c + unat n))
   \<and> (\<forall>n c. read_varint data = Some (n, c) \<longrightarrow> 0 < c \<and> c \<le> 10 \<and> c \<le> length data)
   \<and> (\<forall>n c. read_varint data = Some (n, c) \<and> c + unat n < 2 ^ 64 \<longrightarrow>
        parse_signalr_message mp data =
          (if length data < c + unat n then Returns None
           else Returns (Option.bind (res_ok (read_value mp (take (unat n) (drop c data))))
                  (message_event mp))))"
proof -
  have "parse_signalr_message mp data = Panics \<longleftrightarrow>
      (\<exists>n c. read_varint data = Some (n, c) \<and> 2 ^ 64 \<le> c + unat n)"
  proof (cases "read_varint data")
    case None
    then show ?thesis by (simp add: parse_signalr_message_def)
  next
    case (Some r)
    obtain n c where r: "r = (n, c)" by fastforce
    show ?thesis
    proof (cases "c + unat n < 2 ^ 64")
      case True
      with parse_framed [OF Some [unfolded r], of mp] Some r show ?thesis by simp
    next
      case False
      with parse_overflowing [OF Some [unfolded r]] Some r show ?thesis by simp
    qed
  qed
  then show ?thesis using read_varint_bounds parse_framed by blast
qed

theorem frame_panic_iff_size_wraps_witness:
  "parse_signalr_message demo_mp (replicate 9 0xFF @ [1]) = Panics"
proof -
  have "read_varint (replicate 9 0xFF @ [1]) = Some (- 1, 10)" by code_simp
  then show ?thesis
    using frame_panic_iff_size_wraps [of demo_mp "replicate 9 0xFF @ [1]"]
    by (simp add: unsigned_minus_1_eq_mask mask_eq_exp_minus_1)
qed

end
