(* ===== verification/Hub_Client.thy ===== *)
theory Hub_Client
  imports Signalr
begin

text \<open>
  The notification client of \<open>crates/sshwarden-api/src/notifications.rs\<close>: connection status,
  options, and the background loop that connects, reads frames, keeps the socket alive, reconnects
  with exponential backoff and asks for fallback syncs.

  The loop is a state machine. Each step takes what the outside world answers at that point (the
  clock, the socket, the cancellation token, whether the event channel takes the item) as its input
  and yields what it puts on the event channel and the socket, each with the instant it was sent. A step covers
  the code between two points where the loop waits: the loop head up to the connection attempt's
  outcome, one arm of the \<open>select!\<close> of the session loop, and the wait before a reconnect.
\<close>

section \<open>Status\<close>

datatype NotificationConnectionState = NotStarted | Connecting | Connected | Degraded | Stopped

fun state_name :: "NotificationConnectionState \<Rightarrow> string" where
  "state_name NotStarted = ''not_started''"
| "state_name Connecting = ''starting''"
| "state_name Connected = ''running''"
| "state_name Degraded = ''failed''"
| "state_name Stopped = ''stopped''"

definition is_delivering :: "NotificationConnectionState \<Rightarrow> bool" where
  "is_delivering s \<longleftrightarrow> s = Connected"

record NotificationStatus =
  ns_state :: NotificationConnectionState
  ns_consecutive_failures :: u32
  ns_total_failures :: u32
  ns_next_retry_in :: "duration option"
  ns_last_error :: "string option"
  ns_connects :: u64

definition status_default :: NotificationStatus where
  "status_default = \<lparr>ns_state = NotStarted, ns_consecutive_failures = 0, ns_total_failures = 0,
     ns_next_retry_in = None, ns_last_error = None, ns_connects = 0\<rparr>"

definition status_connecting :: NotificationStatus where
  "status_connecting = status_default\<lparr>ns_state := Connecting\<rparr>"

definition status_connected :: "u64 \<Rightarrow> NotificationStatus" where
  "status_connected n = status_default\<lparr>ns_state := Connected, ns_connects := n\<rparr>"

definition status_degraded :: "u64 \<Rightarrow> u32 \<Rightarrow> u32 \<Rightarrow> duration \<Rightarrow> string \<Rightarrow> NotificationStatus" where
  "status_degraded n f t retry err =
     \<lparr>ns_state = Degraded, ns_consecutive_failures = f, ns_total_failures = t,
      ns_next_retry_in = Some retry, ns_last_error = Some err, ns_connects = n\<rparr>"

definition status_stopped :: NotificationStatus where
  "status_stopped = status_default\<lparr>ns_state := Stopped\<rparr>"

lemmas status_defs = status_default_def status_connecting_def status_connected_def
  status_degraded_def status_stopped_def

datatype SyncEvent = CipherChanged | LogOut | FallbackSyncDue | ConnectionStatus NotificationStatus

fun event_of_update :: "update \<Rightarrow> SyncEvent" where
  "event_of_update CipherUpdate = CipherChanged"
| "event_of_update LogOutUpdate = LogOut"

record NotificationOptions =
  keepalive_interval :: duration
  idle_timeout :: duration
  reconnect_attempts_before_fallback :: nat
  reconnect_max_backoff :: duration
  fallback_sync_interval :: duration

definition options_default :: NotificationOptions where
  "options_default = \<lparr>keepalive_interval = secs 30, idle_timeout = secs 90,
     reconnect_attempts_before_fallback = 3, reconnect_max_backoff = secs 60,
     fallback_sync_interval = secs 300\<rparr>"

section \<open>Emitting events\<close>

text \<open>
  \<open>Instant::now()\<close> is read once to test the interval (\<open>checked\<close>) and once to stamp the
  event (\<open>sent_at\<close>); \<open>open\<close> says whether the receiver still exists. The stamp is taken
  before the send, so it is kept even when the send fails.
\<close>

record clocks =
  checked :: instant
  sent_at :: instant

record chan =
  takes_status :: bool
    \<comment> \<open>\<open>try_send\<close> finds room and a receiver\<close>
  rx_alive :: bool
    \<comment> \<open>\<open>send().await\<close> succeeds: the receiver has not been dropped\<close>

datatype loop_out = Emit SyncEvent | Send message | CloseSocket

type_synonym emitted = "(instant \<times> loop_out) list"

definition publish_status :: "clocks \<Rightarrow> chan \<Rightarrow> NotificationStatus \<Rightarrow> emitted" where
  "publish_status ck ch s = (if takes_status ch then [(sent_at ck, Emit (ConnectionStatus s))] else [])"

definition recovery_sync_due :: "instant \<Rightarrow> instant option \<Rightarrow> duration \<Rightarrow> bool" where
  "recovery_sync_due now last_sent interval =
     (if interval = 0 then False
      else case last_sent of None \<Rightarrow> True | Some l \<Rightarrow> interval \<le> now - l)"

definition emit_recovery_sync ::
  "clocks \<Rightarrow> chan \<Rightarrow> NotificationOptions \<Rightarrow> instant option \<Rightarrow> emitted \<times> instant option" where
  "emit_recovery_sync ck ch opts last_sent =
     (if \<not> recovery_sync_due (checked ck) last_sent (fallback_sync_interval opts) then ([], last_sent)
      else (if rx_alive ch then [(sent_at ck, Emit FallbackSyncDue)] else [], Some (sent_at ck)))"

definition maybe_emit_fallback_sync ::
  "clocks \<Rightarrow> chan \<Rightarrow> NotificationOptions \<Rightarrow> u32 \<Rightarrow> instant option \<Rightarrow> emitted \<times> instant option" where
  "maybe_emit_fallback_sync ck ch opts f last_sent =
     (if unat f < reconnect_attempts_before_fallback opts then ([], last_sent)
      else emit_recovery_sync ck ch opts last_sent)"

section \<open>The background loop\<close>

datatype phase =
    Head bool  \<comment> \<open>loop head; whether an initial connection is at hand\<close>
  | Session instant  \<comment> \<open>the read loop, with \<open>last_seen\<close>\<close>
  | Backing_Off  \<comment> \<open>\<open>wait_before_reconnect\<close>\<close>
  | Returned

record loop_state =
  backoff :: duration
  failures :: u32
  total_failures :: u32
  connects :: u64
  last_fallback_sent :: "instant option"
  loop_phase :: phase

text \<open>What the socket delivers to an arm of the \<open>select!\<close>.\<close>

datatype session_input =
    Cancelled
  | KeepaliveTick "string option"  \<comment> \<open>the error of sending the ping, if any\<close>
  | IdleTick
  | Msg message
  | SocketError string
  | StreamEnded

datatype loop_input =
    AtHead bool "unit result"  \<comment> \<open>cancelled?; outcome of \<open>connect_and_initialize\<close>\<close>
  | InSession session_input
  | WaitOver

record step_env =
  env_clocks :: clocks
  env_chan :: chan

definition loop_init :: "clocks \<Rightarrow> chan \<Rightarrow> bool \<Rightarrow> emitted \<times> loop_state" where
  "loop_init ck ch initial_connection =
     (let st = \<lparr>backoff = secs 1, failures = 0, total_failures = 0, connects = 0,
                last_fallback_sent = None, loop_phase = Head initial_connection\<rparr>
      in if initial_connection
         then (publish_status ck ch (status_connected 1), st\<lparr>connects := 1\<rparr>)
         else ([], st))"

definition head_step ::
  "NotificationOptions \<Rightarrow> string result \<Rightarrow> clocks \<Rightarrow> chan \<Rightarrow> bool \<Rightarrow> unit result \<Rightarrow> bool \<Rightarrow>
     loop_state \<Rightarrow> emitted \<times> loop_state" where
  "head_step opts ws_url ck ch is_cancelled outcome initial st =
     (if is_cancelled then (publish_status ck ch status_stopped, st\<lparr>loop_phase := Returned\<rparr>)
      else if initial then ([], st\<lparr>loop_phase := Session (sent_at ck)\<rparr>)
      else case ws_url of
        Inl e \<Rightarrow>
          (publish_status ck ch
             (status_degraded (connects st) (failures st) (total_failures st) (backoff st) e),
           st\<lparr>loop_phase := Returned\<rparr>)
      | Inr _ \<Rightarrow>
          (case outcome of
             Inr _ \<Rightarrow>
               (let n = sat_add (connects st) 1
                in (publish_status ck ch (status_connected n),
                    st\<lparr>failures := 0, backoff := secs 1, connects := n,
                       loop_phase := Session (sent_at ck)\<rparr>))
           | Inl e \<Rightarrow>
               (let f = sat_add (failures st) 1;
                    t = sat_add (total_failures st) 1;
                    out = publish_status ck ch (status_degraded (connects st) f t (backoff st) e);
                    (out', sent) = maybe_emit_fallback_sync ck ch opts f (last_fallback_sent st)
                in (out @ out',
                    st\<lparr>failures := f, total_failures := t, last_fallback_sent := sent,
                       loop_phase := Backing_Off\<rparr>))))"

text \<open>Leaving the read loop with a reason: the code after the inner loop.\<close>

definition lose_connection ::
  "NotificationOptions \<Rightarrow> clocks \<Rightarrow> chan \<Rightarrow> string \<Rightarrow> loop_state \<Rightarrow> emitted \<times> loop_state" where
  "lose_connection opts ck ch disconnect_reason st =
     (let (out, sent) = emit_recovery_sync ck ch opts (last_fallback_sent st)
      in (out @ publish_status ck ch
            (status_degraded (connects st) (failures st) (total_failures st) (backoff st) disconnect_reason),
          st\<lparr>last_fallback_sent := sent, loop_phase := Backing_Off\<rparr>))"

definition contains :: "string \<Rightarrow> string \<Rightarrow> bool" where
  "contains pat s \<longleftrightarrow> split_once pat s \<noteq> None"

definition type_6 :: string where "type_6 = CHR 0x22 # ''type'' @ [CHR 0x22] @ '':6''"
definition type_6_spaced :: string where "type_6_spaced = CHR 0x22 # ''type'' @ [CHR 0x22] @ '': 6''"
definition text_pong :: string where "text_pong = ''{'' @ type_6 @ ''}'' @ [CHR 0x1E]"

definition session_message ::
  "'v msgpack \<Rightarrow> NotificationOptions \<Rightarrow> clocks \<Rightarrow> chan \<Rightarrow> message \<Rightarrow> instant \<Rightarrow>
     loop_state \<Rightarrow> (emitted \<times> loop_state) run" where
  "session_message mp opts ck ch msg last_seen st =
     (let seen = st\<lparr>loop_phase := Session (sent_at ck)\<rparr>
      in case msg of
        Binary data \<Rightarrow>
          (case parse_signalr_message mp data of
             Panics \<Rightarrow> Panics
           | Returns None \<Rightarrow> Returns ([], seen)
           | Returns (Some u) \<Rightarrow>
               if rx_alive ch then Returns ([(sent_at ck, Emit (event_of_update u))], seen)
               else Returns (publish_status ck ch status_stopped, st\<lparr>loop_phase := Returned\<rparr>))
      | Text text \<Rightarrow>
          (let trimmed = trim_end_char (CHR 0x1E) text
           in if contains type_6 trimmed \<or> contains type_6_spaced trimmed
              then Returns ([(sent_at ck, Send (Text text_pong))], seen)
              else Returns ([], seen))
      | Ping data \<Rightarrow> Returns ([(sent_at ck, Send (Pong data))], seen)
      | Pong _ \<Rightarrow> Returns ([], seen)
      | Close None \<Rightarrow> Returns (lose_connection opts ck ch ''hub closed the socket'' st)
      | Close (Some reason) \<Rightarrow>
          Returns (lose_connection opts ck ch (''hub closed the socket: '' @ reason) st)
      | Frame \<Rightarrow> Returns ([], st))"

definition session_step ::
  "'v msgpack \<Rightarrow> NotificationOptions \<Rightarrow> clocks \<Rightarrow> chan \<Rightarrow> session_input \<Rightarrow> instant \<Rightarrow>
     loop_state \<Rightarrow> (emitted \<times> loop_state) run" where
  "session_step mp opts ck ch inp last_seen st =
     (case inp of
        Cancelled \<Rightarrow> Returns (publish_status ck ch status_stopped, st\<lparr>loop_phase := Returned\<rparr>)
      | KeepaliveTick None \<Rightarrow>
          Returns ([(sent_at ck, Send (Binary (create_signalr_ping mp)))], st)
      | KeepaliveTick (Some e) \<Rightarrow>
          Returns (lose_connection opts ck ch (''keepalive ping failed: '' @ e) st)
      | IdleTick \<Rightarrow>
          if checked ck - last_seen > idle_timeout opts
          then (case lose_connection opts ck ch
                  (''no hub traffic for '' @ show_nat (as_secs (checked ck - last_seen)) @ ''s'') st of
                  (out, st') \<Rightarrow> Returns ((sent_at ck, CloseSocket) # out, st'))
          else Returns ([], st)
      | Msg msg \<Rightarrow> session_message mp opts ck ch msg last_seen st
      | SocketError e \<Rightarrow> Returns (lose_connection opts ck ch (''socket error: '' @ e) st)
      | StreamEnded \<Rightarrow> Returns (lose_connection opts ck ch ''hub ended the stream'' st))"

definition wait_step :: "NotificationOptions \<Rightarrow> loop_state \<Rightarrow> loop_state" where
  "wait_step opts st =
     st\<lparr>backoff := min (backoff st * 2) (reconnect_max_backoff opts), loop_phase := Head False\<rparr>"

text \<open>One step of \<open>run_message_loop\<close>; an input that does not fit the phase leaves it waiting.\<close>

definition loop_step ::
  "'v msgpack \<Rightarrow> NotificationOptions \<Rightarrow> string result \<Rightarrow> (step_env \<times> loop_input) \<Rightarrow>
     loop_state \<Rightarrow> (emitted \<times> loop_state) run" where
  "loop_step mp opts ws_url = (\<lambda>(env, inp) st.
     (case (loop_phase st, inp) of
        (Head initial, AtHead c outcome) \<Rightarrow>
          Returns (head_step opts ws_url (env_clocks env) (env_chan env) c outcome initial st)
      | (Session last_seen, InSession s) \<Rightarrow>
          session_step mp opts (env_clocks env) (env_chan env) s last_seen st
      | (Backing_Off, WaitOver) \<Rightarrow> Returns ([], wait_step opts st)
      | _ \<Rightarrow> Returns ([], st)))"

text \<open>\<open>run_message_loop\<close> driven by a list of inputs; a panic ends the run.\<close>

fun run_message_loop ::
  "'v msgpack \<Rightarrow> NotificationOptions \<Rightarrow> string result \<Rightarrow> (step_env \<times> loop_input) list \<Rightarrow>
     loop_state \<Rightarrow> (emitted \<times> loop_state) run" where
  "run_message_loop mp opts ws_url [] st = Returns ([], st)"
| "run_message_loop mp opts ws_url (i # is) st =
     (case loop_step mp opts ws_url i st of
        Panics \<Rightarrow> Panics
      | Returns (out, st') \<Rightarrow>
          (case run_message_loop mp opts ws_url is st' of
             Panics \<Rightarrow> Panics
           | Returns (out', st'') \<Rightarrow> Returns (out @ out', st'')))"


section \<open>Connecting\<close>

text \<open>What the network answers: \<open>None\<close> where the ten-second timeout strikes first.\<close>

record dial =
  dial_connect :: "unit result option"
  dial_send :: "unit result"
  dial_read :: "message result option option"
    \<comment> \<open>timeout, or the stream's end, or its next item\<close>

definition handshake_text :: string where
  "handshake_text = ''{'' @ [CHR 0x22] @ ''protocol'' @ [CHR 0x22] @ '':'' @ [CHR 0x22] @ ''messagepack''
     @ [CHR 0x22] @ '','' @ [CHR 0x22] @ ''version'' @ [CHR 0x22] @ '':1}'' @ [CHR 0x1E]"

definition send_initial_message :: "dial \<Rightarrow> message list \<times> unit result" where
  "send_initial_message d =
     ([Text handshake_text], context_msg ''Failed to send SignalR handshake'' (dial_send d))"

definition connect_and_initialize :: "(message \<Rightarrow> string) \<Rightarrow> dial \<Rightarrow> unit result" where
  "connect_and_initialize show_message d =
     bind_res (ok_or ''Notification hub connect timeout'' (dial_connect d)) (\<lambda>c.
     bind_res (context_msg ''Failed to connect to notification hub'' c) (\<lambda>_.
     bind_res (snd (send_initial_message d)) (\<lambda>_.
     bind_res (ok_or ''Handshake timeout'' (dial_read d)) (\<lambda>r.
     bind_res (ok_or ''WebSocket closed during handshake'' r) (\<lambda>m.
     bind_res (context_msg ''WebSocket error during handshake'' m) (\<lambda>handshake_resp.
       if \<not> is_handshake_response handshake_resp
       then Inl (''Unexpected notification handshake response: '' @ show_message handshake_resp)
       else Inr ()))))))"

text \<open>
  \<open>connect_with_options\<close>: the connecting status, one eager attempt, and the start of the
  background loop whether or not the attempt succeeded.
\<close>

definition connect_with_options ::
  "(message \<Rightarrow> string) \<Rightarrow> string \<Rightarrow> string \<Rightarrow> clocks \<Rightarrow> chan \<Rightarrow> dial \<Rightarrow> (emitted \<times> loop_state) result" where
  "connect_with_options show_message notifications_url access_token ck ch d =
     (let out = publish_status ck ch status_connecting
      in bind_res (build_ws_url notifications_url access_token) (\<lambda>_.
         let initial_connection = is_ok (connect_and_initialize show_message d);
             (out', st) = loop_init ck ch initial_connection
         in Inr (out @ out', st)))"

inductive hub_reaches :: "'v msgpack \<Rightarrow> NotificationOptions \<Rightarrow> string result \<Rightarrow> loop_state \<Rightarrow> bool"
  for mp opts ws_url where
  start: "hub_reaches mp opts ws_url (snd (loop_init ck ch initial))"
| step: "hub_reaches mp opts ws_url st \<Longrightarrow> loop_step mp opts ws_url i st = Returns (out, st') \<Longrightarrow>
    hub_reaches mp opts ws_url st'"

section \<open>Pacing\<close>

text \<open>
  The contract of a paced emitter: a step that emits does so once, at an instant it remembers, and
  only when the remembered instant is at least an interval old. Any sequence of such steps emits at
  instants an interval apart.
\<close>

locale paced =
  fixes step :: "'i \<Rightarrow> 's \<Rightarrow> (instant list \<times> 's) option"
    and last_of :: "'s \<Rightarrow> instant option"
    and interval :: duration
    and in_ok :: "'i \<Rightarrow> bool"
  assumes quiet_or_paced: "step i s = Some (ts, s') \<Longrightarrow> in_ok i \<Longrightarrow>
      ts = [] \<and> last_of s' = last_of s \<or>
      (\<exists>t. (ts = [] \<or> ts = [t]) \<and> last_of s' = Some t \<and> 0 < interval \<and>
           (\<forall>l. last_of s = Some l \<longrightarrow> l + interval \<le> t))"
begin

fun paced_run :: "'i list \<Rightarrow> 's \<Rightarrow> (instant list \<times> 's) option" where
  "paced_run [] s = Some ([], s)"
| "paced_run (i # is) s =
     (case step i s of
        None \<Rightarrow> None
      | Some (ts, s') \<Rightarrow> map_option (\<lambda>(ts', s''). (ts @ ts', s'')) (paced_run is s'))"

lemma paced_run_spaced:
  assumes "paced_run is s = Some (ts, s')" and "\<forall>i \<in> set is. in_ok i"
  shows "sorted_wrt (\<lambda>a b. a + interval \<le> b) ts
       \<and> (\<forall>l. last_of s = Some l \<longrightarrow> (\<forall>t \<in> set ts. l + interval \<le> t))
       \<and> (interval = 0 \<longrightarrow> ts = [])"
  using assms
proof (induction "is" arbitrary: s ts)
  case (Cons i "is")
  then obtain us sm vs where st: "step i s = Some (us, sm)"
    and run: "paced_run is sm = Some (vs, s')" and ts: "ts = us @ vs"
    by (auto split: option.splits)
  have IH: "sorted_wrt (\<lambda>a b. a + interval \<le> b) vs"
    "\<forall>l. last_of sm = Some l \<longrightarrow> (\<forall>t \<in> set vs. l + interval \<le> t)" "interval = 0 \<longrightarrow> vs = []"
    using Cons.IH [OF run] Cons.prems(2) by auto
  from quiet_or_paced [OF st] Cons.prems(2) show ?case
    using IH ts by (fastforce simp: sorted_wrt_append)
qed simp

end

definition fallbacks :: "emitted \<Rightarrow> instant list" where
  "fallbacks out = map fst (filter (\<lambda>(_, e). e = Emit FallbackSyncDue) out)"

lemma fallbacks_simps [simp]:
  "fallbacks [] = []"
  "fallbacks (x # xs) = (if snd x = Emit FallbackSyncDue then fst x # fallbacks xs else fallbacks xs)"
  "fallbacks (xs @ ys) = fallbacks xs @ fallbacks ys"
  by (auto simp: fallbacks_def split: prod.splits)

lemma fallbacks_publish [simp]: "fallbacks (publish_status ck ch s) = []"
  by (simp add: publish_status_def)

definition step_fallbacks ::
  "'v msgpack \<Rightarrow> NotificationOptions \<Rightarrow> string result \<Rightarrow> (step_env \<times> loop_input) \<Rightarrow> loop_state \<Rightarrow>
     (instant list \<times> loop_state) option" where
  "step_fallbacks mp opts ws_url i st =
     (case loop_step mp opts ws_url i st of
        Panics \<Rightarrow> None | Returns (out, st') \<Rightarrow> Some (fallbacks out, st'))"

definition clock_ok :: "step_env \<times> 'i \<Rightarrow> bool" where
  "clock_ok i \<longleftrightarrow> checked (env_clocks (fst i)) \<le> sent_at (env_clocks (fst i))"

text \<open>An emission of a fallback sync is either skipped or stamps its instant.\<close>

definition paced_out :: "duration \<Rightarrow> emitted \<Rightarrow> instant option \<Rightarrow> instant option \<Rightarrow> bool" where
  "paced_out interval out old new \<longleftrightarrow>
     fallbacks out = [] \<and> new = old \<or>
     (\<exists>t. (fallbacks out = [] \<or> fallbacks out = [t]) \<and> new = Some t \<and> 0 < interval \<and>
        (\<forall>l. old = Some l \<longrightarrow> l + interval \<le> t))"

lemma emit_recovery_sync_paced:
  assumes "emit_recovery_sync ck ch opts old = (out, new)" and "checked ck \<le> sent_at ck"
  shows "paced_out (fallback_sync_interval opts) out old new"
  using assms
  by (auto simp: emit_recovery_sync_def paced_out_def recovery_sync_due_def
      split: if_splits option.splits)

lemma maybe_emit_paced:
  assumes "maybe_emit_fallback_sync ck ch opts f old = (out, new)" and "checked ck \<le> sent_at ck"
  shows "paced_out (fallback_sync_interval opts) out old new"
  using assms emit_recovery_sync_paced
  by (auto simp: maybe_emit_fallback_sync_def paced_out_def split: if_splits)

lemma paced_out_weave:
  "fallbacks xs = [] \<Longrightarrow> fallbacks ys = [] \<Longrightarrow>
   paced_out d (xs @ out @ ys) old new = paced_out d out old new"
  by (simp add: paced_out_def)

lemma paced_out_quiet: "fallbacks out = [] \<Longrightarrow> paced_out d out old old"
  by (simp add: paced_out_def)

lemma paced_out_Nil [simp]: "paced_out d [] old old"
  by (simp add: paced_out_quiet)

lemma lose_connection_paced:
  assumes "lose_connection opts ck ch r st = (out, st')" and "checked ck \<le> sent_at ck"
  shows "paced_out (fallback_sync_interval opts) out (last_fallback_sent st) (last_fallback_sent st')"
proof -
  obtain o1 new where e: "emit_recovery_sync ck ch opts (last_fallback_sent st) = (o1, new)" by fastforce
  from assms(1) emit_recovery_sync_paced [OF e assms(2)] show ?thesis
    by (auto simp: lose_connection_def e Let_def paced_out_def)
qed

lemma head_step_paced:
  assumes "head_step opts url ck ch c oc initial st = (out, st')" and "checked ck \<le> sent_at ck"
  shows "paced_out (fallback_sync_interval opts) out (last_fallback_sent st) (last_fallback_sent st')"
proof -
  obtain o1 new where e: "maybe_emit_fallback_sync ck ch opts (sat_add (failures st) 1)
    (last_fallback_sent st) = (o1, new)" by fastforce
  from assms(1) maybe_emit_paced [OF e assms(2)] show ?thesis
    by (auto simp: head_step_def e Let_def paced_out_def split: if_splits sum.splits)
qed

lemma session_message_paced:
  assumes "session_message mp opts ck ch msg l st = Returns (out, st')" and "checked ck \<le> sent_at ck"
  shows "paced_out (fallback_sync_interval opts) out (last_fallback_sent st) (last_fallback_sent st')"
proof (cases msg)
  case (Binary data)
  have "event_of_update u \<noteq> FallbackSyncDue" for u by (cases u) auto
  then show ?thesis
    using assms(1) Binary
    by (cases "parse_signalr_message mp data")
      (auto simp: session_message_def Let_def intro!: paced_out_quiet split: option.splits if_splits)
next
  case (Close r)
  then show ?thesis
    using assms(1) lose_connection_paced [OF _ assms(2)]
    by (cases r) (auto simp: session_message_def)
qed (use assms(1) in \<open>auto simp: session_message_def Let_def intro!: paced_out_quiet split: if_splits\<close>)

lemma session_step_paced:
  assumes "session_step mp opts ck ch inp l st = Returns (out, st')" and "checked ck \<le> sent_at ck"
  shows "paced_out (fallback_sync_interval opts) out (last_fallback_sent st) (last_fallback_sent st')"
proof (cases inp)
  case (KeepaliveTick e)
  then show ?thesis
    using assms(1) lose_connection_paced [OF _ assms(2)]
    by (cases e) (auto simp: session_step_def intro!: paced_out_quiet)
next
  case IdleTick
  then show ?thesis
    using assms(1) lose_connection_paced [OF _ assms(2)] paced_out_weave [of "[(sent_at ck, CloseSocket)]" "[]"]
    by (auto simp: session_step_def intro!: paced_out_quiet split: if_splits prod.splits)
next
  case (Msg m)
  then show ?thesis
    using assms(1) session_message_paced [OF _ assms(2)] by (simp add: session_step_def)
qed (use assms(1) lose_connection_paced [OF _ assms(2)] in
  \<open>auto simp: session_step_def intro!: paced_out_quiet\<close>)

lemma loop_step_paced:
  assumes "loop_step mp opts url i st = Returns (out, st')" and "clock_ok i"
  shows "paced_out (fallback_sync_interval opts) out (last_fallback_sent st) (last_fallback_sent st')"
  using assms head_step_paced session_step_paced
  by (auto simp: loop_step_def clock_ok_def wait_step_def intro: paced_out_quiet
      split: prod.splits phase.splits loop_input.splits)

interpretation hub: paced "step_fallbacks mp opts ws_url" last_fallback_sent
  "fallback_sync_interval opts" clock_ok for mp opts ws_url
proof (unfold_locales, goal_cases)
  case (1 i s ts s')
  then obtain out where "loop_step mp opts ws_url i s = Returns (out, s')" and "ts = fallbacks out"
    by (auto simp: step_fallbacks_def split: run.splits)
  with loop_step_paced [of mp opts ws_url i s out s'] 1(2) show ?case
    by (simp add: paced_out_def)
qed

lemma run_message_loop_paced_run:
  "run_message_loop mp opts ws_url is st = Returns (out, st') \<Longrightarrow>
   paced.paced_run (step_fallbacks mp opts ws_url) is st = Some (fallbacks out, st')"
  by (induction "is" arbitrary: st out)
    (auto simp: hub.paced_run.simps step_fallbacks_def split: run.splits)


section \<open>Invariants of the loop\<close>

definition loop_ok :: "NotificationOptions \<Rightarrow> loop_state \<Rightarrow> bool" where
  "loop_ok opts st \<longleftrightarrow>
     (case loop_phase st of
        Session _ \<Rightarrow> failures st = 0 \<and> connects st \<noteq> 0
      | Head initial \<Rightarrow> initial \<longrightarrow> failures st = 0 \<and> connects st \<noteq> 0
      | _ \<Rightarrow> True)
     \<and> unat (failures st) \<le> unat (total_failures st)
     \<and> (secs 1 \<le> reconnect_max_backoff opts \<longrightarrow>
          secs 1 \<le> backoff st \<and> backoff st \<le> reconnect_max_backoff opts)"

text \<open>What a published status says about the state the loop is in.\<close>

definition truthful :: "NotificationStatus \<Rightarrow> loop_state \<Rightarrow> bool" where
  "truthful s st \<longleftrightarrow>
     (case ns_state s of
        Connected \<Rightarrow> (\<exists>l. loop_phase st = Session l) \<and> s = status_connected (connects st)
      | Degraded \<Rightarrow> loop_phase st \<in> {Backing_Off, Returned} \<and>
          (\<exists>e. s = status_degraded (connects st) (failures st) (total_failures st) (backoff st) e)
      | Stopped \<Rightarrow> loop_phase st = Returned
      | _ \<Rightarrow> False)"

definition statuses :: "emitted \<Rightarrow> NotificationStatus set" where
  "statuses out = {s. \<exists>t. (t, Emit (ConnectionStatus s)) \<in> set out}"

lemma statuses_simps [simp]:
  "statuses [] = {}"
  "statuses ((t, Emit (ConnectionStatus s)) # xs) = insert s (statuses xs)"
  "statuses ((t, Emit FallbackSyncDue) # xs) = statuses xs"
  "statuses ((t, Send m) # xs) = statuses xs"
  "statuses ((t, CloseSocket) # xs) = statuses xs"
  "statuses ((t, Emit (event_of_update u)) # xs) = statuses xs"
  "statuses (xs @ ys) = statuses xs \<union> statuses ys"
  by (cases u; auto simp: statuses_def)+

lemma statuses_publish: "s \<in> statuses (publish_status ck ch s') \<Longrightarrow> s = s'"
  by (auto simp: publish_status_def split: if_splits)

lemma statuses_recovery [simp]: "statuses (fst (emit_recovery_sync ck ch opts old)) = {}"
  by (simp add: emit_recovery_sync_def)

lemma statuses_maybe [simp]: "statuses (fst (maybe_emit_fallback_sync ck ch opts f old)) = {}"
  by (simp add: maybe_emit_fallback_sync_def)

lemma sat_add_1_pos: "sat_add n 1 \<noteq> 0" for n :: u64
proof
  assume "sat_add n 1 = 0"
  then have "unat (sat_add n 1) = 0" by simp
  then show False by (simp add: unat_sat_add)
qed

lemma sat_add_1_mono: "unat a \<le> unat b \<Longrightarrow> unat (sat_add a 1) \<le> unat (sat_add b 1)" for a b :: u32
  by (simp add: unat_sat_add)

lemma head_step_ok:
  assumes "head_step opts url ck ch c oc initial st = (out, st')" and "loop_phase st = Head initial"
    and "loop_ok opts st"
  shows "loop_ok opts st' \<and> (\<forall>s \<in> statuses out. truthful s st')"
proof -
  obtain o1 new where e: "maybe_emit_fallback_sync ck ch opts (sat_add (failures st) 1)
    (last_fallback_sent st) = (o1, new)" by fastforce
  then have o1: "statuses o1 = {}" using statuses_maybe by (metis fst_conv)
  from assms show ?thesis
    by (auto simp: head_step_def e o1 Let_def loop_ok_def truthful_def status_defs sat_add_1_pos
        sat_add_1_mono dest!: statuses_publish split: if_splits sum.splits)
qed

lemma lose_connection_ok:
  assumes "lose_connection opts ck ch r st = (out, st')" and "loop_ok opts st"
  shows "loop_ok opts st' \<and> (\<forall>s \<in> statuses out. truthful s st')"
proof -
  obtain o1 new where e: "emit_recovery_sync ck ch opts (last_fallback_sent st) = (o1, new)" by fastforce
  then have o1: "statuses o1 = {}" using statuses_recovery by (metis fst_conv)
  from assms show ?thesis
    by (auto simp: lose_connection_def e o1 Let_def loop_ok_def truthful_def status_defs
        dest!: statuses_publish split: phase.splits)
qed

lemma loop_ok_session [simp]:
  "loop_phase st = Session l \<Longrightarrow> loop_ok opts (st\<lparr>loop_phase := Session l'\<rparr>) = loop_ok opts st"
  by (simp add: loop_ok_def)

lemma loop_ok_returned: "loop_ok opts st \<Longrightarrow> loop_ok opts (st\<lparr>loop_phase := Returned\<rparr>)"
  by (simp add: loop_ok_def)

lemma truthful_stopped [simp]: "truthful status_stopped (st\<lparr>loop_phase := Returned\<rparr>)"
  by (simp add: truthful_def status_defs)

lemma session_message_ok:
  assumes "session_message mp opts ck ch msg l st = Returns (out, st')" and "loop_phase st = Session l"
    and "loop_ok opts st"
  shows "loop_ok opts st' \<and> (\<forall>s \<in> statuses out. truthful s st')"
proof (cases msg)
  case (Binary data)
  then show ?thesis
    using assms
    by (cases "parse_signalr_message mp data")
      (auto simp: session_message_def Let_def loop_ok_returned dest!: statuses_publish
        split: option.splits if_splits)
next
  case (Close r)
  then show ?thesis
    using assms(1) lose_connection_ok [OF _ assms(3)]
    by (cases r) (auto simp: session_message_def)
qed (use assms in \<open>auto simp: session_message_def Let_def split: if_splits\<close>)

lemma session_step_ok:
  assumes "session_step mp opts ck ch inp l st = Returns (out, st')" and "loop_phase st = Session l"
    and "loop_ok opts st"
  shows "loop_ok opts st' \<and> (\<forall>s \<in> statuses out. truthful s st')"
proof (cases inp)
  case (KeepaliveTick e)
  then show ?thesis
    using assms lose_connection_ok [OF _ assms(3)]
    by (cases e) (auto simp: session_step_def)
next
  case IdleTick
  then show ?thesis
    using assms(1,3) lose_connection_ok [OF _ assms(3)]
    by (auto simp: session_step_def split: if_splits prod.splits)
next
  case (Msg m)
  then show ?thesis
    using assms(1) session_message_ok [OF _ assms(2,3)] by (simp add: session_step_def)
qed (use assms lose_connection_ok [OF _ assms(3)] in
  \<open>auto simp: session_step_def loop_ok_returned dest!: statuses_publish\<close>)

lemma wait_step_ok: "loop_ok opts st \<Longrightarrow> loop_ok opts (wait_step opts st)"
  by (auto simp: loop_ok_def wait_step_def intro: order_trans)

lemma loop_step_ok:
  assumes "loop_step mp opts url i st = Returns (out, st')" and "loop_ok opts st"
  shows "loop_ok opts st' \<and> (\<forall>s \<in> statuses out. truthful s st')"
  using assms head_step_ok session_step_ok [of mp opts]
  by (auto simp: loop_step_def wait_step_ok split: prod.splits phase.splits loop_input.splits)

lemma reaches_ok: "hub_reaches mp opts ws_url st \<Longrightarrow> loop_ok opts st"
proof (induction rule: hub_reaches.induct)
  case (start ck ch initial)
  show ?case by (simp add: loop_init_def loop_ok_def Let_def)
next
  case (step st i out st')
  then show ?case using loop_step_ok by blast
qed


section \<open>Properties\<close>

lemma connected_iff_handshake:
  "connect_and_initialize sm d = Inr () \<longleftrightarrow>
     dial_connect d = Some (Inr ()) \<and> dial_send d = Inr () \<and>
     (\<exists>m. dial_read d = Some (Some (Inr m)) \<and> is_handshake_response m)"
  by (auto simp: connect_and_initialize_def send_initial_message_def bind_res_Inr_iff ok_or_Inr_iff
      split: if_splits)

definition demo_env :: "instant \<Rightarrow> step_env" where
  "demo_env t = \<lparr>env_clocks = \<lparr>checked = t, sent_at = t\<rparr>, env_chan = \<lparr>takes_status = True, rx_alive = True\<rparr>\<rparr>"

definition demo_start :: loop_state where
  "demo_start = snd (loop_init \<lparr>checked = 0, sent_at = 0\<rparr> \<lparr>takes_status = True, rx_alive = True\<rparr> True)"

definition demo_offline :: loop_state where
  "demo_offline = snd (loop_init \<lparr>checked = 0, sent_at = 0\<rparr> \<lparr>takes_status = True, rx_alive = True\<rparr> False)"

text \<open>Two losses in quick succession and a third one six minutes later.\<close>

definition demo_inputs :: "(step_env \<times> loop_input) list" where
  "demo_inputs =
     [(demo_env 0, AtHead False (Inr ())), (demo_env 1, InSession StreamEnded), (demo_env 2, WaitOver),
      (demo_env 2, AtHead False (Inr ())), (demo_env 3, InSession StreamEnded), (demo_env 4, WaitOver),
      (demo_env 5, AtHead False (Inr ())), (demo_env (secs 360), InSession (SocketError ''reset''))]"

text \<open>
  C11: fallback syncs are paced. In every run of the client, whatever the socket does, two requests
  for a fallback sync are at least the configured interval apart, and an interval of zero disables
  them: a flapping connection cannot multiply the sync rate.
\<close>

theorem fallback_syncs_paced:
  assumes "run_message_loop mp opts ws_url is st = Returns (out, st')"
    and "\<forall>i \<in> set is. clock_ok i"
  shows "sorted_wrt (\<lambda>a b. a + fallback_sync_interval opts \<le> b) (fallbacks out)
       \<and> (fallback_sync_interval opts = 0 \<longrightarrow> fallbacks out = [])"
  using hub.paced_run_spaced [OF run_message_loop_paced_run [OF assms(1)] assms(2)] by blast

theorem fallback_syncs_paced_witness:
  "\<exists>out st'. run_message_loop demo_mp options_default (Inr ''wss://h'') demo_inputs demo_start = Returns (out, st')
     \<and> fallbacks out = [1, secs 360] \<and> sorted_wrt (\<lambda>a b. a + fallback_sync_interval options_default \<le> b) (fallbacks out)"
proof -
  have "\<exists>out st'. run_message_loop demo_mp options_default (Inr ''wss://h'') demo_inputs demo_start = Returns (out, st')
      \<and> fallbacks out = [1, secs 360]"
    by (simp add: demo_inputs_def demo_start_def demo_env_def options_default_def loop_init_def
        loop_step_def head_step_def session_step_def lose_connection_def emit_recovery_sync_def
        recovery_sync_due_def publish_status_def wait_step_def Let_def secs_def)
  then obtain out st' where r: "run_message_loop demo_mp options_default (Inr ''wss://h'') demo_inputs demo_start
      = Returns (out, st')" and f: "fallbacks out = [1, secs 360]" by blast
  have "\<forall>i \<in> set demo_inputs. clock_ok i"
    by (simp add: demo_inputs_def clock_ok_def demo_env_def)
  from fallback_syncs_paced [OF r this] r f show ?thesis by blast
qed

text \<open>
  The published status is the truth. In every reachable state the loop is either disconnected or
  has a positive connect count and no outstanding failures, the consecutive failures never exceed
  the total, and the backoff stays between one second and the configured maximum; and every status a
  step publishes describes the state the step ends in: connected only in a live session with its
  connect count, degraded only when the session is over with the exact counters and retry delay,
  stopped only when the loop has returned.
\<close>

theorem hub_status_truthful:
  assumes "hub_reaches mp opts ws_url st"
    and "loop_step mp opts ws_url i st = Returns (out, st')"
  shows "loop_ok opts st \<and> loop_ok opts st' \<and> (\<forall>s \<in> statuses out. truthful s st')"
  using reaches_ok [OF assms(1)] loop_step_ok [OF assms(2)] by blast

theorem hub_status_truthful_witness:
  "\<exists>out st'. loop_step demo_mp options_default (Inr ''wss://h'')
      (demo_env 9, AtHead False (Inl ''refused'')) demo_offline = Returns (out, st')
    \<and> out = [(9, Emit (ConnectionStatus (status_degraded 0 1 1 (secs 1) ''refused'')))]
    \<and> (\<forall>s \<in> statuses out. truthful s st')"
proof -
  have "hub_reaches demo_mp options_default (Inr ''wss://h'') demo_offline"
    unfolding demo_offline_def by (rule hub_reaches.start)
  moreover
  have "\<exists>st'. loop_step demo_mp options_default (Inr ''wss://h'')
      (demo_env 9, AtHead False (Inl ''refused'')) demo_offline
      = Returns ([(9, Emit (ConnectionStatus (status_degraded 0 1 1 (secs 1) ''refused'')))], st')"
    by (simp add: loop_step_def head_step_def demo_offline_def loop_init_def publish_status_def demo_env_def
        maybe_emit_fallback_sync_def options_default_def Let_def sat_add_def)
  ultimately show ?thesis using hub_status_truthful by blast
qed

text \<open>
  Nothing is lost silently. When a session ends for any reason but cancellation, the client asks
  for a recovery sync at once, unless such syncs are disabled, the previous request is younger than
  the interval, or nobody listens any more; and an event read from a frame is always put on the
  channel as long as the receiver exists.
\<close>

theorem session_loss_requests_recovery:
  assumes "session_step mp opts ck ch inp l st = Returns (out, st')"
    and "loop_phase st = Session l"
  shows "(loop_phase st' = Backing_Off \<and> rx_alive ch \<and> 0 < fallback_sync_interval opts \<and>
            (\<forall>s. last_fallback_sent st = Some s \<longrightarrow> s + fallback_sync_interval opts \<le> checked ck) \<longrightarrow>
          fallbacks out = [sent_at ck] \<and> last_fallback_sent st' = Some (sent_at ck))
       \<and> (\<forall>data u. inp = Msg (Binary data) \<and> parse_signalr_message mp data = Returns (Some u) \<and> rx_alive ch \<longrightarrow>
            out = [(sent_at ck, Emit (event_of_update u))])"
proof -
  let ?due = "rx_alive ch \<and> 0 < fallback_sync_interval opts \<and>
    (\<forall>s. last_fallback_sent st = Some s \<longrightarrow> s + fallback_sync_interval opts \<le> checked ck)"
  let ?asked = "\<lambda>out st'. fallbacks out = [sent_at ck] \<and> last_fallback_sent st' = Some (sent_at ck)"
  have due: "recovery_sync_due (checked ck) (last_fallback_sent st) (fallback_sync_interval opts)" if ?due
    using that by (auto simp: recovery_sync_due_def le_diff_conv2 split: option.splits)
  have lose: "?asked out st'" if ?due and "lose_connection opts ck ch r st = (out, st')" for r out st'
    using that due by (auto simp: lose_connection_def emit_recovery_sync_def Let_def)
  have "?asked out st'" if due: ?due and b: "loop_phase st' = Backing_Off"
  proof (cases inp)
    case (KeepaliveTick e)
    then show ?thesis
      using assms b lose [OF due] by (cases e) (auto simp: session_step_def)
  next
    case IdleTick
    then show ?thesis
      using assms b lose [OF due] by (auto simp: session_step_def split: if_splits prod.splits)
  next
    case (Msg m)
    show ?thesis
    proof (cases m)
      case (Close r)
      with Msg show ?thesis
        using assms b lose [OF due] by (cases r) (auto simp: session_step_def session_message_def)
    qed (use assms b Msg in \<open>auto simp: session_step_def session_message_def Let_def
          split: option.splits if_splits run.splits\<close>)
  qed (use assms b lose [OF due] in \<open>auto simp: session_step_def\<close>)
  moreover have "out = [(sent_at ck, Emit (event_of_update u))]"
    if "inp = Msg (Binary data)" "parse_signalr_message mp data = Returns (Some u)" "rx_alive ch" for data u
    using assms(1) that by (simp add: session_step_def session_message_def Let_def)
  ultimately show ?thesis by blast
qed

theorem session_loss_requests_recovery_witness:
  "\<exists>out st'. session_step demo_mp options_default \<lparr>checked = 5, sent_at = 6\<rparr> \<lparr>takes_status = False, rx_alive = True\<rparr>
      StreamEnded 0 (demo_start\<lparr>loop_phase := Session 0\<rparr>) = Returns (out, st') \<and> fallbacks out = [6]"
proof -
  let ?ck = "\<lparr>checked = 5, sent_at = 6\<rparr>" and ?ch = "\<lparr>takes_status = False, rx_alive = True\<rparr>"
  let ?st = "demo_start\<lparr>loop_phase := Session 0\<rparr>"
  have f: "last_fallback_sent ?st = None" by (simp add: demo_start_def loop_init_def)
  obtain out st' where r: "session_step demo_mp options_default ?ck ?ch StreamEnded 0 ?st = Returns (out, st')"
    and b: "loop_phase st' = Backing_Off"
    by (auto simp: session_step_def lose_connection_def split_beta)
  have "fallbacks out = [6]"
    using session_loss_requests_recovery [OF r] b f by (simp add: options_default_def secs_def)
  with r show ?thesis by blast
qed

end
