(* ===== verification/Control_Proto.thy ===== *)
theory Control_Proto
  imports Rust_Text
begin

text \<open>
  \<open>crates/sshwarden-agent/src/control.rs\<close>: the control channel's responses and actions, and the
  path from a line on the socket to an action of the daemon. JSON (serde) is a function argument;
  the main loop behind the channel is an argument too: it is gone, or it drops the request, or it
  answers.
\<close>

datatype json = JNull | JBool bool | JNum nat | JStr string | JArr "json list" | JObj "(string \<times> json) list"
  \<comment> \<open>\<open>serde_json::Value\<close> as far as the program builds it\<close>

record ControlResponse =
  resp_ok :: bool
  resp_message :: "string option"
  resp_error :: "string option"
  resp_locked :: "bool option"
  resp_key_count :: "nat option"
  resp_details :: "json option"

definition ctl_ok :: "string \<Rightarrow> ControlResponse" where
  "ctl_ok m = \<lparr>resp_ok = True, resp_message = Some m, resp_error = None, resp_locked = None,
     resp_key_count = None, resp_details = None\<rparr>"

definition ctl_err :: "string \<Rightarrow> ControlResponse" where
  "ctl_err e = \<lparr>resp_ok = False, resp_message = None, resp_error = Some e, resp_locked = None,
     resp_key_count = None, resp_details = None\<rparr>"

definition ctl_status :: "bool \<Rightarrow> nat \<Rightarrow> ControlResponse" where
  "ctl_status locked n = \<lparr>resp_ok = True,
     resp_message = Some (if locked then ''Vault is locked'' else ''Vault is unlocked''),
     resp_error = None, resp_locked = Some locked, resp_key_count = Some n, resp_details = None\<rparr>"

definition with_details :: "json \<Rightarrow> ControlResponse \<Rightarrow> ControlResponse" where
  "with_details j r = r\<lparr>resp_details := Some j\<rparr>"

lemmas ctl_defs = ctl_ok_def ctl_err_def ctl_status_def with_details_def

lemma resp_ok_simps [simp]:
  "resp_ok (ctl_ok m)" "\<not> resp_ok (ctl_err e)" "resp_ok (ctl_status l n)"
  "resp_ok (with_details j r) = resp_ok r"
  by (simp_all add: ctl_defs)

datatype ControlAction =
    ALock
  | AUnlock
  | AUnlockPin string
  | AUnlockHello
  | AUnlockNative
  | AUnlockPassword string
  | AStatus bool
  | ASync
  | ASetPin string
  | AForget bool
  | AStop
  | ABindHostsDialog

text \<open>The arms of the \<open>match\<close> on the command text: the fixed words first, then the prefixes.\<close>

definition fixed_commands :: "(string \<times> ControlAction) list" where
  "fixed_commands =
     [(''lock'', ALock), (''unlock'', AUnlock), (''unlock-hello'', AUnlockHello),
      (''unlock-native'', AUnlockNative), (''status'', AStatus False), (''status-json'', AStatus True),
      (''sync'', ASync), (''forget'', AForget False), (''forget-shared'', AForget True),
      (''stop'', AStop), (''bind-hosts-dialog'', ABindHostsDialog)]"

definition action_of_command :: "string \<Rightarrow> ControlAction option" where
  "action_of_command cmd =
     (case map_of fixed_commands cmd of
        Some a \<Rightarrow> Some a
      | None \<Rightarrow>
          (case strip_prefix ''unlock-pin:'' cmd of
             Some pin \<Rightarrow> Some (AUnlockPin pin)
           | None \<Rightarrow>
               (case strip_prefix ''unlock-password:'' cmd of
                  Some password \<Rightarrow> Some (AUnlockPassword password)
                | None \<Rightarrow> map_option ASetPin (strip_prefix ''set-pin:'' cmd))))"

datatype main_loop = Gone | Drops | Replies "ControlAction \<Rightarrow> ControlResponse"

definition dispatch_control_command :: "main_loop \<Rightarrow> string \<Rightarrow> ControlResponse" where
  "dispatch_control_command tx cmd =
     (case action_of_command cmd of
        None \<Rightarrow> ctl_err (''Unknown command: '' @ cmd)
      | Some action \<Rightarrow>
          (case tx of
             Gone \<Rightarrow> ctl_err ''Agent is shutting down''
           | Drops \<Rightarrow> ctl_err ''Internal error: no reply from agent''
           | Replies f \<Rightarrow> f action))"

definition handle_control_line :: "(string \<Rightarrow> string result) \<Rightarrow> main_loop \<Rightarrow> string \<Rightarrow> ControlResponse" where
  "handle_control_line parse_command tx line =
     (case parse_command line of
        Inl e \<Rightarrow> ctl_err (''Invalid command: '' @ e)
      | Inr cmd \<Rightarrow> dispatch_control_command tx cmd)"

text \<open>
  One accepted connection of \<open>start_control_server\<close>: the peer's user id (or the failure to
  read it) is compared with our own, then at most \<open>MAX_CONTROL_LINE_BYTES\<close> bytes up to the first
  line feed are read and handled. \<open>None\<close> is a connection closed without a response; the second
  component says whether a command reached \<open>handle_control_line\<close>.
\<close>

definition MAX_CONTROL_LINE_BYTES :: nat where "MAX_CONTROL_LINE_BYTES = 64 * 1024"

fun first_line :: "bytes \<Rightarrow> bytes" where
  "first_line [] = []"
| "first_line (b # bs) = (if b = 10 then [b] else b # first_line bs)"

definition serve_control_connection ::
  "(string \<Rightarrow> string result) \<Rightarrow> main_loop \<Rightarrow> u32 \<Rightarrow> u32 result \<Rightarrow> bytes \<Rightarrow> ControlResponse option" where
  "serve_control_connection parse_command tx our_uid peer_uid received =
     (case peer_uid of
        Inl _ \<Rightarrow> None
      | Inr uid \<Rightarrow>
          if uid \<noteq> our_uid then None
          else let raw = first_line (take MAX_CONTROL_LINE_BYTES received)
               in if raw = [] then None
                  else case from_utf8 raw of
                         None \<Rightarrow> None
                       | Some line \<Rightarrow> Some (handle_control_line parse_command tx (trim line)))"

text \<open>The command line of an action, as the client sends it.\<close>

fun command_of_action :: "ControlAction \<Rightarrow> string" where
  "command_of_action ALock = ''lock''"
| "command_of_action AUnlock = ''unlock''"
| "command_of_action (AUnlockPin pin) = ''unlock-pin:'' @ pin"
| "command_of_action AUnlockHello = ''unlock-hello''"
| "command_of_action AUnlockNative = ''unlock-native''"
| "command_of_action (AUnlockPassword p) = ''unlock-password:'' @ p"
| "command_of_action (AStatus j) = (if j then ''status-json'' else ''status'')"
| "command_of_action ASync = ''sync''"
| "command_of_action (ASetPin pin) = ''set-pin:'' @ pin"
| "command_of_action (AForget s) = (if s then ''forget-shared'' else ''forget'')"
| "command_of_action AStop = ''stop''"
| "command_of_action ABindHostsDialog = ''bind-hosts-dialog''"

lemma action_of_command_of_action: "action_of_command (command_of_action a) = Some a"
  by (cases a) (simp_all add: action_of_command_def fixed_commands_def)

lemma fixed_commands_ok: "(c, a) \<in> set fixed_commands \<Longrightarrow> c = command_of_action a"
  by (auto simp: fixed_commands_def)

lemma command_injective:
  assumes "action_of_command cmd = Some a"
  shows "cmd = command_of_action a"
proof (cases "map_of fixed_commands cmd")
  case (Some b)
  then show ?thesis using assms fixed_commands_ok map_of_SomeD by (fastforce simp: action_of_command_def)
next
  case None
  then consider p where "strip_prefix ''unlock-pin:'' cmd = Some p" "a = AUnlockPin p"
    | p where "strip_prefix ''unlock-password:'' cmd = Some p" "a = AUnlockPassword p"
    | p where "strip_prefix ''set-pin:'' cmd = Some p" "a = ASetPin p"
    using assms unfolding action_of_command_def by (auto split: option.split_asm)
  then show ?thesis by cases (simp_all add: strip_prefix_Some_iff)
qed

text \<open>
  The command language is exactly the actions: every action has one command text, which is
  recognised as that action, and every other text is refused with its own name, without reaching
  the daemon. A PIN or password is passed on verbatim, colons and spaces included.
\<close>

theorem command_language_exact:
  "(action_of_command cmd = Some a \<longleftrightarrow> cmd = command_of_action a)
   \<and> dispatch_control_command (Replies f) (command_of_action a) = f a
   \<and> ((\<forall>b. cmd \<noteq> command_of_action b) \<longrightarrow>
        dispatch_control_command tx cmd = ctl_err (''Unknown command: '' @ cmd))"
proof -
  have "action_of_command cmd = None" if "\<forall>b. cmd \<noteq> command_of_action b"
    using that command_injective by (cases "action_of_command cmd") auto
  then show ?thesis
    using command_injective action_of_command_of_action
    by (auto simp: dispatch_control_command_def)
qed

theorem command_language_exact_witness:
  "action_of_command ''unlock-pin:12:34'' = Some (AUnlockPin ''12:34'')
   \<and> dispatch_control_command Drops ''LOCK'' = ctl_err ''Unknown command: LOCK''"
proof -
  have "''LOCK'' \<noteq> command_of_action b" for b by (cases b) simp_all
  then show ?thesis
    using command_language_exact [of "''unlock-pin:12:34''" "AUnlockPin ''12:34''"]
      command_language_exact [of "''LOCK''" ALock undefined Drops]
    by simp
qed

lemma first_line_stops: "first_line (line @ 10 # xs) = first_line (line @ [10])"
  by (induction line) auto

text \<open>
  C18: the control channel answers only its owner and reads a bounded line. A peer with another user
  id, or whose id cannot be read, gets no response; for our own user the response depends only on
  the first 64 KiB of what was received and on nothing after the first line feed.
\<close>

theorem control_channel_bounded_and_owner_only:
  "(peer \<noteq> Inr our_uid \<longrightarrow> serve_control_connection parse tx our_uid peer received = None)
   \<and> (MAX_CONTROL_LINE_BYTES \<le> length received \<longrightarrow>
        serve_control_connection parse tx our_uid peer (received @ extra)
          = serve_control_connection parse tx our_uid peer received)
   \<and> (length line < MAX_CONTROL_LINE_BYTES \<longrightarrow>
        serve_control_connection parse tx our_uid peer (line @ 10 # extra)
          = serve_control_connection parse tx our_uid peer (line @ [10]))"
proof -
  have cut: "first_line (take n (line @ 10 # extra)) = first_line (line @ [10])" if "length line < n" for n
  proof -
    have "take n (line @ 10 # extra) = line @ 10 # take (n - Suc (length line)) extra"
      using that by (simp add: take_Cons')
    then show ?thesis using first_line_stops [of line "take (n - Suc (length line)) extra"] by simp
  qed
  show ?thesis
  proof (intro conjI impI)
    assume "peer \<noteq> Inr our_uid"
    then show "serve_control_connection parse tx our_uid peer received = None"
      by (cases peer) (auto simp: serve_control_connection_def)
  next
    assume "MAX_CONTROL_LINE_BYTES \<le> length received"
    then show "serve_control_connection parse tx our_uid peer (received @ extra)
        = serve_control_connection parse tx our_uid peer received"
      by (cases peer) (simp_all add: serve_control_connection_def)
  next
    assume "length line < MAX_CONTROL_LINE_BYTES"
    then show "serve_control_connection parse tx our_uid peer (line @ 10 # extra)
        = serve_control_connection parse tx our_uid peer (line @ [10])"
      using cut [of MAX_CONTROL_LINE_BYTES] by (cases peer) (simp_all add: serve_control_connection_def)
  qed
qed

theorem control_channel_bounded_and_owner_only_witness:
  "serve_control_connection Inr Drops 1000 (Inr 0) (as_bytes ''lock'') = None
   \<and> serve_control_connection Inr Drops 1000 (Inr 1000) (as_bytes ''lock'' @ 10 # as_bytes ''stop'')
       = serve_control_connection Inr Drops 1000 (Inr 1000) (as_bytes ''lock'' @ [10])"
  using control_channel_bounded_and_owner_only [of "Inr 0" 1000 Inr Drops "as_bytes ''lock''"]
    control_channel_bounded_and_owner_only [of "Inr 1000" 1000 Inr Drops "[]" "as_bytes ''stop''" "as_bytes ''lock''"]
  by (simp add: MAX_CONTROL_LINE_BYTES_def)

end
