(* ===== verification/Runtime_State.thy ===== *)
theory Runtime_State
  imports Hub_Client Control_Proto
begin

text \<open>
  \<open>src/runtime.rs\<close>: the daemon's mirror of the notification connection, its one-line health label
  and JSON view, and the holder of the cache key; \<open>src/notifications.rs\<close>: the notification
  options and URL taken from the configuration and the (re)connection of the client.
\<close>

section \<open>The mirror\<close>

record NotificationRuntimeState =
  rs_state :: NotificationConnectionState
  rs_url :: "string option"
  rs_last_error :: "string option"
  rs_consecutive_failures :: u32
  rs_total_failures :: u32
  rs_next_retry_in_secs :: "nat option"
  rs_connects :: u64
  rs_last_connected_at :: "instant option"
  rs_last_event_at :: "instant option"
  rs_last_fallback_sync_at :: "instant option"
  rs_last_sync_at :: "instant option"
  rs_stale_cache :: bool
  rs_stale_cache_error :: "string option"

definition runtime_default :: NotificationRuntimeState where
  "runtime_default = \<lparr>rs_state = NotStarted, rs_url = None, rs_last_error = None,
     rs_consecutive_failures = 0, rs_total_failures = 0, rs_next_retry_in_secs = None,
     rs_connects = 0, rs_last_connected_at = None, rs_last_event_at = None,
     rs_last_fallback_sync_at = None, rs_last_sync_at = None, rs_stale_cache = False,
     rs_stale_cache_error = None\<rparr>"

definition begin_connect :: "string \<Rightarrow> NotificationRuntimeState \<Rightarrow> NotificationRuntimeState" where
  "begin_connect url s =
     s\<lparr>rs_state := Connecting, rs_url := Some url, rs_last_error := None, rs_next_retry_in_secs := None\<rparr>"

definition apply_status :: "instant \<Rightarrow> NotificationStatus \<Rightarrow> NotificationRuntimeState \<Rightarrow> NotificationRuntimeState" where
  "apply_status now st s =
     (let s' = s\<lparr>rs_state := ns_state st, rs_consecutive_failures := ns_consecutive_failures st,
                 rs_total_failures := ns_total_failures st,
                 rs_next_retry_in_secs := map_option as_secs (ns_next_retry_in st),
                 rs_last_error := ns_last_error st, rs_connects := ns_connects st\<rparr>
      in if ns_state st = Connected then s'\<lparr>rs_last_connected_at := Some now\<rparr> else s')"

definition mark_client_failed :: "string \<Rightarrow> NotificationRuntimeState \<Rightarrow> NotificationRuntimeState" where
  "mark_client_failed e s =
     s\<lparr>rs_state := Degraded, rs_last_error := Some e,
       rs_total_failures := sat_add (rs_total_failures s) 1,
       rs_consecutive_failures := sat_add (rs_consecutive_failures s) 1,
       rs_next_retry_in_secs := None\<rparr>"

definition record_event :: "instant \<Rightarrow> NotificationRuntimeState \<Rightarrow> NotificationRuntimeState" where
  "record_event now s = s\<lparr>rs_last_event_at := Some now\<rparr>"

definition record_fallback_sync :: "instant \<Rightarrow> NotificationRuntimeState \<Rightarrow> NotificationRuntimeState" where
  "record_fallback_sync now s = s\<lparr>rs_last_event_at := Some now, rs_last_fallback_sync_at := Some now\<rparr>"

definition record_successful_sync :: "instant \<Rightarrow> NotificationRuntimeState \<Rightarrow> NotificationRuntimeState" where
  "record_successful_sync now s = s\<lparr>rs_last_sync_at := Some now\<rparr>"

definition mark_cache_refreshed :: "NotificationRuntimeState \<Rightarrow> NotificationRuntimeState" where
  "mark_cache_refreshed s = s\<lparr>rs_stale_cache := False, rs_stale_cache_error := None\<rparr>"

definition mark_cache_stale :: "string \<Rightarrow> NotificationRuntimeState \<Rightarrow> NotificationRuntimeState" where
  "mark_cache_stale e s = s\<lparr>rs_stale_cache := True, rs_stale_cache_error := Some e\<rparr>"

definition runtime_reset :: "NotificationRuntimeState \<Rightarrow> NotificationRuntimeState" where
  "runtime_reset s = runtime_default"

section \<open>Rendering\<close>

definition pad2 :: "nat \<Rightarrow> string" where
  "pad2 n = (if n < 10 then ''0'' else '''') @ show_nat n"

definition humanize_age :: "nat \<Rightarrow> string" where
  "humanize_age s =
     (if s < 60 then show_nat s @ ''s''
      else if s < 3600 then show_nat (s div 60) @ ''m''
      else show_nat (s div 3600) @ ''h'' @ pad2 ((s mod 3600) div 60) @ ''m'')"

record NotificationHealth =
  nh_state :: string
  nh_connects :: u64
  nh_consecutive_failures :: u32
  nh_next_retry_in_secs :: "nat option"
  nh_last_error :: "string option"
  nh_up_for_secs :: "nat option"
  nh_authenticated :: bool

definition ellipsis :: string where "ellipsis = [CHR 0xE2, CHR 0x80, CHR 0xA6]"

definition notification_health_label :: "NotificationHealth \<Rightarrow> string" where
  "notification_health_label h =
     (if nh_state h = ''not_started'' \<and> \<not> nh_authenticated h then ''off (no Bitwarden session)''
      else if nh_state h = ''not_started'' then ''off (not started)''
      else if nh_state h = ''starting'' then ''connecting'' @ ellipsis
      else if nh_state h = ''running'' then
        (let uptime = (case nh_up_for_secs h of Some s \<Rightarrow> '', up '' @ humanize_age s | None \<Rightarrow> '''')
         in if nh_connects h > 1
            then ''connected ('' @ show_nat (unat (nh_connects h - 1)) @ '' reconnects'' @ uptime @ '')''
            else ''connected'' @ uptime)
      else if nh_state h = ''failed'' then
        (let next = (case nh_next_retry_in_secs h of
                       Some d \<Rightarrow> '', next attempt in '' @ show_nat d @ ''s'' | None \<Rightarrow> '''');
             err = (case nh_last_error h of Some e \<Rightarrow> '': '' @ e | None \<Rightarrow> '''')
         in if nh_consecutive_failures h = 0 then ''lost connection, retrying'' @ next @ err
            else ''retrying ('' @ show_nat (unat (nh_consecutive_failures h)) @ '' failed attempt(s)''
                 @ next @ err @ '')'')
      else if nh_state h = ''stopped'' then ''stopped''
      else if nh_state h = ''unknown'' then ''unknown''
      else ''unknown ('' @ nh_state h @ '')'')"

definition age_secs :: "instant \<Rightarrow> instant option \<Rightarrow> nat option" where
  "age_secs now t = map_option (\<lambda>at. as_secs (now - at)) t"

definition health_label :: "instant \<Rightarrow> bool \<Rightarrow> NotificationRuntimeState \<Rightarrow> string" where
  "health_label now authenticated s =
     notification_health_label
       \<lparr>nh_state = state_name (rs_state s), nh_connects = rs_connects s,
        nh_consecutive_failures = rs_consecutive_failures s,
        nh_next_retry_in_secs = rs_next_retry_in_secs s, nh_last_error = rs_last_error s,
        nh_up_for_secs = age_secs now (rs_last_connected_at s), nh_authenticated = authenticated\<rparr>"

definition json_opt :: "('a \<Rightarrow> json) \<Rightarrow> 'a option \<Rightarrow> json" where
  "json_opt f x = (case x of None \<Rightarrow> JNull | Some v \<Rightarrow> f v)"

definition runtime_to_json :: "instant \<Rightarrow> NotificationRuntimeState \<Rightarrow> json" where
  "runtime_to_json now s = JObj
     [(''state'', JStr (state_name (rs_state s))),
      (''url'', json_opt JStr (rs_url s)),
      (''last_error'', json_opt JStr (rs_last_error s)),
      (''reconnect_attempts'', JNum (unat (rs_consecutive_failures s))),
      (''consecutive_failures'', JNum (unat (rs_consecutive_failures s))),
      (''total_failures'', JNum (unat (rs_total_failures s))),
      (''next_retry_in_secs'', json_opt JNum (rs_next_retry_in_secs s)),
      (''connects'', JNum (unat (rs_connects s))),
      (''last_connected_age_secs'', json_opt JNum (age_secs now (rs_last_connected_at s))),
      (''last_event_age_secs'', json_opt JNum (age_secs now (rs_last_event_at s))),
      (''last_fallback_sync_age_secs'', json_opt JNum (age_secs now (rs_last_fallback_sync_at s))),
      (''last_sync_age_secs'', json_opt JNum (age_secs now (rs_last_sync_at s))),
      (''stale_cache'', JBool (rs_stale_cache s)),
      (''stale_cache_error'', json_opt JStr (rs_stale_cache_error s))]"

definition NOTIFICATION_JSON_KEYS :: "string list" where
  "NOTIFICATION_JSON_KEYS =
     [''state'', ''url'', ''last_error'', ''reconnect_attempts'', ''consecutive_failures'',
      ''total_failures'', ''next_retry_in_secs'', ''connects'', ''last_connected_age_secs'',
      ''last_event_age_secs'', ''last_fallback_sync_age_secs'', ''last_sync_age_secs'',
      ''stale_cache'', ''stale_cache_error'']"

section \<open>Connecting\<close>

record ServerConfig =
  base_url :: string
  cfg_api_url :: "string option"
  cfg_identity_url :: "string option"
  cfg_notifications_url :: "string option"

record AgentConfig =
  sync_interval :: nat
  lock_timeout :: nat
  notification_keepalive_interval :: nat
  notification_idle_timeout :: nat
  notification_reconnect_attempts_before_fallback :: nat
  notification_reconnect_max_backoff :: nat

definition notification_options :: "AgentConfig \<Rightarrow> NotificationOptions" where
  "notification_options c =
     \<lparr>keepalive_interval = secs (max (notification_keepalive_interval c) 1),
      idle_timeout = secs (max (notification_idle_timeout c) 1),
      reconnect_attempts_before_fallback = notification_reconnect_attempts_before_fallback c,
      reconnect_max_backoff = secs (max (notification_reconnect_max_backoff c) 1),
      fallback_sync_interval = secs (sync_interval c)\<rparr>"


function trim_start_matches :: "string \<Rightarrow> string \<Rightarrow> string" where
  "trim_start_matches p s =
     (if p = [] then s
      else case strip_prefix p s of Some r \<Rightarrow> trim_start_matches p r | None \<Rightarrow> s)"
  by pat_completeness auto
termination
  by (relation "measure (length \<circ> snd)") (auto simp: strip_prefix_Some_iff)

definition api_url :: "ServerConfig \<Rightarrow> string" where
  "api_url c = unwrap_or (base_url c @ ''/api'') (cfg_api_url c)"

definition identity_url :: "ServerConfig \<Rightarrow> string" where
  "identity_url c = unwrap_or (base_url c @ ''/identity'') (cfg_identity_url c)"

definition default_notifications_url :: "string \<Rightarrow> string" where
  "default_notifications_url url =
     (let base = trim_end_char CHR ''/'' url;
          host = hd (split_on CHR ''/'' (trim_start_matches ''http://'' (trim_start_matches ''https://'' base)))
      in if host = ''vault.bitwarden.com'' then ''https://notifications.bitwarden.com''
         else if host = ''vault.bitwarden.eu'' then ''https://notifications.bitwarden.eu''
         else base @ ''/notifications'')"

definition notifications_url :: "ServerConfig \<Rightarrow> string" where
  "notifications_url c = unwrap_or (default_notifications_url (base_url c)) (cfg_notifications_url c)"

text \<open>
  The discovery request: \<open>None\<close> without an API client; otherwise \<open>None\<close> after five seconds, or
  the client's answer.
\<close>

definition resolve_notifications_url :: "ServerConfig \<Rightarrow> string option result option option \<Rightarrow> string" where
  "resolve_notifications_url c discovery =
     (case cfg_notifications_url c of
        Some explicit \<Rightarrow> explicit
      | None \<Rightarrow>
          (case discovery of
             Some (Some (Inr (Some url))) \<Rightarrow> url
           | _ \<Rightarrow> notifications_url c))"

text \<open>
  \<open>connect_notification_client\<close>: an earlier client is stopped and dropped together with its
  receiver. \<open>outcome\<close> is what \<open>connect_with_options\<close> returned, \<open>None\<close> when the fifteen-second
  timeout struck first.
\<close>

definition connect_notification_client ::
  "instant \<Rightarrow> ServerConfig \<Rightarrow> string option result option option \<Rightarrow> (emitted \<times> loop_state) result option \<Rightarrow>
     NotificationRuntimeState \<Rightarrow> loop_state option \<times> NotificationRuntimeState" where
  "connect_notification_client now server discovery outcome s =
     (let url = resolve_notifications_url server discovery;
          s1 = begin_connect url s
      in case outcome of
           Some (Inr (_, client)) \<Rightarrow>
             (Some client, apply_status now (status_default\<lparr>ns_state := Connected, ns_connects := 1\<rparr>) s1)
         | Some (Inl e) \<Rightarrow> (None, mark_client_failed e s1)
         | None \<Rightarrow>
             (None, mark_client_failed ''connecting to the notification hub timed out after 15s'' s1))"

section \<open>The cache key holder\<close>

type_synonym 'k LocalCacheKeyState = "'k option"

definition key_state_set :: "'k \<Rightarrow> 'k LocalCacheKeyState \<Rightarrow> 'k LocalCacheKeyState" where
  "key_state_set k s = Some k"

definition key_state_clear :: "'k LocalCacheKeyState \<Rightarrow> 'k LocalCacheKeyState" where
  "key_state_clear s = None"

section \<open>The mirror follows the client\<close>

text \<open>What it means for the mirror to describe the client's loop.\<close>

definition agrees :: "NotificationRuntimeState \<Rightarrow> loop_state \<Rightarrow> bool" where
  "agrees s st \<longleftrightarrow>
     (let up = rs_state s = Connected \<and> rs_connects s = connects st in
      case loop_phase st of
        Session _ \<Rightarrow> up
      | Head initial \<Rightarrow> initial \<longrightarrow> up
      | Backing_Off \<Rightarrow>
          rs_state s = Degraded \<and> rs_connects s = connects st \<and>
          rs_consecutive_failures s = failures st \<and> rs_total_failures s = total_failures st \<and>
          rs_next_retry_in_secs s = Some (as_secs (backoff st)) \<and> rs_last_error s \<noteq> None
      | Returned \<Rightarrow> rs_state s \<in> {Stopped, Degraded})"

definition mirror :: "emitted \<Rightarrow> NotificationRuntimeState \<Rightarrow> NotificationRuntimeState" where
  "mirror out s =
     fold (\<lambda>(t, e) s. case e of Emit (ConnectionStatus st) \<Rightarrow> apply_status t st s | _ \<Rightarrow> s) out s"

lemma mirror_simps [simp]:
  "mirror [] s = s"
  "mirror ((t, Emit (ConnectionStatus st)) # out) s = mirror out (apply_status t st s)"
  "mirror ((t, Emit FallbackSyncDue) # out) s = mirror out s"
  "mirror ((t, Send m) # out) s = mirror out s"
  "mirror ((t, CloseSocket) # out) s = mirror out s"
  "mirror ((t, Emit (event_of_update u)) # out) s = mirror out s"
  "mirror (xs @ ys) s = mirror ys (mirror xs s)"
  by (cases u; simp add: mirror_def)+

lemma mirror_recovery [simp]:
  "mirror (fst (emit_recovery_sync ck ch opts old)) s = s"
  "mirror (fst (maybe_emit_fallback_sync ck ch opts f old)) s = s"
  by (simp_all add: emit_recovery_sync_def maybe_emit_fallback_sync_def)

lemma mirror_publish: "takes_status ch \<Longrightarrow> mirror (publish_status ck ch st) s = apply_status (sent_at ck) st s"
  by (simp add: publish_status_def)

lemmas agree_simps = agrees_def apply_status_def status_defs mirror_publish

lemma head_step_agrees:
  assumes "head_step opts url ck ch c oc initial st = (out, st')" and "loop_phase st = Head initial"
    and "takes_status ch" and "agrees s st"
  shows "agrees (mirror out s) st'"
proof -
  obtain o1 new where e: "maybe_emit_fallback_sync ck ch opts (sat_add (failures st) 1)
    (last_fallback_sent st) = (o1, new)" by fastforce
  then have o1: "mirror o1 x = x" for x using mirror_recovery(2) by (metis fst_conv)
  from assms show ?thesis
    by (auto simp: head_step_def e o1 Let_def agree_simps split: if_splits sum.splits)
qed

lemma lose_connection_agrees:
  assumes "lose_connection opts ck ch r st = (out, st')" and "takes_status ch"
  shows "agrees (mirror out s) st'"
proof -
  obtain o1 new where e: "emit_recovery_sync ck ch opts (last_fallback_sent st) = (o1, new)" by fastforce
  then have o1: "mirror o1 x = x" for x using mirror_recovery(1) by (metis fst_conv)
  from assms show ?thesis by (auto simp: lose_connection_def e o1 Let_def agree_simps)
qed

lemma agrees_session [simp]:
  "loop_phase st = Session l \<Longrightarrow> agrees s (st\<lparr>loop_phase := Session l'\<rparr>) = agrees s st"
  by (simp add: agrees_def)

lemma agrees_stopped: "takes_status ch \<Longrightarrow>
  agrees (mirror (publish_status ck ch status_stopped) s) (st\<lparr>loop_phase := Returned\<rparr>)"
  by (simp add: agree_simps)

lemma session_step_agrees:
  assumes "session_step mp opts ck ch inp l st = Returns (out, st')" and "loop_phase st = Session l"
    and "takes_status ch" and "agrees s st"
  shows "agrees (mirror out s) st'"
proof (cases inp)
  case (KeepaliveTick e)
  then show ?thesis
    using assms lose_connection_agrees [OF _ assms(3)] by (cases e) (auto simp: session_step_def)
next
  case IdleTick
  then show ?thesis
    using assms(1,4) lose_connection_agrees [OF _ assms(3)]
    by (auto simp: session_step_def split: if_splits prod.splits)
next
  case (Msg m)
  show ?thesis
  proof (cases m)
    case (Binary data)
    with Msg show ?thesis
      using assms agrees_stopped
      by (cases "parse_signalr_message mp data")
        (auto simp: session_step_def session_message_def Let_def split: option.splits if_splits)
  next
    case (Close r)
    with Msg show ?thesis
      using assms(1) lose_connection_agrees [OF _ assms(3)]
      by (cases r) (auto simp: session_step_def session_message_def)
  qed (use assms Msg in \<open>auto simp: session_step_def session_message_def Let_def split: if_splits\<close>)
qed (use assms lose_connection_agrees [OF _ assms(3)] agrees_stopped in \<open>auto simp: session_step_def\<close>)

lemma wait_step_agrees: "agrees s (wait_step opts st)"
  by (simp add: wait_step_def agrees_def)

lemma loop_step_agrees:
  assumes "loop_step mp opts url i st = Returns (out, st')" and "takes_status (env_chan (fst i))"
    and "agrees s st"
  shows "agrees (mirror out s) st'"
  using assms head_step_agrees session_step_agrees [of mp opts] wait_step_agrees
  by (auto simp: loop_step_def split: prod.splits phase.splits loop_input.splits)


lemma run_agrees:
  assumes "run_message_loop mp opts url is st = Returns (out, st')"
    and "\<forall>i \<in> set is. takes_status (env_chan (fst i))" and "agrees s st"
  shows "agrees (mirror out s) st'"
  using assms
proof (induction "is" arbitrary: st out s)
  case (Cons i "is")
  obtain o1 st1 where s1: "loop_step mp opts url i st = Returns (o1, st1)"
    using Cons.prems(1) by (auto split: run.splits)
  obtain o2 where s2: "run_message_loop mp opts url is st1 = Returns (o2, st')" and out: "out = o1 @ o2"
    using Cons.prems(1) s1 by (auto split: run.splits)
  have "agrees (mirror o1 s) st1" using loop_step_agrees [OF s1] Cons.prems(2,3) by simp
  then show ?case using Cons.IH [OF s2] Cons.prems(2) by (simp add: out)
qed simp

section \<open>Properties\<close>



lemma starts_with_simps [simp]:
  "starts_with [] s"
  "starts_with (c # p) [] = False"
  "starts_with (c # p) (d # s) = (c = d \<and> starts_with p s)"
  by (simp_all add: starts_with_def)

text \<open>
  The health label never claims health: whatever the counters, ages and errors, it begins with
  "connected" exactly when the mirror's state is connected, and the JSON view lists exactly the
  documented keys, each once.
\<close>

theorem health_label_honest:
  "(starts_with ''connected'' (health_label now authenticated s) \<longleftrightarrow> rs_state s = Connected)
   \<and> (\<exists>fields. runtime_to_json now s = JObj fields \<and> map fst fields = NOTIFICATION_JSON_KEYS)
   \<and> distinct NOTIFICATION_JSON_KEYS"
proof -
  have "starts_with ''connected'' (health_label now authenticated s) \<longleftrightarrow> rs_state s = Connected"
    by (cases "rs_state s") (simp_all add: health_label_def notification_health_label_def Let_def)
  then show ?thesis by (simp add: runtime_to_json_def NOTIFICATION_JSON_KEYS_def)
qed

text \<open>
  The mirror right after the client was created: it reads "connected" also when the eager attempt
  failed and the background loop is only about to retry.
\<close>

theorem mirror_claims_connection_after_failed_attempt:
  assumes "connect_and_initialize sm d = Inl e"
    and "connect_with_options sm url token ck ch d = Inr (out, client)"
  shows "rs_state (snd (connect_notification_client now server discovery (Some (Inr (out, client))) s)) = Connected
       \<and> loop_phase client = Head False \<and> connects client = 0"
  using assms
  by (auto simp: connect_with_options_def connect_notification_client_def loop_init_def Let_def
      build_ws_url_def apply_status_def)

end
