(* ===== verification/Client.thy ===== *)
theory Client
  imports Crypto Control_Proto
begin

text \<open>
  \<open>crates/sshwarden-api/src/client.rs\<close> and \<open>models.rs\<close>: the Bitwarden API client.

  The server, the HTTP library and JSON decoding are the parameter \<open>net\<close>: for every request what
  comes back, from no reply at all to a decoded body. Scrubbing old tokens from memory has no
  counterpart here.
\<close>

datatype 'a http =
    No_Reply
  | Status string string  \<comment> \<open>an error status and its body\<close>
  | Body_Lost
  | Body_Malformed
  | Reply 'a

datatype CipherType = Login | SecureNote | Card | Identity | SshKey | Unknown u8

definition cipher_type_of :: "u8 \<Rightarrow> CipherType" where
  "cipher_type_of v =
     (if v = 1 then Login else if v = 2 then SecureNote else if v = 3 then Card
      else if v = 4 then Identity else if v = 5 then SshKey else Unknown v)"

record SshKeyData =
  ssh_private_key :: string
  ssh_public_key :: string
  ssh_key_fingerprint :: string

record Cipher =
  cipher_id :: string
  cipher_type :: CipherType
  cipher_name :: "string option"
  deleted_date :: "string option"
  archived_date :: "string option"
  ssh_key :: "SshKeyData option"
  organization_id :: "string option"
  cipher_key :: "string option"

record TokenResponse =
  tok_access_token :: string
  tok_expires_in :: nat
  tok_refresh_token :: "string option"
  tok_key :: "string option"

record DecryptedSshKey =
  private_key_pem :: string
  public_key_openssh :: string
  dk_name :: string
  dk_cipher_id :: string

record BitwardenClient =
  c_api_url :: string
  c_identity_url :: string
  c_base_url :: string
  access_token :: "string option"
  refresh_token :: "string option"
  token_expiry :: "instant option"
  device_id :: string
  user_key :: "SymmetricKey option"

record net =
  post_prelogin :: "string \<Rightarrow> string \<Rightarrow> PreloginResponse http"
    \<comment> \<open>url, email\<close>
  post_token :: "string \<Rightarrow> (string \<times> string) list \<Rightarrow> TokenResponse http"
  get_sync :: "string \<Rightarrow> string \<Rightarrow> Cipher list http"
    \<comment> \<open>url, bearer token\<close>
  get_config :: "string \<Rightarrow> json http"
  net_now :: instant

section \<open>Construction\<close>

definition trim_slashes :: "string \<Rightarrow> string" where
  "trim_slashes s = rev (dropWhile (\<lambda>c. c = CHR ''/'') (rev s))"

definition client_new_with_device_id :: "string \<Rightarrow> string \<Rightarrow> string \<Rightarrow> string \<Rightarrow> BitwardenClient" where
  "client_new_with_device_id base api identity dev =
     \<lparr>c_api_url = api, c_identity_url = identity, c_base_url = trim_slashes base,
      access_token = None, refresh_token = None, token_expiry = None, device_id = dev, user_key = None\<rparr>"

definition client_new :: "string \<Rightarrow> string \<Rightarrow> string \<Rightarrow> string \<Rightarrow> BitwardenClient" where
  "client_new uuid base api identity = client_new_with_device_id base api identity uuid"

definition has_user_key :: "BitwardenClient \<Rightarrow> bool" where
  "has_user_key c \<longleftrightarrow> user_key c \<noteq> None"

section \<open>Requests\<close>

text \<open>Reading a reply; \<open>unread\<close> is the message when the body cannot be read.\<close>

definition reply_or :: "string \<Rightarrow> string \<Rightarrow> string \<Rightarrow> string \<Rightarrow> 'a http \<Rightarrow> 'a result" where
  "reply_or unsent failed unread unparsed r =
     (case r of
        No_Reply \<Rightarrow> Inl unsent
      | Status status body \<Rightarrow> Inl (failed @ '' ('' @ status @ ''): '' @ body)
      | Body_Lost \<Rightarrow> Inl unread
      | Body_Malformed \<Rightarrow> Inl unparsed
      | Reply v \<Rightarrow> Inr v)"

definition prelogin :: "net \<Rightarrow> string \<Rightarrow> BitwardenClient \<Rightarrow> PreloginResponse result" where
  "prelogin N email c =
     reply_or ''Prelogin request failed'' ''Prelogin failed'' ''Failed to read prelogin response body''
       ''Failed to parse prelogin response''
       (post_prelogin N (c_identity_url c @ ''/accounts/prelogin'') email)"

definition login_form :: "string \<Rightarrow> string \<Rightarrow> string \<Rightarrow> (string \<times> string) list" where
  "login_form email password_hash dev =
     [(''grant_type'', ''password''), (''username'', email), (''password'', password_hash),
      (''scope'', ''api offline_access''), (''client_id'', ''cli''), (''deviceType'', ''14''),
      (''deviceIdentifier'', dev), (''deviceName'', ''sshwarden'')]"

definition login_password ::
  "crypto_lib \<Rightarrow> net \<Rightarrow> string \<Rightarrow> string \<Rightarrow> BitwardenClient \<Rightarrow> unit result \<times> BitwardenClient" where
  "login_password L N email password c =
     (case bind_res (prelogin N email c) (\<lambda>pl.
           bind_res (context_msg ''Failed to derive master key'' (derive_master_key L password email pl)) (\<lambda>master_key.
           bind_res (context_msg ''Failed to derive password hash'' (derive_password_hash L master_key password)) (\<lambda>password_hash.
           bind_res (reply_or ''Login request failed'' ''Login failed'' ''Failed to read token response body''
                       ''Failed to parse token response''
                       (post_token N (c_identity_url c @ ''/connect/token'') (login_form email password_hash (device_id c)))) (\<lambda>tok.
             Inr (master_key, tok))))) of
        Inl e \<Rightarrow> (Inl e, c)
      | Inr (master_key, tok) \<Rightarrow>
          (let c' = c\<lparr>access_token := Some (tok_access_token tok), refresh_token := tok_refresh_token tok,
                      token_expiry := Some (net_now N + secs (tok_expires_in tok))\<rparr>
           in case tok_key tok of
                None \<Rightarrow> (Inl ''Token response missing encrypted user key'', c')
              | Some encrypted_key \<Rightarrow>
                  (case decrypt_user_key L encrypted_key master_key of
                     Inl _ \<Rightarrow> (Inl ''Failed to decrypt user key from token response'', c')
                   | Inr k \<Rightarrow> (Inr (), c'\<lparr>user_key := Some k\<rparr>))))"

definition decrypt_ssh_cipher :: "crypto_lib \<Rightarrow> Cipher \<Rightarrow> SymmetricKey \<Rightarrow> DecryptedSshKey result" where
  "decrypt_ssh_cipher L cipher ukey =
     bind_res (case cipher_key cipher of
                 Some enc \<Rightarrow>
                   bind_res (context_msg ''Failed to decrypt cipher key'' (decrypt_enc_string L enc ukey)) (\<lambda>bs.
                     if length bs \<noteq> 64
                     then Inl (''Cipher key has unexpected length: '' @ show_nat (length bs))
                     else Inr \<lparr>enc_key = take 32 bs, mac_key = drop 32 bs\<rparr>)
               | None \<Rightarrow> Inr ukey) (\<lambda>effective_key.
     bind_res (ok_or (''Cipher '' @ cipher_id cipher @ '' is SshKey type but has no ssh_key data'')
                 (ssh_key cipher)) (\<lambda>ssh_data.
     bind_res (context_msg ''Failed to decrypt SSH private key''
                 (decrypt_enc_string_to_string L (ssh_private_key ssh_data) effective_key)) (\<lambda>pem.
     bind_res (context_msg ''Failed to decrypt SSH public key''
                 (decrypt_enc_string_to_string L (ssh_public_key ssh_data) effective_key)) (\<lambda>pub.
       Inr \<lparr>private_key_pem = pem, public_key_openssh = pub,
            dk_name = (case cipher_name cipher of
                         Some enc_name \<Rightarrow> unwrap_or ''unnamed'' (res_ok (decrypt_enc_string_to_string L enc_name effective_key))
                       | None \<Rightarrow> ''unnamed''),
            dk_cipher_id = cipher_id cipher\<rparr>))))"

definition active_ssh_cipher :: "Cipher \<Rightarrow> bool" where
  "active_ssh_cipher c \<longleftrightarrow> cipher_type c = SshKey \<and> deleted_date c = None \<and> archived_date c = None"

fun decrypt_ssh_ciphers :: "crypto_lib \<Rightarrow> SymmetricKey \<Rightarrow> Cipher list \<Rightarrow> DecryptedSshKey list" where
  "decrypt_ssh_ciphers L k [] = []"
| "decrypt_ssh_ciphers L k (c # cs) =
     (case decrypt_ssh_cipher L c k of
        Inr key \<Rightarrow> key # decrypt_ssh_ciphers L k cs
      | Inl _ \<Rightarrow> decrypt_ssh_ciphers L k cs)"

definition sync_ssh_keys :: "crypto_lib \<Rightarrow> net \<Rightarrow> BitwardenClient \<Rightarrow> DecryptedSshKey list result" where
  "sync_ssh_keys L N c =
     bind_res (ok_or ''Not authenticated'' (access_token c)) (\<lambda>token.
     bind_res (ok_or ''User key not available'' (user_key c)) (\<lambda>key.
     bind_res (reply_or ''Sync request failed'' ''Sync failed'' ''Failed to parse sync response''
                 ''Failed to parse sync response''
                 (get_sync N (c_api_url c @ ''/sync?excludeDomains=true'') token)) (\<lambda>ciphers.
       Inr (decrypt_ssh_ciphers L key (filter active_ssh_cipher ciphers)))))"

fun json_get :: "string \<Rightarrow> json \<Rightarrow> json option" where
  "json_get k (JObj fs) = map_of fs k"
| "json_get k _ = None"

fun json_str :: "json \<Rightarrow> string option" where
  "json_str (JStr s) = Some s"
| "json_str _ = None"

definition discover_notifications_url :: "net \<Rightarrow> BitwardenClient \<Rightarrow> string option result" where
  "discover_notifications_url N c =
     bind_res (reply_or ''Server config discovery request failed'' ''Server config discovery failed''
                 ''Failed to parse server config response'' ''Failed to parse server config response''
                 (get_config N (c_base_url c @ ''/api/config''))) (\<lambda>body.
       Inr (option_filter (\<lambda>v. trim v \<noteq> [])
             (Option.bind (Option.bind (json_get ''environment'' body) (json_get ''notifications'')) json_str)))"

definition is_token_expiring_soon :: "instant \<Rightarrow> BitwardenClient \<Rightarrow> bool" where
  "is_token_expiring_soon now c =
     (case token_expiry c of
        Some expiry \<Rightarrow> if now \<ge> expiry then True else expiry - now < secs 300
      | None \<Rightarrow> access_token c \<noteq> None)"

definition refresh_access_token :: "net \<Rightarrow> BitwardenClient \<Rightarrow> unit result \<times> BitwardenClient" where
  "refresh_access_token N c =
     (case bind_res (ok_or ''No refresh token available'' (refresh_token c)) (\<lambda>rt.
           reply_or ''Token refresh request failed'' ''Token refresh failed'' ''Failed to read token refresh response''
             ''Failed to parse token refresh response''
             (post_token N (c_identity_url c @ ''/connect/token'')
                [(''grant_type'', ''refresh_token''), (''refresh_token'', rt), (''client_id'', ''cli'')])) of
        Inl e \<Rightarrow> (Inl e, c)
      | Inr tok \<Rightarrow>
          (Inr (), c\<lparr>access_token := Some (tok_access_token tok),
                     refresh_token := option_or (tok_refresh_token tok) (refresh_token c),
                     token_expiry := Some (net_now N + secs (tok_expires_in tok))\<rparr>))"

section \<open>Lemmas\<close>

lemma decrypt_ssh_ciphers_filter:
  "decrypt_ssh_ciphers L k cs = List.map_filter (\<lambda>c. res_ok (decrypt_ssh_cipher L c k)) cs"
  by (induction cs) (auto simp: map_filter_simps split: sum.splits)

lemma decrypt_ssh_cipher_id: "decrypt_ssh_cipher L c k = Inr d \<Longrightarrow> dk_cipher_id d = cipher_id c"
  by (auto simp: decrypt_ssh_cipher_def bind_res_Inr_iff)

lemma refresh_keeps_user_key [simp]: "user_key (snd (refresh_access_token N c)) = user_key c"
  by (simp add: refresh_access_token_def split: sum.splits)

text \<open>An SSH cipher as a vault holds it: its parts encrypted under its key.\<close>

definition sealed_cipher :: "crypto_lib \<Rightarrow> SymmetricKey \<Rightarrow> SymmetricKey option \<Rightarrow> DecryptedSshKey \<Rightarrow> Cipher \<Rightarrow> bool" where
  "sealed_cipher L ukey own d c \<longleftrightarrow>
     (let k = unwrap_or ukey own in
      key_ok ukey \<and> key_ok k \<and> active_ssh_cipher c \<and> cipher_id c = dk_cipher_id d \<and>
      (case own of
         None \<Rightarrow> cipher_key c = None
       | Some k' \<Rightarrow> (\<exists>iv e. length iv = 16 \<and> cipher_key c = Some e \<and>
                      encrypt_enc_string L iv (enc_key k' @ mac_key k') ukey = Inr e)) \<and>
      (\<exists>iv1 iv2 iv3 s n. length iv1 = 16 \<and> length iv2 = 16 \<and> length iv3 = 16 \<and>
         ssh_key c = Some s \<and> cipher_name c = Some n \<and>
         encrypt_enc_string L iv1 (as_bytes (private_key_pem d)) k = Inr (ssh_private_key s) \<and>
         encrypt_enc_string L iv2 (as_bytes (public_key_openssh d)) k = Inr (ssh_public_key s) \<and>
         encrypt_enc_string L iv3 (as_bytes (dk_name d)) k = Inr n) \<and>
      utf8_valid (as_bytes (private_key_pem d)) \<and> utf8_valid (as_bytes (public_key_openssh d)) \<and>
      utf8_valid (as_bytes (dk_name d)))"

lemma sealed_cipher_decrypts:
  assumes "suite_ok L" and "sealed_cipher L ukey own d c"
  shows "decrypt_ssh_cipher L c ukey = Inr d"
proof -
  define k where "k = unwrap_or ukey own"
  note s = assms(2) [unfolded sealed_cipher_def Let_def, folded k_def]
  have opened: "decrypt_enc_string_to_string L e k = Inr x"
    if "length iv = 16" "encrypt_enc_string L iv (as_bytes x) k = Inr e" "utf8_valid (as_bytes x)" for iv x e
    using sym.unseal_seal [OF assms(1) _ that(1,3,2)] s by simp
  have key: "(case cipher_key c of
       Some enc \<Rightarrow> bind_res (context_msg ''Failed to decrypt cipher key'' (decrypt_enc_string L enc ukey)) (\<lambda>bs.
         if length bs \<noteq> 64 then Inl (''Cipher key has unexpected length: '' @ show_nat (length bs))
         else Inr \<lparr>enc_key = take 32 bs, mac_key = drop 32 bs\<rparr>)
     | None \<Rightarrow> Inr ukey) = Inr k"
  proof (cases own)
    case None
    then show ?thesis using s by (simp add: k_def)
  next
    case (Some k')
    then obtain iv e where e: "length iv = 16" "cipher_key c = Some e"
      "encrypt_enc_string L iv (enc_key k' @ mac_key k') ukey = Inr e" using s by auto
    have "decrypt_enc_string L e ukey = Inr (enc_key k' @ mac_key k')"
      using assms(1) s e by (auto intro: decrypt_encrypt)
    moreover have "key_ok k'" using s Some by (simp add: k_def)
    ultimately show ?thesis using e Some by (simp add: k_def key_ok_def)
  qed
  obtain iv1 iv2 iv3 sd n where parts: "length iv1 = 16" "length iv2 = 16" "length iv3 = 16"
    "ssh_key c = Some sd" "cipher_name c = Some n"
    "encrypt_enc_string L iv1 (as_bytes (private_key_pem d)) k = Inr (ssh_private_key sd)"
    "encrypt_enc_string L iv2 (as_bytes (public_key_openssh d)) k = Inr (ssh_public_key sd)"
    "encrypt_enc_string L iv3 (as_bytes (dk_name d)) k = Inr n"
    using s by blast
  show ?thesis
    unfolding decrypt_ssh_cipher_def key
    using s parts opened [OF parts(1,6)] opened [OF parts(2,7)] opened [OF parts(3,8)] by simp
qed

section \<open>Properties\<close>

text \<open>
  C19: a sync returns exactly the usable SSH keys of the vault. Whatever else the vault holds, the
  result lists, in the vault's order, the decryptions of the ciphers that are SSH keys, neither
  deleted nor archived, and decryptable; and an SSH key sealed under the user's key, or under a
  cipher key sealed under it, always comes back as it was sealed.
\<close>

theorem sync_returns_usable_keys:
  assumes "access_token c = Some token" and "user_key c = Some k"
    and "get_sync N (c_api_url c @ ''/sync?excludeDomains=true'') token = Reply ciphers"
  shows "sync_ssh_keys L N c = Inr (List.map_filter (\<lambda>ci. res_ok (decrypt_ssh_cipher L ci k))
           (filter active_ssh_cipher ciphers))
       \<and> (\<forall>keys own d ci. sync_ssh_keys L N c = Inr keys \<and> suite_ok L \<and> ci \<in> set ciphers \<and>
            sealed_cipher L k own d ci \<longrightarrow> d \<in> set keys)"
proof -
  have r: "sync_ssh_keys L N c = Inr (List.map_filter (\<lambda>ci. res_ok (decrypt_ssh_cipher L ci k))
           (filter active_ssh_cipher ciphers))"
    using assms by (simp add: sync_ssh_keys_def reply_or_def decrypt_ssh_ciphers_filter)
  have "d \<in> set keys" if "sync_ssh_keys L N c = Inr keys" "suite_ok L" "ci \<in> set ciphers"
    "sealed_cipher L k own d ci" for keys own d ci
  proof -
    have "decrypt_ssh_cipher L ci k = Inr d" using that(2,4) by (rule sealed_cipher_decrypts)
    moreover have "active_ssh_cipher ci" using that(4) by (simp add: sealed_cipher_def Let_def)
    ultimately show ?thesis using r that(1,3) by (force simp: map_filter_def)
  qed
  with r show ?thesis by blast
qed

definition demo_client :: BitwardenClient where
  "demo_client = (client_new_with_device_id ''https://s'' ''https://s/api'' ''https://s/identity'' ''dev'')
     \<lparr>access_token := Some ''at'', user_key := Some \<lparr>enc_key = replicate 32 1, mac_key = replicate 32 2\<rparr>\<rparr>"

definition trashed :: Cipher where
  "trashed = \<lparr>cipher_id = ''x'', cipher_type = SshKey, cipher_name = None, deleted_date = Some ''2024'',
     archived_date = None, ssh_key = None, organization_id = None, cipher_key = None\<rparr>"

definition demo_net :: net where
  "demo_net = \<lparr>post_prelogin = (\<lambda>_ _. No_Reply), post_token = (\<lambda>_ _. No_Reply),
     get_sync = (\<lambda>_ _. Reply [trashed]), get_config = (\<lambda>_. No_Reply), net_now = 0\<rparr>"

theorem sync_returns_usable_keys_witness: "sync_ssh_keys demo_crypto demo_net demo_client = Inr []"
  using sync_returns_usable_keys [of demo_client "''at''" "\<lparr>enc_key = replicate 32 1, mac_key = replicate 32 2\<rparr>" demo_net "[trashed]" demo_crypto]
  by (simp add: demo_client_def client_new_with_device_id_def demo_net_def trashed_def active_ssh_cipher_def map_filter_simps)

end
