(* ===== verification/Pin_Lockout.thy ===== *)
theory Pin_Lockout
  imports Rust_Text
begin

text \<open>
  The PIN brute-force protection of \<open>src/control.rs\<close> (\<open>PinFailureState\<close>,
  \<open>pin_lockout_remaining\<close>, \<open>record_pin_attempt\<close>) and the gate of
  \<open>src/unlock.rs\<close> that puts dialog validators behind it.
\<close>

record PinFailureState =
  consecutive_failures :: u32
  locked_until :: "instant option"

definition pin_failures_default :: PinFailureState where
  "pin_failures_default = \<lparr>consecutive_failures = 0, locked_until = None\<rparr>"

definition PIN_MAX_ATTEMPTS :: u32 where "PIN_MAX_ATTEMPTS = 5"
definition PIN_FAILURE_BASE_DELAY :: duration where "PIN_FAILURE_BASE_DELAY = 500000000"
definition PIN_FAILURE_MAX_DELAY :: duration where "PIN_FAILURE_MAX_DELAY = secs 5"
definition PIN_LOCKOUT :: duration where "PIN_LOCKOUT = secs 30"

lemmas pin_consts = PIN_MAX_ATTEMPTS_def PIN_FAILURE_BASE_DELAY_def PIN_FAILURE_MAX_DELAY_def
  PIN_LOCKOUT_def secs_def

definition pin_lockout_remaining ::
  "instant \<Rightarrow> PinFailureState \<Rightarrow> duration option \<times> PinFailureState" where
  "pin_lockout_remaining now st =
     (case locked_until st of
        Some until \<Rightarrow>
          if until > now then (Some (until - now), st) else (None, st\<lparr>locked_until := None\<rparr>)
      | None \<Rightarrow> (None, st))"

definition record_pin_attempt ::
  "instant \<Rightarrow> bool \<Rightarrow> PinFailureState \<Rightarrow> duration \<times> PinFailureState" where
  "record_pin_attempt now success st =
     (if success then (0, st\<lparr>consecutive_failures := 0, locked_until := None\<rparr>)
      else let n = sat_add (consecutive_failures st) 1;
               st' = st\<lparr>consecutive_failures := n\<rparr>;
               st'' = (if n \<ge> PIN_MAX_ATTEMPTS then st'\<lparr>locked_until := Some (now + PIN_LOCKOUT)\<rparr> else st')
           in (min (PIN_FAILURE_BASE_DELAY * unat n) PIN_FAILURE_MAX_DELAY, st''))"

text \<open>
  \<open>gate_pin_validator\<close>: the inner validator runs only when no lockout is active; what it
  captures on success (the decrypted payload and key) is its \<open>Some\<close>.
\<close>

definition gate_pin_validator ::
  "(string \<Rightarrow> 'a option) \<Rightarrow> instant \<Rightarrow> instant \<Rightarrow> string \<Rightarrow> PinFailureState \<Rightarrow>
     'a option \<times> PinFailureState" where
  "gate_pin_validator inner checked recorded pin st =
     (case pin_lockout_remaining checked st of
        (Some _, st') \<Rightarrow> (None, st')
      | (None, st') \<Rightarrow>
          let ok = inner pin
          in (ok, snd (record_pin_attempt recorded (ok \<noteq> None) st')))"

section \<open>The throttle contract\<close>

text \<open>
  What the clients of the lockout rely on. An attempt at time \<open>t\<close> is evaluated unless the
  state blocks it; a failed evaluation counts, and from the threshold on blocks every attempt for
  the length of the window. From this alone follows how many wrong guesses can be evaluated in a
  span of time.
\<close>

locale throttle =
  fixes blocked :: "instant \<Rightarrow> 's \<Rightarrow> bool"
    and fail :: "instant \<Rightarrow> 's \<Rightarrow> 's"
    and fails :: "'s \<Rightarrow> nat"
    and threshold :: nat
    and window :: duration
  assumes threshold_pos: "0 < threshold"
    and window_pos: "0 < window"
    and fail_below: "fails s < threshold \<Longrightarrow> fails (fail t s) = Suc (fails s)"
    and fail_above: "threshold \<le> fails s \<Longrightarrow> threshold \<le> fails (fail t s)"
    and fail_blocks: "threshold \<le> fails (fail t s) \<Longrightarrow> t' < t + window \<Longrightarrow> blocked t' (fail t s)"
begin

text \<open>A guessing run: every guess is wrong; the result counts the evaluated ones.\<close>

fun guess_run :: "instant list \<Rightarrow> 's \<Rightarrow> nat \<times> 's" where
  "guess_run [] s = (0, s)"
| "guess_run (t # ts) s =
     (if blocked t s then guess_run ts s
      else let (n, s') = guess_run ts (fail t s) in (Suc n, s'))"

lemma run_locked:
  assumes "sorted ts" and "\<forall>t \<in> set ts. t \<le> T"
    and "threshold \<le> fails s" and "\<forall>t'. t' < u \<longrightarrow> blocked t' s"
  shows "fst (guess_run ts s) * window \<le> (T + window) - u"
  using assms
proof (induction ts arbitrary: s u)
  case (Cons t ts)
  show ?case
  proof (cases "blocked t s")
    case True
    with Cons show ?thesis by simp
  next
    case False
    with Cons.prems(4) have ut: "u \<le> t" using not_le_imp_less by blast
    let ?s = "fail t s"
    have th: "threshold \<le> fails ?s" using Cons.prems(3) by (rule fail_above)
    have "fst (guess_run ts ?s) * window \<le> (T + window) - (t + window)"
      using Cons.prems th fail_blocks by (intro Cons.IH) auto
    moreover have "t \<le> T" using Cons.prems(2) by simp
    ultimately show ?thesis
      using False ut by (auto simp: split_beta Let_def)
  qed
qed simp

lemma run_open:
  assumes "sorted ts" and "\<forall>t \<in> set ts. t0 \<le> t \<and> t \<le> T" and "fails s < threshold"
  shows "fst (guess_run ts s) \<le> (threshold - fails s) + (T - t0) div window"
  using assms
proof (induction ts arbitrary: s)
  case (Cons t ts)
  let ?s = "fail t s"
  have t: "t0 \<le> t" "t \<le> T" using Cons.prems(2) by auto
  have fs: "fails ?s = Suc (fails s)" using Cons.prems(3) by (rule fail_below)
  show ?case
  proof (cases "blocked t s")
    case True
    with Cons show ?thesis by simp
  next
    case nb: False
    show ?thesis
    proof (cases "Suc (fails s) < threshold")
      case True
      then have "fst (guess_run ts ?s) \<le> (threshold - Suc (fails s)) + (T - t0) div window"
        using Cons.prems Cons.IH [of ?s] fs by simp
      with nb True show ?thesis by (auto simp: split_beta Let_def)
    next
      case False
      then have th: "threshold \<le> fails ?s" using fs by simp
      have "fst (guess_run ts ?s) * window \<le> (T + window) - (t + window)"
        using Cons.prems th fail_blocks by (intro run_locked) auto
      then have "fst (guess_run ts ?s) * window \<le> T - t0" using t by simp
      then have "fst (guess_run ts ?s) \<le> (T - t0) div window"
        using window_pos by (simp add: less_eq_div_iff_mult_less_eq)
      with nb Cons.prems(3) show ?thesis by (auto simp: split_beta Let_def)
    qed
  qed
qed simp

end

definition pin_blocked :: "instant \<Rightarrow> PinFailureState \<Rightarrow> bool" where
  "pin_blocked now st \<longleftrightarrow> fst (pin_lockout_remaining now st) \<noteq> None"

definition pin_fail :: "instant \<Rightarrow> PinFailureState \<Rightarrow> PinFailureState" where
  "pin_fail now st = snd (record_pin_attempt now False (snd (pin_lockout_remaining now st)))"

lemma consecutive_after_check [simp]:
  "consecutive_failures (snd (pin_lockout_remaining now st)) = consecutive_failures st"
  by (simp add: pin_lockout_remaining_def split: option.splits)

lemma fails_pin_fail:
  "unat (consecutive_failures (pin_fail t s)) = min (Suc (unat (consecutive_failures s))) (2 ^ 32 - 1)"
  by (simp add: pin_fail_def record_pin_attempt_def Let_def unat_sat_add)

lemma pin_max_unat: "PIN_MAX_ATTEMPTS \<le> n \<longleftrightarrow> 5 \<le> unat n"
  by (simp add: PIN_MAX_ATTEMPTS_def word_le_nat_alt)

lemma locked_until_pin_fail:
  "5 \<le> unat (consecutive_failures (pin_fail t s)) \<Longrightarrow> locked_until (pin_fail t s) = Some (t + PIN_LOCKOUT)"
  by (auto simp: pin_fail_def record_pin_attempt_def Let_def pin_max_unat split: if_splits)

interpretation pin: throttle pin_blocked pin_fail "\<lambda>s. unat (consecutive_failures s)" 5 PIN_LOCKOUT
proof (unfold_locales, goal_cases)
  case (3 s t)
  then show ?case by (simp add: fails_pin_fail)
next
  case (4 s t)
  then show ?case by (simp add: fails_pin_fail)
next
  case (5 t s t')
  then show ?case
    by (simp add: pin_blocked_def pin_lockout_remaining_def locked_until_pin_fail)
qed (simp_all add: pin_consts)

section \<open>Guessing through the gate\<close>

text \<open>
  Wrong guesses at the given times through the gated validator; the result counts how often the
  inner validator ran.
\<close>

fun wrong_guesses :: "(string \<Rightarrow> 'a option) \<Rightarrow> (instant \<times> string) list \<Rightarrow> PinFailureState \<Rightarrow> nat \<times> PinFailureState" where
  "wrong_guesses inner [] st = (0, st)"
| "wrong_guesses inner ((t, pin) # rest) st =
     (let st' = snd (gate_pin_validator inner t t pin st);
          ran = (if pin_blocked t st then 0 else 1);
          (n, st'') = wrong_guesses inner rest st'
      in (ran + n, st''))"

lemma gate_wrong:
  assumes "inner pin = None"
  shows "snd (gate_pin_validator inner t t pin st) = (if pin_blocked t st then st else pin_fail t st)"
  using assms
  by (auto simp: gate_pin_validator_def pin_blocked_def pin_fail_def pin_lockout_remaining_def
      Let_def split: option.splits prod.splits)

lemma wrong_guesses_run:
  "\<forall>(t, p) \<in> set gs. inner p = None \<Longrightarrow>
   wrong_guesses inner gs st = pin.guess_run (map fst gs) st"
proof (induction gs arbitrary: st)
  case (Cons g gs)
  obtain t p where g: "g = (t, p)" by fastforce
  then have "inner p = None" using Cons.prems by simp
  then show ?case
    using Cons by (simp add: g gate_wrong split_beta Let_def)
qed simp



text \<open>
  While a lockout is active the gate answers "wrong" without running the validator, even for the
  right PIN, and changes nothing; it reports exactly the time that is left. Once the window is over
  the validator runs again, and a success forgets every earlier failure.
\<close>

theorem lockout_rejects_then_expires:
  assumes "locked_until st = Some u"
  shows "(now < u \<longrightarrow> gate_pin_validator inner now rec p st = (None, st)
            \<and> fst (pin_lockout_remaining now st) = Some (u - now))
       \<and> (u \<le> now \<longrightarrow> fst (gate_pin_validator inner now rec p st) = inner p)
       \<and> (u \<le> now \<and> inner p \<noteq> None \<longrightarrow>
            snd (gate_pin_validator inner now rec p st) = pin_failures_default)"
  using assms
  by (auto simp: gate_pin_validator_def pin_lockout_remaining_def record_pin_attempt_def Let_def
      pin_failures_default_def)

definition locked_demo :: PinFailureState where
  "locked_demo = \<lparr>consecutive_failures = 5, locked_until = Some (secs 30)\<rparr>"

theorem lockout_rejects_then_expires_witness:
  "gate_pin_validator (\<lambda>p. Some p) (secs 29) (secs 29) ''1234'' locked_demo = (None, locked_demo)
   \<and> snd (gate_pin_validator (\<lambda>p. Some p) (secs 30) (secs 30) ''1234'' locked_demo) = pin_failures_default"
proof -
  have l: "locked_until locked_demo = Some (secs 30)" by (simp add: locked_demo_def)
  show ?thesis
    using lockout_rejects_then_expires [OF l, of "secs 29" Some "secs 29" "''1234''"]
      lockout_rejects_then_expires [OF l, of "secs 30" Some "secs 30" "''1234''"]
    by (simp add: secs_def)
qed

text \<open>
  The delay after the \<open>n\<close>-th consecutive failure is half a second per failure and
  never more than five seconds, the failure counter never wraps around, and the lockout is armed
  exactly from the fifth consecutive failure on.
\<close>

theorem failure_delay_and_arming:
  assumes "n = unat (consecutive_failures st)" and "locked_until st = None"
  shows "fst (record_pin_attempt now False st)
           = min (500000000 * min (n + 1) (2 ^ 32 - 1)) (secs 5)
       \<and> n \<le> unat (consecutive_failures (snd (record_pin_attempt now False st)))
       \<and> (locked_until (snd (record_pin_attempt now False st)) = Some (now + secs 30) \<longleftrightarrow> 4 \<le> n)
       \<and> (locked_until (snd (record_pin_attempt now False st)) = None \<longleftrightarrow> n < 4)"
proof -
  have "unat (sat_add (consecutive_failures st) 1) = min (n + 1) (2 ^ 32 - 1)"
    using assms(1) by (simp add: unat_sat_add)
  moreover have "n \<le> 2 ^ 32 - 1"
    using assms(1) unsigned_less [of "consecutive_failures st", where ?'a = nat] by simp
  ultimately show ?thesis
    using assms(2)
    by (auto simp: record_pin_attempt_def Let_def pin_max_unat PIN_LOCKOUT_def
        PIN_FAILURE_BASE_DELAY_def PIN_FAILURE_MAX_DELAY_def)
qed

theorem failure_delay_and_arming_witness:
  "locked_until (snd (record_pin_attempt 7 False
     \<lparr>consecutive_failures = 4, locked_until = None\<rparr>)) = Some (7 + secs 30)"
  using failure_delay_and_arming
    [of 4 "\<lparr>consecutive_failures = 4, locked_until = None\<rparr>" 7] by simp

end
