(* ===== verification/Sync.thy ===== *)
theory Sync
  imports Key_Cache Runtime_State Client Pin_Lockout
begin

text \<open>
  The daemon's shared state and \<open>src/sync.rs\<close>: reconciling freshly synced keys, a sync cycle, and
  the pending sync after an unlock.

  The state is one record; each field is one of the handles the handlers of \<open>src/daemon.rs\<close>
  share. Everything outside the process during one handler call is the parameter \<open>world\<close>.
  \<open>ssh_config_calls\<close> lists the key sets handed to \<open>write_key_selector_files\<close> and
  \<open>sync_managed_ssh_config_with_bindings\<close>, whose failures only warn.
\<close>

record daemon =
  d_agent :: SshWardenAgent
  vault_locked :: bool
  cached_key_tuples :: "key_tuple list"
  public_key_identity_tuples :: "key_tuple list"
  api_client :: "BitwardenClient option"
  local_key_cache_data :: "LocalKeyCacheFile option"
  local_cache_key_state :: "SymmetricKey option"
  key_material_fingerprints :: "(string, string) amap"
  key_names :: "(string, string) amap"
  pending_sync :: bool
  notification_state :: NotificationRuntimeState
  notification_client :: "loop_state option"
  authorization_memory :: auth_memory
  pin_failures :: PinFailureState
  d_disk :: disk
  ssh_config_calls :: "DecryptedSshKey list list"

text \<open>
  \<open>w_now\<close> is the clock when the handler starts, \<open>w_later\<close> when its slow part is over.
  \<open>w_hub\<close> is how connecting to the hub ends, \<open>w_dialog\<close> the attempts a user makes at a PIN
  dialog (when each is checked, when its outcome is recorded, the PIN) until it is cancelled.
\<close>

record status_paths =
  sp_pid :: nat
  sp_shared_data_dir :: "string result"
  sp_device_data_dir :: "string result"
  sp_local_state_dir :: "string result"
  sp_log_path :: "string result"
  sp_device_id :: "string result"
  sp_path_style_home_relative :: "bool result"
    \<comment> \<open>of the configuration, when it loads\<close>

record world =
  w_host :: host
  w_net :: net
  w_rnd :: entropy
  w_now :: instant
  w_later :: instant
  w_server :: ServerConfig
  w_email :: string
  w_uuid :: string
  w_hub :: "(emitted \<times> loop_state) result option"
  w_discovery_timely :: bool
  w_dialog :: "(instant \<times> instant \<times> string) list"
  w_native_delete :: "string option \<Rightarrow> unit result"
  w_bind_dialog :: "bool result"
  w_paths :: status_paths

definition tuple_of_key :: "DecryptedSshKey \<Rightarrow> key_tuple" where
  "tuple_of_key k = (private_key_pem k, dk_name k, dk_cipher_id k)"

definition names_of :: "(string \<times> string) list \<Rightarrow> (string, string) amap" where
  "names_of ps = am_of_pairs ps"

section \<open>Reconciling synced keys\<close>

definition reconcile_synced_key_state :: "world \<Rightarrow> key_tuple list \<Rightarrow> daemon \<Rightarrow> daemon" where
  "reconcile_synced_key_state W key_tuples s =
     (case clear_authorization_memory_for_changed_keys (w_host W) (key_material_fingerprints s) key_tuples
             (authorization_memory s) of
        (_, new_fingerprints, memory) \<Rightarrow>
          (let s1 = s\<lparr>authorization_memory := memory, public_key_identity_tuples := key_tuples,
                      cached_key_tuples := key_tuples, key_material_fingerprints := new_fingerprints\<rparr>
           in case (local_key_cache_data s1, local_cache_key_state s1) of
                (Some existing, Some key) \<Rightarrow>
                  (case refresh_envelope_local_key_cache (w_host W) (w_rnd W) key_tuples existing key (d_disk s1) of
                     (Inr cache, d) \<Rightarrow>
                       s1\<lparr>local_key_cache_data := Some cache, local_cache_key_state := Some key, d_disk := d,
                          notification_state := mark_cache_refreshed (notification_state s1)\<rparr>
                   | (Inl e, d) \<Rightarrow>
                       s1\<lparr>d_disk := d, notification_state := mark_cache_stale e (notification_state s1)\<rparr>)
              | _ \<Rightarrow> s1))"

section \<open>A sync cycle\<close>

definition do_sync :: "world \<Rightarrow> daemon \<Rightarrow> nat result \<times> daemon" where
  "do_sync W s =
     (case api_client s of
        None \<Rightarrow> (Inl ''Not authenticated. Run 'sshwarden login'.'', s)
      | Some client \<Rightarrow>
          if \<not> has_user_key client
          then (Inl ''Bitwarden session cannot decrypt vault data. Run `sshwarden login` to re-authenticate with your master password.'', s)
          else case sync_ssh_keys (h_crypto (w_host W)) (w_net W) client of
            Inl e \<Rightarrow> (Inl (''Sync failed: '' @ e), s)
          | Inr keys \<Rightarrow>
              (let key_tuples = map tuple_of_key keys;
                   s1 = s\<lparr>ssh_config_calls := ssh_config_calls s @ [keys]\<rparr>;
                   s2 = reconcile_synced_key_state W key_tuples s1;
                   s3 = s2\<lparr>key_names := names_of (map (\<lambda>k. (dk_cipher_id k, dk_name k)) keys)\<rparr>
               in case (if vault_locked s3 then (Inr (), d_agent s3)
                        else set_keys (h_ssh (w_host W)) key_tuples (d_agent s3)) of
                    (Inl e, a) \<Rightarrow> (Inl (''Sync succeeded but failed to reload keys: '' @ e), s3\<lparr>d_agent := a\<rparr>)
                  | (Inr _, a) \<Rightarrow>
                      (Inr (length key_tuples),
                       s3\<lparr>d_agent := a,
                          notification_state := record_successful_sync (w_later W) (notification_state s3)\<rparr>)))"

definition resolve_pending_sync :: "world \<Rightarrow> daemon \<Rightarrow> bool \<times> daemon" where
  "resolve_pending_sync W s =
     (if \<not> pending_sync s then (False, s)
      else case do_sync W (s\<lparr>pending_sync := False\<rparr>) of
             (Inr _, s') \<Rightarrow> (True, s')
           | (Inl _, s') \<Rightarrow> (False, s'\<lparr>pending_sync := True\<rparr>))"

section \<open>Frame\<close>

lemma reconcile_frame [simp, frame]:
  "d_agent (reconcile_synced_key_state W ks s) = d_agent s"
  "vault_locked (reconcile_synced_key_state W ks s) = vault_locked s"
  "api_client (reconcile_synced_key_state W ks s) = api_client s"
  "local_cache_key_state (reconcile_synced_key_state W ks s) = local_cache_key_state s"
  "key_names (reconcile_synced_key_state W ks s) = key_names s"
  "pending_sync (reconcile_synced_key_state W ks s) = pending_sync s"
  "notification_client (reconcile_synced_key_state W ks s) = notification_client s"
  "pin_failures (reconcile_synced_key_state W ks s) = pin_failures s"
  "ssh_config_calls (reconcile_synced_key_state W ks s) = ssh_config_calls s"
  "cached_key_tuples (reconcile_synced_key_state W ks s) = ks"
  "public_key_identity_tuples (reconcile_synced_key_state W ks s) = ks"
  "key_material_fingerprints (reconcile_synced_key_state W ks s)
     = key_material_fingerprints_from_tuples (w_host W) ks"
  by (simp_all add: reconcile_synced_key_state_def clear_authorization_memory_for_changed_keys_def Let_def
      split: prod.splits option.splits sum.splits)

lemma reconcile_memory:
  "authorization_memory (reconcile_synced_key_state W ks s)
     = snd (snd (clear_authorization_memory_for_changed_keys (w_host W) (key_material_fingerprints s) ks
         (authorization_memory s)))"
  by (simp add: reconcile_synced_key_state_def Let_def split: prod.splits option.splits sum.splits)

lemma do_sync_frame [simp, frame]:
  "vault_locked (snd (do_sync W s)) = vault_locked s"
  "api_client (snd (do_sync W s)) = api_client s"
  "local_cache_key_state (snd (do_sync W s)) = local_cache_key_state s"
  "pending_sync (snd (do_sync W s)) = pending_sync s"
  "pin_failures (snd (do_sync W s)) = pin_failures s"
  "notification_client (snd (do_sync W s)) = notification_client s"
  by (simp_all add: do_sync_def Let_def split: option.splits sum.splits prod.splits)

end
