(* ===== verification/Unlock.thy ===== *)
theory Unlock
  imports Sync
begin

text \<open>
  \<open>src/unlock.rs\<close> and the native unlock of \<open>src/cache.rs\<close>: finishing an unlock, recovering the
  cache key for a manual sync, restoring the API session after a PIN unlock and saving the device
  session. The build without Windows Hello is modelled: the Hello token of a session is preserved.
\<close>

section \<open>Finishing an unlock\<close>

definition finish_unlock_with_json :: "world \<Rightarrow> string \<Rightarrow> string \<Rightarrow> daemon \<Rightarrow> ControlResponse \<times> daemon" where
  "finish_unlock_with_json W keys_json success_msg s =
     (case keys_from_json (w_host W) keys_json of
        Inl e \<Rightarrow> (ctl_err (''Failed to parse decrypted keys: '' @ e), s)
      | Inr keys \<Rightarrow>
          (let s1 = s\<lparr>key_names := names_of (map (\<lambda>(_, name, i). (i, name)) keys), cached_key_tuples := keys\<rparr>
           in case set_keys (h_ssh (w_host W)) keys (d_agent s1) of
                (Inl e, a) \<Rightarrow> (ctl_err (''Failed to reload keys: '' @ e), s1\<lparr>d_agent := a\<rparr>)
              | (Inr _, a) \<Rightarrow> (ctl_ok success_msg, s1\<lparr>d_agent := a, vault_locked := False\<rparr>)))"

definition finish_native_unlock_response :: "world \<Rightarrow> LocalKeyCacheFile \<Rightarrow> string \<Rightarrow> daemon \<Rightarrow> ControlResponse \<times> daemon" where
  "finish_native_unlock_response W cache success_msg s =
     (case decrypt_envelope_local_key_cache_with_native (w_host W) cache (d_disk s) of
        Inr (keys_json, key) \<Rightarrow>
          finish_unlock_with_json W keys_json success_msg (s\<lparr>local_cache_key_state := Some key\<rparr>)
      | Inl e \<Rightarrow> (ctl_err (''Native unlock failed: '' @ e), s))"

section \<open>The PIN dialog\<close>

text \<open>
  \<open>request_pin_dialog\<close> with a gated validator: the user's attempts are tried in order until one is
  accepted; what the accepted validator call captured comes with it. Running out of attempts is a
  cancelled dialog.
\<close>

fun run_pin_dialog :: "(string \<Rightarrow> 'a option) \<Rightarrow> (instant \<times> instant \<times> string) list \<Rightarrow> PinFailureState \<Rightarrow>
    (string \<times> 'a) option \<times> PinFailureState" where
  "run_pin_dialog inner [] st = (None, st)"
| "run_pin_dialog inner ((t, t', pin) # rest) st =
     (case gate_pin_validator inner t t' pin st of
        (Some captured, st') \<Rightarrow> (Some (pin, captured), st')
      | (None, st') \<Rightarrow> run_pin_dialog inner rest st')"

definition pin_validator :: "host \<Rightarrow> LocalKeyCacheFile \<Rightarrow> string \<Rightarrow> (string \<times> SymmetricKey) option" where
  "pin_validator H cache pin = res_ok (decrypt_envelope_local_key_cache_with_pin H cache pin)"

lemma run_pin_dialog_Some:
  "run_pin_dialog inner attempts st = (Some (pin, x), st') \<Longrightarrow>
   \<exists>t t'. (t, t', pin) \<in> set attempts \<and> inner pin = Some x"
proof (induction attempts arbitrary: st)
  case (Cons a as)
  obtain t t' p where a: "a = (t, t', p)" by (cases a)
  obtain r st1 where g: "gate_pin_validator inner t t' p st = (r, st1)" by fastforce
  show ?case
  proof (cases r)
    case None
    with Cons a g show ?thesis by fastforce
  next
    case (Some y)
    then have "inner p = Some y"
      using g by (auto simp: gate_pin_validator_def Let_def split: prod.splits option.splits)
    with Cons.prems a g Some show ?thesis by auto
  qed
qed simp

text \<open>The end of \<open>ensure_local_cache_key_for_manual_sync\<close>: asking for the PIN.\<close>

definition ask_pin_for_sync :: "world \<Rightarrow> LocalKeyCacheFile \<Rightarrow> daemon \<Rightarrow> unit result \<times> daemon" where
  "ask_pin_for_sync W cache s =
     (if pin_encrypted (local_cache_key cache) = None then (Inr (), s)
      else case run_pin_dialog (\<lambda>pin. map_option snd (pin_validator (w_host W) cache pin)) (w_dialog W) (pin_failures s) of
             (Some (_, key), pf) \<Rightarrow> (Inr (), s\<lparr>pin_failures := pf, local_cache_key_state := Some key\<rparr>)
           | (None, pf) \<Rightarrow>
               (Inl ''Sync cancelled: PIN is required to refresh the Local Key Cache for this unlocked session'',
                s\<lparr>pin_failures := pf\<rparr>))"

definition ensure_local_cache_key_for_manual_sync :: "world \<Rightarrow> daemon \<Rightarrow> unit result \<times> daemon" where
  "ensure_local_cache_key_for_manual_sync W s =
     (case (if multi_device_mode (w_host W)
            then reload_shared_local_cache_from_disk_if_multi_device (w_host W) (local_key_cache_data s) (d_disk s)
            else (local_key_cache_data s, d_disk s)) of
        (cached, d) \<Rightarrow>
          (let s1 = s\<lparr>local_key_cache_data := cached, d_disk := d\<rparr>
           in case cached of
                None \<Rightarrow> (Inr (), s1)
              | Some cache \<Rightarrow>
                  (case local_cache_key_state s1 of
                     Some key \<Rightarrow>
                       if is_ok (decrypt_envelope_payload (w_host W) cache key) then (Inr (), s1)
                       else ask_pin_for_sync W cache (s1\<lparr>local_cache_key_state := None\<rparr>)
                   | None \<Rightarrow> ask_pin_for_sync W cache s1)))"

section \<open>The device session\<close>

definition create_or_preserve_hello_encrypted_token :: "string \<Rightarrow> string option \<Rightarrow> string option" where
  "create_or_preserve_hello_encrypted_token token existing = existing"

definition save_device_session :: "world \<Rightarrow> BitwardenClient \<Rightarrow> string option \<Rightarrow> daemon \<Rightarrow> daemon" where
  "save_device_session W client pin s =
     (case refresh_token client of
        None \<Rightarrow> s
      | Some token \<Rightarrow>
          (let existing = unwrap_or None (res_ok (load_session (h_os (w_host W)) (d_disk s)));
               old_pin_token = Option.bind existing pin_encrypted_token;
               pin_token = (case pin of
                  Some p \<Rightarrow> (case pin_encrypt (h_crypto (w_host W)) (rnd_token_iv (w_rnd W)) token p of
                               Inr enc \<Rightarrow> Some enc | Inl _ \<Rightarrow> old_pin_token)
                | None \<Rightarrow> old_pin_token);
               hello_token = create_or_preserve_hello_encrypted_token token (Option.bind existing hello_encrypted_token);
               session = \<lparr>session_version = 1, session_device_id = device_id client,
                          pin_encrypted_token = pin_token, hello_encrypted_token = hello_token,
                          session_identity_url = c_identity_url client\<rparr>
           in s\<lparr>d_disk := snd (save_session (h_os (w_host W)) session (d_disk s))\<rparr>))"

text \<open>Connecting the notification client for \<open>client\<close> when it has an access token.\<close>

definition connect_hub :: "world \<Rightarrow> BitwardenClient \<Rightarrow> daemon \<Rightarrow> daemon" where
  "connect_hub W client s =
     (case access_token client of
        None \<Rightarrow> s
      | Some _ \<Rightarrow>
          (let discovery = (if w_discovery_timely W then Some (discover_notifications_url (w_net W) client) else None)
           in case connect_notification_client (w_later W) (w_server W) (Some discovery) (w_hub W) (notification_state s) of
                (c, ns) \<Rightarrow> s\<lparr>notification_client := c, notification_state := ns\<rparr>))"

definition try_restore_api_session :: "world \<Rightarrow> string \<Rightarrow> daemon \<Rightarrow> daemon" where
  "try_restore_api_session W pin s =
     (if api_client s \<noteq> None then s
      else case load_session (h_os (w_host W)) (d_disk s) of
        Inl _ \<Rightarrow> s
      | Inr None \<Rightarrow> s
      | Inr (Some session) \<Rightarrow>
          (case pin_encrypted_token session of
             None \<Rightarrow> s
           | Some enc \<Rightarrow>
               (case pin_decrypt (h_crypto (w_host W)) enc pin of
                  Inl _ \<Rightarrow> s
                | Inr token \<Rightarrow>
                    (let client = (client_new_with_device_id (base_url (w_server W)) (api_url (w_server W))
                                     (session_identity_url session) (session_device_id session))
                                    \<lparr>refresh_token := Some token\<rparr>
                     in case refresh_access_token (w_net W) client of
                          (Inr _, client') \<Rightarrow>
                            (save_device_session W client' (Some pin) (connect_hub W client' s))
                              \<lparr>api_client := Some client'\<rparr>
                        | (Inl _, _) \<Rightarrow>
                            s\<lparr>d_disk := snd (delete_session (h_os (w_host W)) (d_disk s))\<rparr>))))"

section \<open>Frame\<close>

lemma save_device_session_frame [simp, frame]:
  "d_agent (save_device_session W c p s) = d_agent s"
  "vault_locked (save_device_session W c p s) = vault_locked s"
  "cached_key_tuples (save_device_session W c p s) = cached_key_tuples s"
  "public_key_identity_tuples (save_device_session W c p s) = public_key_identity_tuples s"
  "local_key_cache_data (save_device_session W c p s) = local_key_cache_data s"
  "local_cache_key_state (save_device_session W c p s) = local_cache_key_state s"
  "key_material_fingerprints (save_device_session W c p s) = key_material_fingerprints s"
  "key_names (save_device_session W c p s) = key_names s"
  "pending_sync (save_device_session W c p s) = pending_sync s"
  "authorization_memory (save_device_session W c p s) = authorization_memory s"
  "pin_failures (save_device_session W c p s) = pin_failures s"
  "ssh_config_calls (save_device_session W c p s) = ssh_config_calls s"
  "api_client (save_device_session W c p s) = api_client s"
  "notification_state (save_device_session W c p s) = notification_state s"
  "notification_client (save_device_session W c p s) = notification_client s"
  by (simp_all add: save_device_session_def Let_def split: option.splits)

lemma connect_hub_frame [simp, frame]:
  "d_agent (connect_hub W c s) = d_agent s"
  "vault_locked (connect_hub W c s) = vault_locked s"
  "cached_key_tuples (connect_hub W c s) = cached_key_tuples s"
  "public_key_identity_tuples (connect_hub W c s) = public_key_identity_tuples s"
  "local_key_cache_data (connect_hub W c s) = local_key_cache_data s"
  "local_cache_key_state (connect_hub W c s) = local_cache_key_state s"
  "key_material_fingerprints (connect_hub W c s) = key_material_fingerprints s"
  "key_names (connect_hub W c s) = key_names s"
  "pending_sync (connect_hub W c s) = pending_sync s"
  "authorization_memory (connect_hub W c s) = authorization_memory s"
  "pin_failures (connect_hub W c s) = pin_failures s"
  "ssh_config_calls (connect_hub W c s) = ssh_config_calls s"
  "api_client (connect_hub W c s) = api_client s"
  "d_disk (connect_hub W c s) = d_disk s"
  by (simp_all add: connect_hub_def Let_def split: option.splits prod.splits)

lemma try_restore_frame [simp, frame]:
  "d_agent (try_restore_api_session W pin s) = d_agent s"
  "vault_locked (try_restore_api_session W pin s) = vault_locked s"
  "cached_key_tuples (try_restore_api_session W pin s) = cached_key_tuples s"
  "public_key_identity_tuples (try_restore_api_session W pin s) = public_key_identity_tuples s"
  "local_key_cache_data (try_restore_api_session W pin s) = local_key_cache_data s"
  "local_cache_key_state (try_restore_api_session W pin s) = local_cache_key_state s"
  "key_material_fingerprints (try_restore_api_session W pin s) = key_material_fingerprints s"
  "key_names (try_restore_api_session W pin s) = key_names s"
  "pending_sync (try_restore_api_session W pin s) = pending_sync s"
  "authorization_memory (try_restore_api_session W pin s) = authorization_memory s"
  "pin_failures (try_restore_api_session W pin s) = pin_failures s"
  "ssh_config_calls (try_restore_api_session W pin s) = ssh_config_calls s"
  by (simp_all add: try_restore_api_session_def Let_def split: option.splits sum.splits prod.splits)

lemma ask_pin_frame [simp, frame]:
  "d_agent (snd (ask_pin_for_sync W cache s)) = d_agent s"
  "vault_locked (snd (ask_pin_for_sync W cache s)) = vault_locked s"
  "cached_key_tuples (snd (ask_pin_for_sync W cache s)) = cached_key_tuples s"
  "public_key_identity_tuples (snd (ask_pin_for_sync W cache s)) = public_key_identity_tuples s"
  "api_client (snd (ask_pin_for_sync W cache s)) = api_client s"
  "local_key_cache_data (snd (ask_pin_for_sync W cache s)) = local_key_cache_data s"
  "key_material_fingerprints (snd (ask_pin_for_sync W cache s)) = key_material_fingerprints s"
  "key_names (snd (ask_pin_for_sync W cache s)) = key_names s"
  "pending_sync (snd (ask_pin_for_sync W cache s)) = pending_sync s"
  "authorization_memory (snd (ask_pin_for_sync W cache s)) = authorization_memory s"
  "notification_state (snd (ask_pin_for_sync W cache s)) = notification_state s"
  "notification_client (snd (ask_pin_for_sync W cache s)) = notification_client s"
  "d_disk (snd (ask_pin_for_sync W cache s)) = d_disk s"
  "ssh_config_calls (snd (ask_pin_for_sync W cache s)) = ssh_config_calls s"
  by (simp_all add: ask_pin_for_sync_def split: option.splits prod.splits)

lemma ensure_key_frame [simp, frame]:
  "d_agent (snd (ensure_local_cache_key_for_manual_sync W s)) = d_agent s"
  "vault_locked (snd (ensure_local_cache_key_for_manual_sync W s)) = vault_locked s"
  "cached_key_tuples (snd (ensure_local_cache_key_for_manual_sync W s)) = cached_key_tuples s"
  "public_key_identity_tuples (snd (ensure_local_cache_key_for_manual_sync W s)) = public_key_identity_tuples s"
  "api_client (snd (ensure_local_cache_key_for_manual_sync W s)) = api_client s"
  "key_material_fingerprints (snd (ensure_local_cache_key_for_manual_sync W s)) = key_material_fingerprints s"
  "key_names (snd (ensure_local_cache_key_for_manual_sync W s)) = key_names s"
  "pending_sync (snd (ensure_local_cache_key_for_manual_sync W s)) = pending_sync s"
  "authorization_memory (snd (ensure_local_cache_key_for_manual_sync W s)) = authorization_memory s"
  "notification_state (snd (ensure_local_cache_key_for_manual_sync W s)) = notification_state s"
  "notification_client (snd (ensure_local_cache_key_for_manual_sync W s)) = notification_client s"
  "ssh_config_calls (snd (ensure_local_cache_key_for_manual_sync W s)) = ssh_config_calls s"
  by (simp_all add: ensure_local_cache_key_for_manual_sync_def Let_def split: option.splits prod.splits)

lemma set_pending_same: "pending_sync s = b \<Longrightarrow> s\<lparr>pending_sync := b\<rparr> = s"
  by (cases s) simp

lemma resolve_eq:
  "resolve_pending_sync W s =
     (if \<not> pending_sync s then (False, s)
      else let r = do_sync W (s\<lparr>pending_sync := False\<rparr>)
           in (is_ok (fst r), (snd r)\<lparr>pending_sync := \<not> is_ok (fst r)\<rparr>))"
proof -
  obtain r s' where d: "do_sync W (s\<lparr>pending_sync := False\<rparr>) = (r, s')" by fastforce
  then have "pending_sync s' = False" using do_sync_frame(4) [of W "s\<lparr>pending_sync := False\<rparr>"] by simp
  then show ?thesis by (cases r) (simp_all add: resolve_pending_sync_def d Let_def set_pending_same)
qed

lemma resolve_frame [simp, frame]:
  "vault_locked (snd (resolve_pending_sync W s)) = vault_locked s"
  "api_client (snd (resolve_pending_sync W s)) = api_client s"
  "local_cache_key_state (snd (resolve_pending_sync W s)) = local_cache_key_state s"
  "pin_failures (snd (resolve_pending_sync W s)) = pin_failures s"
  "notification_client (snd (resolve_pending_sync W s)) = notification_client s"
  by (simp_all add: resolve_eq Let_def)

lemma finish_unlock_frame [simp, frame]:
  "public_key_identity_tuples (snd (finish_unlock_with_json W j m s)) = public_key_identity_tuples s"
  "api_client (snd (finish_unlock_with_json W j m s)) = api_client s"
  "local_key_cache_data (snd (finish_unlock_with_json W j m s)) = local_key_cache_data s"
  "local_cache_key_state (snd (finish_unlock_with_json W j m s)) = local_cache_key_state s"
  "key_material_fingerprints (snd (finish_unlock_with_json W j m s)) = key_material_fingerprints s"
  "pending_sync (snd (finish_unlock_with_json W j m s)) = pending_sync s"
  "notification_state (snd (finish_unlock_with_json W j m s)) = notification_state s"
  "notification_client (snd (finish_unlock_with_json W j m s)) = notification_client s"
  "authorization_memory (snd (finish_unlock_with_json W j m s)) = authorization_memory s"
  "pin_failures (snd (finish_unlock_with_json W j m s)) = pin_failures s"
  "d_disk (snd (finish_unlock_with_json W j m s)) = d_disk s"
  "ssh_config_calls (snd (finish_unlock_with_json W j m s)) = ssh_config_calls s"
  by (simp_all add: finish_unlock_with_json_def Let_def split: sum.splits prod.splits)

end
