(* ===== verification/Control.thy ===== *)
theory Control
  imports Unlock
begin

text \<open>
  \<open>src/control.rs\<close>: locking the vault, the status response and the handler of every control
  action.
\<close>

section \<open>Locking\<close>

text \<open>The two handles the caller may leave out are the flags \<open>with_key\<close> and \<open>with_memory\<close>.\<close>

definition lock_vault :: "bool \<Rightarrow> bool \<Rightarrow> daemon \<Rightarrow> unit result \<times> daemon" where
  "lock_vault with_key with_memory s =
     (case agent_lock (d_agent s) of
        (Inl e, a) \<Rightarrow> (Inl e, s\<lparr>d_agent := a\<rparr>)
      | (Inr _, a) \<Rightarrow>
          (Inr (), s\<lparr>d_agent := a, vault_locked := True, cached_key_tuples := [],
                     local_cache_key_state := (if with_key then None else local_cache_key_state s),
                     authorization_memory := (if with_memory then [] else authorization_memory s)\<rparr>))"

section \<open>Status\<close>

definition STATUS_SCHEMA_VERSION :: nat where "STATUS_SCHEMA_VERSION = 2"

definition unresolved :: "string result \<Rightarrow> string" where
  "unresolved r = unwrap_or ''<unresolved>'' (res_ok r)"

definition status_details :: "world \<Rightarrow> daemon \<Rightarrow> json" where
  "status_details W s =
     (let p = w_paths W in JObj
       [(''schema_version'', JNum STATUS_SCHEMA_VERSION),
        (''agent_pid'', JNum (sp_pid p)),
        (''locked'', JBool (vault_locked s)),
        (''key_count'', JNum (key_count (d_agent s))),
        (''signable_key_count'', JNum (signable_key_count (d_agent s))),
        (''agent_running'', JBool (is_running (d_agent s))),
        (''has_pin'', JBool (case local_key_cache_data s of
                               Some c \<Rightarrow> pin_encrypted (local_cache_key c) \<noteq> None | None \<Rightarrow> False)),
        (''has_local_key_cache'', JBool (local_key_cache_data s \<noteq> None)),
        (''authenticated'', JBool (api_client s \<noteq> None)),
        (''pending_sync'', JBool (pending_sync s)),
        (''data_dir'', JStr (unresolved (sp_device_data_dir p))),
        (''shared_data_dir'', JStr (unresolved (sp_shared_data_dir p))),
        (''device_data_dir'', JStr (unresolved (sp_device_data_dir p))),
        (''local_state_dir'', JStr (unresolved (sp_local_state_dir p))),
        (''log_path'', JStr (unresolved (sp_log_path p))),
        (''device_id'', JStr (unresolved (sp_device_id p))),
        (''multi_device'', JBool (unwrap_or False (res_ok (multi_device_enabled (w_host W))))),
        (''ssh_config_path_style'',
          JStr (case sp_path_style_home_relative p of Inr True \<Rightarrow> ''home_relative'' | _ \<Rightarrow> ''absolute'')),
        (''notification'', runtime_to_json (w_now W) (notification_state s))])"

definition status_extras :: "world \<Rightarrow> daemon \<Rightarrow> string list" where
  "status_extras W s =
     (let count = key_count (d_agent s); signable = signable_key_count (d_agent s);
          has_pin = (case local_key_cache_data s of
                       Some c \<Rightarrow> pin_encrypted (local_cache_key c) \<noteq> None | None \<Rightarrow> False);
          authenticated = (api_client s \<noteq> None)
      in (if \<not> is_running (d_agent s) then [''AGENT NOT SERVING (SSH endpoint unavailable)''] else [])
       @ (if 0 < count \<and> signable < count then [''keys listed but not signable until unlock''] else [])
       @ (if has_pin then [''PIN configured''] else [])
       @ (if local_key_cache_data s \<noteq> None then [''local key cache present''] else [])
       @ (if authenticated then [''API session restored''] else [])
       @ (if unwrap_or False (res_ok (multi_device_enabled (w_host W))) then [''multi-device storage''] else [])
       @ (if pending_sync s then [''pending sync''] else [])
       @ (if rs_stale_cache (notification_state s) then [''local key cache refresh failed''] else [])
       @ [''notifications '' @ health_label (w_now W) authenticated (notification_state s)])"

definition build_status_response :: "world \<Rightarrow> bool \<Rightarrow> daemon \<Rightarrow> ControlResponse" where
  "build_status_response W as_json s =
     (let resp = with_details (status_details W s) (ctl_status (vault_locked s) (key_count (d_agent s)));
          extras = status_extras W s
      in if as_json then resp\<lparr>resp_message := None\<rparr>
         else if extras \<noteq> []
         then resp\<lparr>resp_message := Some (unwrap_or [] (resp_message resp) @ '' ('' @ join '', '' extras @ '')'')\<rparr>
         else resp)"

section \<open>The actions\<close>

definition after_unlock :: "world \<Rightarrow> ControlResponse \<times> daemon \<Rightarrow> ControlResponse \<times> daemon" where
  "after_unlock W = (\<lambda>(resp, s). (resp, if resp_ok resp then snd (resolve_pending_sync W s) else s))"

definition after_pin_unlock :: "world \<Rightarrow> string \<Rightarrow> ControlResponse \<times> daemon \<Rightarrow> ControlResponse \<times> daemon" where
  "after_pin_unlock W pin = (\<lambda>(resp, s).
     (resp, if resp_ok resp then snd (resolve_pending_sync W (try_restore_api_session W pin s)) else s))"

definition native_msg :: string where
  "native_msg = ''Vault unlocked via platform-native local key cache''"

definition unlock_pin_dialog :: "world \<Rightarrow> daemon \<Rightarrow> ControlResponse \<times> daemon" where
  "unlock_pin_dialog W s =
     (let cancelled_msg = ctl_err ''Unlock cancelled. Try: sshwarden unlock --method pin (or sshwarden login).''
      in case option_filter (\<lambda>c. pin_encrypted (local_cache_key c) \<noteq> None) (local_key_cache_data s) of
           None \<Rightarrow> (cancelled_msg, s)
         | Some cache \<Rightarrow>
             (case run_pin_dialog (pin_validator (w_host W) cache) (w_dialog W) (pin_failures s) of
                (None, pf) \<Rightarrow> (cancelled_msg, s\<lparr>pin_failures := pf\<rparr>)
              | (Some (pin, keys_json, key), pf) \<Rightarrow>
                  after_pin_unlock W pin
                    (finish_unlock_with_json W keys_json ''Vault unlocked via PIN dialog''
                       (s\<lparr>pin_failures := pf, local_cache_key_state := Some key\<rparr>))))"

definition handle_unlock :: "world \<Rightarrow> bool \<Rightarrow> daemon \<Rightarrow> ControlResponse \<times> daemon" where
  "handle_unlock W auto_unlock s =
     (if \<not> vault_locked s then (ctl_ok ''Vault is already unlocked'', s)
      else let dialog = (\<lambda>s. if auto_unlock then unlock_pin_dialog W s
                             else (ctl_err ''Auto-unlock is disabled. Use: sshwarden unlock --method pin (or sshwarden login).'', s))
           in case local_key_cache_data s of
                None \<Rightarrow> dialog s
              | Some cache \<Rightarrow>
                  (case finish_native_unlock_response W cache native_msg s of
                     (resp, s') \<Rightarrow> if resp_ok resp then after_unlock W (resp, s') else dialog s'))"

definition handle_unlock_native :: "world \<Rightarrow> daemon \<Rightarrow> ControlResponse \<times> daemon" where
  "handle_unlock_native W s =
     (if \<not> vault_locked s then (ctl_ok ''Vault is already unlocked'', s)
      else case local_key_cache_data s of
             None \<Rightarrow> (ctl_err ''No Local Key Cache found'', s)
           | Some cache \<Rightarrow> after_unlock W (finish_native_unlock_response W cache native_msg s))"

text \<open>
  The block labelled \<open>'unlock\<close> of the PIN action: everything between the lockout check and the
  recording of the outcome. With a verified PIN a fixed-salt cache is migrated and, in multi-device
  mode, this device's own slot enrolled; then the cache key is held.
\<close>

definition hold_key :: "world \<Rightarrow> LocalKeyCacheFile \<Rightarrow> SymmetricKey \<Rightarrow> string \<Rightarrow> daemon \<Rightarrow> daemon" where
  "hold_key W cache key pin s =
     (let s1 = (if needs_pin_salt_migration cache
                then case migrate_pin_salt_to_v3 (w_host W) (w_rnd W) cache key pin (d_disk s) of
                       (Inr migrated, d) \<Rightarrow> s\<lparr>local_key_cache_data := Some migrated, d_disk := d\<rparr>
                     | (Inl _, d) \<Rightarrow> s\<lparr>d_disk := d\<rparr>
                else s)
      in s1\<lparr>d_disk := enroll_device_platform_slots_if_missing (w_host W) key (d_disk s1),
            local_cache_key_state := Some key\<rparr>)"

definition try_pin :: "world \<Rightarrow> string \<Rightarrow> daemon \<Rightarrow> ControlResponse \<times> daemon" where
  "try_pin W pin s =
     (case local_key_cache_data s of
        None \<Rightarrow> (ctl_err ''No PIN configured. Use 'sshwarden set-pin' first.'', s)
      | Some cache \<Rightarrow>
          (case decrypt_envelope_local_key_cache_with_pin (w_host W) cache pin of
             Inl _ \<Rightarrow> (ctl_err ''Invalid PIN'', s)
           | Inr (keys_json, key) \<Rightarrow>
               after_pin_unlock W pin
                 (finish_unlock_with_json W keys_json ''Vault unlocked via PIN local key cache''
                    (hold_key W cache key pin s))))"

definition handle_unlock_pin :: "world \<Rightarrow> string \<Rightarrow> daemon \<Rightarrow> ControlResponse \<times> daemon" where
  "handle_unlock_pin W pin s =
     (if \<not> vault_locked s then (ctl_ok ''Vault is already unlocked'', s)
      else case pin_lockout_remaining (w_now W) (pin_failures s) of
             (Some wait, pf) \<Rightarrow>
               (ctl_err (''Too many failed PIN attempts; locked for '' @ show_nat (as_secs wait + 1) @ ''s''),
                s\<lparr>pin_failures := pf\<rparr>)
           | (None, pf) \<Rightarrow>
               (case try_pin W pin (s\<lparr>pin_failures := pf\<rparr>) of
                  (resp, s') \<Rightarrow>
                    (resp, s'\<lparr>pin_failures := snd (record_pin_attempt (w_later W) (resp_ok resp) (pin_failures s'))\<rparr>)))"

definition create_client :: "world \<Rightarrow> BitwardenClient" where
  "create_client W = client_new (w_uuid W) (base_url (w_server W)) (api_url (w_server W)) (identity_url (w_server W))"

definition handle_unlock_password :: "world \<Rightarrow> string \<Rightarrow> daemon \<Rightarrow> ControlResponse \<times> daemon" where
  "handle_unlock_password W password s =
     (let was_locked = vault_locked s; L = h_crypto (w_host W)
      in if w_email W = [] then (ctl_err ''No email configured. Cannot re-login.'', s)
         else case login_password L (w_net W) (w_email W) password (create_client W) of
           (Inl e, _) \<Rightarrow> (ctl_err (''Login failed: '' @ e), s)
         | (Inr _, client) \<Rightarrow>
             (case sync_ssh_keys L (w_net W) client of
                Inl e \<Rightarrow> (ctl_err (''Sync failed after login: '' @ e), s)
              | Inr keys \<Rightarrow>
                  (let key_tuples = map tuple_of_key keys;
                       s1 = reconcile_synced_key_state W key_tuples (s\<lparr>ssh_config_calls := ssh_config_calls s @ [keys]\<rparr>);
                       s2 = s1\<lparr>key_names := names_of (map (\<lambda>k. (dk_cipher_id k, dk_name k)) keys)\<rparr>
                   in case set_keys (h_ssh (w_host W)) key_tuples (d_agent s2) of
                        (Inl e, a) \<Rightarrow>
                          (ctl_err (''Login succeeded but failed to load keys: '' @ e), s2\<lparr>d_agent := a\<rparr>)
                      | (Inr _, a) \<Rightarrow>
                          (let s3 = s2\<lparr>d_agent := a, vault_locked := False\<rparr>;
                               s4 = connect_hub W client (save_device_session W client None s3);
                               s5 = snd (resolve_pending_sync W (s4\<lparr>api_client := Some client\<rparr>));
                               n = show_nat (length key_tuples)
                           in (ctl_ok (if was_locked then ''Vault unlocked, '' @ n @ '' SSH keys loaded''
                                       else ''Bitwarden session refreshed, '' @ n @ '' SSH keys loaded''), s5)))))"

definition handle_sync :: "world \<Rightarrow> daemon \<Rightarrow> ControlResponse \<times> daemon" where
  "handle_sync W s =
     (let was_locked = vault_locked s
      in case (if \<not> was_locked \<and> multi_device_mode (w_host W)
               then ensure_local_cache_key_for_manual_sync W s else (Inr (), s)) of
           (Inl e, s1) \<Rightarrow> (ctl_err e, s1)
         | (Inr _, s1) \<Rightarrow>
             (case do_sync W s1 of
                (Inl e, s2) \<Rightarrow> (ctl_err e, s2)
              | (Inr count, s2) \<Rightarrow>
                  if was_locked
                  then (ctl_ok (''Synced '' @ show_nat count @ '' SSH keys to cache; they will load into the agent on next unlock''),
                        s2\<lparr>pending_sync := True\<rparr>)
                  else (ctl_ok (''Synced '' @ show_nat count @ '' SSH keys''), s2)))"

definition fail_item :: "string \<Rightarrow> unit result \<Rightarrow> string list" where
  "fail_item what r = (case r of Inr _ \<Rightarrow> [] | Inl e \<Rightarrow> [what @ '' ('' @ e @ '')''])"

definition handle_forget :: "world \<Rightarrow> bool \<Rightarrow> daemon \<Rightarrow> ControlResponse \<times> daemon" where
  "handle_forget W shared s =
     (let H = w_host W; os = h_os H;
          remove_shared_cache = (shared \<or> \<not> multi_device_mode H);
          (r1, d1) = (if remove_shared_cache then delete_cache os (d_disk s) else (Inr (), d_disk s));
          native_slot = Option.bind (local_key_cache_data s) (\<lambda>c. current_native_unlock_slot H c d1);
          r2 = w_native_delete W native_slot;
          (r3, d2) = delete_slots os d1;
          (r4, d3) = delete_session os d2;
          fails = fail_item ''local key cache'' r1 @ fail_item ''native unlock material'' r2
                    @ fail_item ''device unlock slots file'' r3 @ fail_item ''device session file'' r4;
          s1 = s\<lparr>d_disk := d3, local_cache_key_state := None, authorization_memory := [],
                 cached_key_tuples := [], api_client := None, pending_sync := False,
                 notification_client := None, notification_state := runtime_reset (notification_state s),
                 vault_locked := True, public_key_identity_tuples := [], key_names := [],
                 d_agent := clear_keys (d_agent s)\<rparr>;
          s2 = (if remove_shared_cache then s1\<lparr>local_key_cache_data := None\<rparr>
                else let cache = unwrap_or None (res_ok (load_cache os d3))
                     in case cache of
                          None \<Rightarrow> s1\<lparr>local_key_cache_data := None\<rparr>
                        | Some c \<Rightarrow>
                            (let identities = key_tuples_from_cache_header c
                             in s1\<lparr>local_key_cache_data := Some c,
                                   d_agent := snd (set_public_identities (h_ssh H) identities (d_agent s1)),
                                   public_key_identity_tuples := identities,
                                   key_names := names_of (map (\<lambda>(_, name, i). (i, name)) identities)\<rparr>))
      in (if fails = []
          then ctl_ok (if remove_shared_cache then ''Forgot shared local key cache and device session material''
                       else ''Forgot this device's session and native unlock material; shared key cache was kept'')
          else ctl_err (''Cleared in-memory state, but FAILED to delete on-disk material: '' @ join ''; '' fails
                        @ ''. This material may still exist on disk '' @ [CHR 0xE2, CHR 0x80, CHR 0x94]
                        @ '' remove it manually.''), s2))"

definition handle_set_pin :: "world \<Rightarrow> string \<Rightarrow> daemon \<Rightarrow> ControlResponse \<times> daemon" where
  "handle_set_pin W pin s =
     (if length pin < 4 then (ctl_err ''PIN must be at least 4 characters'', s)
      else if cached_key_tuples s = [] then (ctl_err ''No keys loaded. Login first.'', s)
      else case (case local_cache_key_state s of
                   Some key \<Rightarrow> write_envelope_local_key_cache_with_key (w_host W) (w_rnd W) (cached_key_tuples s)
                                 (w_email W) (base_url (w_server W)) pin key (d_disk s)
                 | None \<Rightarrow> write_envelope_local_key_cache (w_host W) (w_rnd W) (cached_key_tuples s)
                             (w_email W) (base_url (w_server W)) pin (d_disk s)) of
             (Inl e, d) \<Rightarrow> (ctl_err (''Failed to save envelope local key cache: '' @ e), s\<lparr>d_disk := d\<rparr>)
           | (Inr (cache, key), d) \<Rightarrow>
               (let s1 = s\<lparr>d_disk := d, local_key_cache_data := Some cache, local_cache_key_state := Some key\<rparr>;
                    s2 = (case api_client s1 of
                            Some client \<Rightarrow> save_device_session W client (Some pin) s1 | None \<Rightarrow> s1)
                in (ctl_ok ''PIN set successfully (persisted to local key cache)'', s2)))"

fun needs_reload :: "ControlAction \<Rightarrow> bool" where
  "needs_reload AUnlock = True"
| "needs_reload AUnlockNative = True"
| "needs_reload AUnlockHello = True"
| "needs_reload (AUnlockPin _) = True"
| "needs_reload ASync = True"
| "needs_reload _ = False"

definition reload_cache :: "world \<Rightarrow> daemon \<Rightarrow> daemon" where
  "reload_cache W s =
     (case reload_shared_local_cache_from_disk_if_multi_device (w_host W) (local_key_cache_data s) (d_disk s) of
        (cached, d) \<Rightarrow> s\<lparr>local_key_cache_data := cached, d_disk := d\<rparr>)"

fun run_action :: "world \<Rightarrow> bool \<Rightarrow> ControlAction \<Rightarrow> daemon \<Rightarrow> ControlResponse \<times> daemon" where
  "run_action W auto_unlock AStop s = (ctl_ok ''Stopping agent'', s)"
| "run_action W auto_unlock ALock s =
     (if vault_locked s then (ctl_ok ''Vault is already locked'', s)
      else case lock_vault True True s of
             (Inr _, s') \<Rightarrow> (ctl_ok ''Vault locked'', s')
           | (Inl e, s') \<Rightarrow> (ctl_err (''Failed to lock: '' @ e), s'))"
| "run_action W auto_unlock AUnlock s = handle_unlock W auto_unlock s"
| "run_action W auto_unlock AUnlockNative s = handle_unlock_native W s"
| "run_action W auto_unlock AUnlockHello s =
     (if \<not> vault_locked s then (ctl_ok ''Vault is already unlocked'', s)
      else (ctl_err ''Windows Hello is only supported on Windows'', s))"
| "run_action W auto_unlock (AStatus as_json) s = (build_status_response W as_json s, s)"
| "run_action W auto_unlock (AUnlockPin pin) s = handle_unlock_pin W pin s"
| "run_action W auto_unlock (AUnlockPassword password) s = handle_unlock_password W password s"
| "run_action W auto_unlock ASync s = handle_sync W s"
| "run_action W auto_unlock (AForget shared) s = handle_forget W shared s"
| "run_action W auto_unlock (ASetPin pin) s = handle_set_pin W pin s"
| "run_action W auto_unlock ABindHostsDialog s =
     (case w_bind_dialog W of
        Inr saved \<Rightarrow> (ctl_ok (if saved then ''Bindings updated'' else ''Dialog cancelled''), s)
      | Inl e \<Rightarrow> (ctl_err (''Failed to open bind-hosts dialog: '' @ e), s))"

definition handle_control_command :: "world \<Rightarrow> bool \<Rightarrow> ControlAction \<Rightarrow> daemon \<Rightarrow> ControlResponse \<times> daemon" where
  "handle_control_command W auto_unlock action s =
     run_action W auto_unlock action (if needs_reload action then reload_cache W s else s)"


section \<open>A locked vault stays silent\<close>

text \<open>
  A step is quiet when it ends locked only with the agent it started with, already locked, or with
  one that cannot sign.
\<close>

definition quiet :: "daemon \<Rightarrow> daemon \<Rightarrow> bool" where
  "quiet s s' \<longleftrightarrow> (vault_locked s' \<longrightarrow>
     vault_locked s \<and> d_agent s' = d_agent s \<or> signable (d_agent s') = {})"

definition locked_silent :: "daemon \<Rightarrow> bool" where
  "locked_silent s \<longleftrightarrow> (vault_locked s \<longrightarrow> signable (d_agent s) = {})"

lemma quiet_refl [simp]: "quiet s s"
  by (simp add: quiet_def)

lemma quiet_trans: "quiet s t \<Longrightarrow> quiet t u \<Longrightarrow> quiet s u"
  by (auto simp: quiet_def)

lemma quiet_same: "vault_locked s' = vault_locked s \<Longrightarrow> d_agent s' = d_agent s \<Longrightarrow> quiet s s'"
  by (simp add: quiet_def)

lemma quiet_cong: "vault_locked t = vault_locked s \<Longrightarrow> d_agent t = d_agent s \<Longrightarrow> quiet t u = quiet s u"
  by (simp add: quiet_def)

lemma locked_silent_step: "locked_silent s \<Longrightarrow> quiet s s' \<Longrightarrow> locked_silent s'"
  by (auto simp: quiet_def locked_silent_def)

lemma do_sync_quiet: "quiet s (snd (do_sync W s))"
proof (cases "vault_locked s")
  case True
  then show ?thesis
    by (intro quiet_same) (auto simp: do_sync_def Let_def split: option.splits sum.splits)
next
  case False
  then show ?thesis by (simp add: quiet_def)
qed

lemma resolve_quiet: "quiet s (snd (resolve_pending_sync W s))"
proof -
  have "quiet (s\<lparr>pending_sync := False\<rparr>) (snd (do_sync W (s\<lparr>pending_sync := False\<rparr>)))"
    by (rule do_sync_quiet)
  then show ?thesis by (simp add: resolve_eq Let_def quiet_def)
qed

lemma set_keys_error: "set_keys lib ts a = (Inl e, a') \<Longrightarrow> a' = a"
  by (auto simp: set_keys_def split: if_splits)

lemma finish_unlock_quiet: "quiet s (snd (finish_unlock_with_json W j m s))"
  by (auto simp: finish_unlock_with_json_def Let_def quiet_def dest: set_keys_error
      split: sum.splits prod.splits)

lemma finish_unlock_locked:
  "resp_ok (fst (finish_unlock_with_json W j m s)) \<longleftrightarrow> \<not> vault_locked (snd (finish_unlock_with_json W j m s))"
  if "vault_locked s"
  using that by (simp add: finish_unlock_with_json_def Let_def split: sum.splits prod.splits)

lemma finish_unlock_quiet_from:
  "vault_locked t = vault_locked s \<Longrightarrow> d_agent t = d_agent s \<Longrightarrow> quiet s (snd (finish_unlock_with_json W j m t))"
  using finish_unlock_quiet [of t W j m] quiet_cong [of t s] by blast

lemma finish_native_quiet: "quiet s (snd (finish_native_unlock_response W c m s))"
  by (auto simp: finish_native_unlock_response_def intro: finish_unlock_quiet_from split: sum.splits)

lemma after_unlock_quiet:
  assumes "quiet s (snd r)"
  shows "quiet s (snd (after_unlock W r))"
  using assms quiet_trans [OF assms resolve_quiet [of "snd r" W]]
  by (cases r) (simp add: after_unlock_def)

lemma after_pin_unlock_quiet:
  assumes "quiet s (snd r)"
  shows "quiet s (snd (after_pin_unlock W pin r))"
proof -
  obtain resp s' where r: "r = (resp, s')" by fastforce
  have "quiet s (try_restore_api_session W pin s')"
    using assms r by (simp add: quiet_def)
  from quiet_trans [OF this resolve_quiet [of _ W]] show ?thesis
    using assms r by (simp add: after_pin_unlock_def)
qed

lemma unlock_pin_dialog_quiet: "quiet s (snd (unlock_pin_dialog W s))"
  by (auto simp: unlock_pin_dialog_def Let_def
      intro!: quiet_same after_pin_unlock_quiet finish_unlock_quiet_from split: option.splits prod.splits)

lemma handle_unlock_quiet: "quiet s (snd (handle_unlock W au s))"
proof (cases "local_key_cache_data s")
  case None
  then show ?thesis by (simp add: handle_unlock_def Let_def unlock_pin_dialog_quiet)
next
  case (Some c)
  obtain resp s' where r: "finish_native_unlock_response W c native_msg s = (resp, s')" by fastforce
  then have q: "quiet s s'" using finish_native_quiet [of s W c native_msg] by simp
  then have "quiet s (snd (unlock_pin_dialog W s'))" using unlock_pin_dialog_quiet quiet_trans by blast
  with q show ?thesis
    using after_unlock_quiet [of s "(resp, s')" W] by (simp add: handle_unlock_def Let_def Some r)
qed

lemma handle_unlock_native_quiet: "quiet s (snd (handle_unlock_native W s))"
  by (auto simp: handle_unlock_native_def intro!: after_unlock_quiet finish_native_quiet split: option.splits)

lemma hold_key_frame [simp, frame]:
  "vault_locked (hold_key W c k p s) = vault_locked s"
  "d_agent (hold_key W c k p s) = d_agent s"
  "pin_failures (hold_key W c k p s) = pin_failures s"
  "pending_sync (hold_key W c k p s) = pending_sync s"
  "api_client (hold_key W c k p s) = api_client s"
  by (simp_all add: hold_key_def Let_def split: prod.splits sum.splits)

lemma try_pin_quiet:
  assumes "vault_locked t = vault_locked s" and "d_agent t = d_agent s"
  shows "quiet s (snd (try_pin W pin t))"
proof -
  have "quiet s (snd (after_pin_unlock W pin (finish_unlock_with_json W j m (hold_key W c k pin t))))" for j m c k
    using assms by (intro after_pin_unlock_quiet finish_unlock_quiet_from) simp_all
  then show ?thesis
    using assms quiet_same [of t s] by (auto simp: try_pin_def split: option.splits sum.splits)
qed

lemma handle_unlock_pin_quiet: "quiet s (snd (handle_unlock_pin W pin s))"
proof (cases "vault_locked s")
  case True
  obtain r pf where l: "pin_lockout_remaining (w_now W) (pin_failures s) = (r, pf)" by fastforce
  obtain resp s' where t: "try_pin W pin (s\<lparr>pin_failures := pf\<rparr>) = (resp, s')" by fastforce
  then have "quiet s s'" using try_pin_quiet [of "s\<lparr>pin_failures := pf\<rparr>" s W pin] by simp
  then show ?thesis
    using True l t by (cases r) (simp_all add: handle_unlock_pin_def quiet_def)
qed (simp add: handle_unlock_pin_def)

lemma handle_unlock_password_quiet: "quiet s (snd (handle_unlock_password W pw s))"
proof (cases "vault_locked (snd (handle_unlock_password W pw s))")
  case True
  then have "vault_locked (snd (handle_unlock_password W pw s)) = vault_locked s
      \<and> d_agent (snd (handle_unlock_password W pw s)) = d_agent s"
    unfolding handle_unlock_password_def Let_def
    by (auto dest: set_keys_error split: if_splits prod.splits sum.splits)
  then show ?thesis by (intro quiet_same) simp_all
qed (simp add: quiet_def)

lemma handle_sync_quiet: "quiet s (snd (handle_sync W s))"
proof -
  obtain r s1 where e: "(if \<not> vault_locked s \<and> multi_device_mode (w_host W)
      then ensure_local_cache_key_for_manual_sync W s else (Inr (), s)) = (r, s1)" by fastforce
  have "s1 = s \<or> s1 = snd (ensure_local_cache_key_for_manual_sync W s)"
    using e by (cases "\<not> vault_locked s \<and> multi_device_mode (w_host W)") simp_all
  then have same: "vault_locked s1 = vault_locked s" "d_agent s1 = d_agent s" by auto
  obtain r2 s2 where d: "do_sync W s1 = (r2, s2)" by fastforce
  then have "quiet s1 s2" using do_sync_quiet [of s1 W] by simp
  then have "quiet s s2" using quiet_cong [OF same] by blast
  then show ?thesis
    using e d same by (auto simp: handle_sync_def Let_def quiet_def split: sum.splits prod.splits)
qed

lemma handle_forget_silent:
  "vault_locked (snd (handle_forget W sh s)) \<and> signable (d_agent (snd (handle_forget W sh s))) = {}"
proof -
  have "signable (snd (set_public_identities lib ts (clear_keys a))) = {}" for lib ts a
    by (cases "is_running a")
      (simp_all add: signable_set_public_identities running_ops,
       simp add: set_public_identities_def running_ops)
  then show ?thesis
    by (simp add: handle_forget_def Let_def split_beta split: option.splits)
qed

lemma handle_set_pin_same:
  "vault_locked (snd (handle_set_pin W pin s)) = vault_locked s"
  "d_agent (snd (handle_set_pin W pin s)) = d_agent s"
  unfolding handle_set_pin_def Let_def
  by (auto split: if_splits prod.splits sum.splits option.splits)

lemma run_action_quiet: "quiet s (snd (run_action W au a s))"
proof (cases a)
  case ALock
  have "is_running (d_agent s) \<Longrightarrow> signable (snd (agent_lock (d_agent s))) = {}" by (rule signable_lock)
  then show ?thesis
    using ALock by (auto simp: lock_vault_def agent_lock_def quiet_def split: if_splits)
next
  case (AForget sh)
  then show ?thesis using handle_forget_silent by (simp add: quiet_def)
next
  case (ASetPin p)
  then show ?thesis using handle_set_pin_same by (intro quiet_same) simp_all
next
  case ABindHostsDialog
  then show ?thesis by (simp split: sum.splits)
qed (simp_all add: handle_unlock_quiet handle_unlock_native_quiet handle_unlock_pin_quiet
    handle_unlock_password_quiet handle_sync_quiet)

lemma reload_same [simp]:
  "vault_locked (reload_cache W s) = vault_locked s" "d_agent (reload_cache W s) = d_agent s"
  "pin_failures (reload_cache W s) = pin_failures s" "pending_sync (reload_cache W s) = pending_sync s"
  "cached_key_tuples (reload_cache W s) = cached_key_tuples s" "api_client (reload_cache W s) = api_client s"
  "local_cache_key_state (reload_cache W s) = local_cache_key_state s"
  by (simp_all add: reload_cache_def split: prod.splits)

lemma handle_control_quiet: "quiet s (snd (handle_control_command W au a s))"
proof (cases "needs_reload a")
  case True
  have "quiet s (snd (run_action W au a (reload_cache W s)))"
    using run_action_quiet [of "reload_cache W s" W au a]
      quiet_cong [of "reload_cache W s" s "snd (run_action W au a (reload_cache W s))"]
    by (simp only: reload_same)
  then show ?thesis using True by (simp add: handle_control_command_def)
next
  case False
  then show ?thesis using run_action_quiet by (simp add: handle_control_command_def)
qed

end
