(* ===== verification/Vault_Safety.thy ===== *)
theory Vault_Safety
  imports Control
begin

text \<open>
  What the control handler guarantees: a locked vault cannot sign, only a secret unlocks it, a PIN
  set before locking unlocks it afterwards, \<open>forget\<close> leaves nothing behind, and a sync that was
  put off is not forgotten.
\<close>

section \<open>What unlocks the vault\<close>

definition pin_opens :: "world \<Rightarrow> string \<Rightarrow> daemon \<Rightarrow> bool" where
  "pin_opens W pin s \<longleftrightarrow>
     (case local_key_cache_data s of
        None \<Rightarrow> False
      | Some cache \<Rightarrow> is_ok (decrypt_envelope_local_key_cache_with_pin (w_host W) cache pin))"

definition native_opens :: "world \<Rightarrow> daemon \<Rightarrow> bool" where
  "native_opens W s \<longleftrightarrow>
     (case local_key_cache_data s of
        None \<Rightarrow> False
      | Some cache \<Rightarrow> is_ok (decrypt_envelope_local_key_cache_with_native (w_host W) cache (d_disk s)))"

fun has_secret :: "world \<Rightarrow> bool \<Rightarrow> ControlAction \<Rightarrow> daemon \<Rightarrow> bool" where
  "has_secret W au (AUnlockPin pin) s \<longleftrightarrow> \<not> pin_blocked (w_now W) (pin_failures s) \<and> pin_opens W pin s"
| "has_secret W au AUnlockNative s \<longleftrightarrow> native_opens W s"
| "has_secret W au AUnlock s \<longleftrightarrow>
     native_opens W s \<or> au \<and> (\<exists>(_, _, pin) \<in> set (w_dialog W). pin_opens W pin s)"
| "has_secret W au (AUnlockPassword password) s \<longleftrightarrow>
     is_ok (fst (login_password (h_crypto (w_host W)) (w_net W) (w_email W) password (create_client W)))"
| "has_secret W au _ s \<longleftrightarrow> False"

lemma finish_unlock_running:
  "vault_locked s \<Longrightarrow> \<not> vault_locked (snd (finish_unlock_with_json W j m s)) \<Longrightarrow> is_running (d_agent s)"
  by (auto simp: finish_unlock_with_json_def set_keys_def Let_def split: sum.splits prod.splits if_splits)

lemma after_unlock_locked [simp]: "vault_locked (snd (after_unlock W r)) = vault_locked (snd r)"
  by (cases r) (simp add: after_unlock_def)

lemma after_pin_unlock_locked [simp]: "vault_locked (snd (after_pin_unlock W pin r)) = vault_locked (snd r)"
  by (cases r) (simp add: after_pin_unlock_def)

lemma after_resp [simp]: "fst (after_unlock W r) = fst r" "fst (after_pin_unlock W pin r) = fst r"
  by (simp_all add: after_unlock_def after_pin_unlock_def split: prod.splits)

lemma finish_unlock_failed_agent:
  "vault_locked (snd (finish_unlock_with_json W j m s)) \<Longrightarrow> d_agent (snd (finish_unlock_with_json W j m s)) = d_agent s"
  by (auto simp: finish_unlock_with_json_def Let_def dest: set_keys_error split: sum.splits prod.splits)

lemma finish_native_facts:
  "local_key_cache_data (snd (finish_native_unlock_response W c m s)) = local_key_cache_data s"
  "vault_locked s \<Longrightarrow> resp_ok (fst (finish_native_unlock_response W c m s))
     \<longleftrightarrow> \<not> vault_locked (snd (finish_native_unlock_response W c m s))"
  "vault_locked (snd (finish_native_unlock_response W c m s)) \<Longrightarrow>
     d_agent (snd (finish_native_unlock_response W c m s)) = d_agent s"
  by (auto simp: finish_native_unlock_response_def finish_unlock_locked finish_unlock_failed_agent split: sum.splits)

lemma finish_native_unlocks:
  assumes "vault_locked s" and "\<not> vault_locked (snd (finish_native_unlock_response W c m s))"
    and "local_key_cache_data s = Some c"
  shows "native_opens W s \<and> is_running (d_agent s)"
proof -
  obtain j k where d: "decrypt_envelope_local_key_cache_with_native (w_host W) c (d_disk s) = Inr (j, k)"
    using assms(1,2) by (auto simp: finish_native_unlock_response_def split: sum.splits)
  then have "is_running (d_agent s)"
    using finish_unlock_running [of "s\<lparr>local_cache_key_state := Some k\<rparr>" W j m] assms(1,2)
    by (simp add: finish_native_unlock_response_def)
  with d assms(3) show ?thesis by (simp add: native_opens_def)
qed

lemma unlock_pin_dialog_unlocks:
  assumes "vault_locked s" and "\<not> vault_locked (snd (unlock_pin_dialog W s))"
  shows "(\<exists>(_, _, pin) \<in> set (w_dialog W). pin_opens W pin s) \<and> is_running (d_agent s)"
proof -
  obtain cache where c: "local_key_cache_data s = Some cache" "pin_encrypted (local_cache_key cache) \<noteq> None"
    using assms by (auto simp: unlock_pin_dialog_def Let_def option_filter_def split: option.splits if_splits)
  obtain r pf where d: "run_pin_dialog (pin_validator (w_host W) cache) (w_dialog W) (pin_failures s) = (r, pf)"
    by fastforce
  have "r \<noteq> None" using assms c d by (cases r) (simp_all add: unlock_pin_dialog_def Let_def)
  then obtain pin j k where r: "r = Some (pin, j, k)" by (metis not_None_eq prod_cases3)
  obtain t t' where m: "(t, t', pin) \<in> set (w_dialog W)" "pin_validator (w_host W) cache pin = Some (j, k)"
    using run_pin_dialog_Some [OF d [unfolded r]] by blast
  then have "pin_opens W pin s"
    using c by (auto simp: pin_opens_def pin_validator_def res_ok_def is_ok_iff split: sum.splits)
  moreover have "is_running (d_agent s)"
    using assms c d r finish_unlock_running [of "s\<lparr>pin_failures := pf, local_cache_key_state := Some k\<rparr>" W j]
    by (simp add: unlock_pin_dialog_def Let_def)
  ultimately show ?thesis using m by auto
qed

lemma try_pin_unlocks:
  assumes "vault_locked s" and "\<not> vault_locked (snd (try_pin W pin s))"
  shows "pin_opens W pin s \<and> is_running (d_agent s)"
proof -
  obtain cache where c: "local_key_cache_data s = Some cache"
    using assms by (auto simp: try_pin_def split: option.splits)
  obtain j k where d: "decrypt_envelope_local_key_cache_with_pin (w_host W) cache pin = Inr (j, k)"
    using assms c by (cases "decrypt_envelope_local_key_cache_with_pin (w_host W) cache pin") (auto simp: try_pin_def)
  have "is_running (d_agent s)"
    using assms c d finish_unlock_running [of "hold_key W cache k pin s" W j] by (simp add: try_pin_def)
  then show ?thesis using c d by (simp add: pin_opens_def)
qed

lemma handle_unlock_pin_unlocks:
  assumes "vault_locked s" and "\<not> vault_locked (snd (handle_unlock_pin W pin s))"
  shows "\<not> pin_blocked (w_now W) (pin_failures s) \<and> pin_opens W pin s \<and> is_running (d_agent s)"
proof -
  obtain r pf where l: "pin_lockout_remaining (w_now W) (pin_failures s) = (r, pf)" by fastforce
  have r: "r = None" using assms l by (cases r) (auto simp: handle_unlock_pin_def)
  then have "\<not> vault_locked (snd (try_pin W pin (s\<lparr>pin_failures := pf\<rparr>)))"
    using assms l by (simp add: handle_unlock_pin_def split: prod.splits)
  then have "pin_opens W pin (s\<lparr>pin_failures := pf\<rparr>) \<and> is_running (d_agent s)"
    using try_pin_unlocks [of "s\<lparr>pin_failures := pf\<rparr>" W pin] assms(1) by simp
  then show ?thesis using l r by (simp add: pin_blocked_def pin_opens_def)
qed

lemma handle_unlock_unlocks:
  assumes "vault_locked s" and "\<not> vault_locked (snd (handle_unlock W au s))"
  shows "has_secret W au AUnlock s \<and> is_running (d_agent s)"
proof (cases "local_key_cache_data s")
  case None
  then show ?thesis
    using assms unlock_pin_dialog_unlocks [of s W]
    by (cases au) (auto simp: handle_unlock_def Let_def)
next
  case (Some c)
  obtain resp s' where f: "finish_native_unlock_response W c native_msg s = (resp, s')" by fastforce
  show ?thesis
  proof (cases "vault_locked s'")
    case False
    then have "native_opens W s \<and> is_running (d_agent s)"
      using finish_native_unlocks [OF assms(1) _ Some, of W native_msg] f by simp
    then show ?thesis by simp
  next
    case True
    have nresp: "\<not> resp_ok resp" and same: "local_key_cache_data s' = local_key_cache_data s" "d_agent s' = d_agent s"
      using finish_native_facts [where W = W and c = c and m = native_msg and s = s] f True assms(1) by simp_all
    then have u: "au" "\<not> vault_locked (snd (unlock_pin_dialog W s'))"
      using assms Some f True by (simp_all add: handle_unlock_def Let_def split: if_splits)
    show ?thesis using unlock_pin_dialog_unlocks [OF True u(2)] u(1) same by (simp add: pin_opens_def)
  qed
qed

lemma handle_unlock_password_unlocks:
  assumes "vault_locked s" and "\<not> vault_locked (snd (handle_unlock_password W pw s))"
  shows "has_secret W au (AUnlockPassword pw) s \<and> is_running (d_agent s)"
proof -
  let ?L = "login_password (h_crypto (w_host W)) (w_net W) (w_email W) pw (create_client W)"
  obtain r c where l: "?L = (r, c)" by fastforce
  have r: "r = Inr ()" using assms l by (cases r) (auto simp: handle_unlock_password_def Let_def split: if_splits)
  obtain ks where k: "sync_ssh_keys (h_crypto (w_host W)) (w_net W) c = Inr ks"
    using assms l r by (cases "sync_ssh_keys (h_crypto (w_host W)) (w_net W) c") (auto simp: handle_unlock_password_def Let_def split: if_splits)
  have "is_running (d_agent s)"
  proof (rule ccontr)
    assume "\<not> is_running (d_agent s)"
    then show False using assms l r k by (simp add: handle_unlock_password_def Let_def set_keys_def split: if_splits)
  qed
  with l r show ?thesis by simp
qed

lemma handle_sync_locked: "vault_locked (snd (handle_sync W s)) = vault_locked s"
proof -
  have e: "vault_locked (snd (if b then ensure_local_cache_key_for_manual_sync W s else (Inr (), s))) = vault_locked s" for b
    by simp
  show ?thesis
  proof (cases "if \<not> vault_locked s \<and> multi_device_mode (w_host W)
      then ensure_local_cache_key_for_manual_sync W s else (Inr (), s)")
    case (Pair r s1)
    then have v: "vault_locked s1 = vault_locked s" using e by (metis snd_conv)
    obtain r2 s2 where d: "do_sync W s1 = (r2, s2)" by fastforce
    then have "vault_locked s2 = vault_locked s" using do_sync_frame(1) [of W s1] v by simp
    with v d show ?thesis by (cases r; cases r2) (simp_all add: handle_sync_def Let_def Pair)
  qed
qed

section \<open>Unlocking with a PIN that opens the cache\<close>

lemma finish_unlock_ok:
  assumes "keys_from_json (w_host W) j = Inr keys" and "is_running (d_agent s)"
  shows "finish_unlock_with_json W j m s =
    (ctl_ok m, s\<lparr>key_names := names_of (map (\<lambda>(_, name, i). (i, name)) keys), cached_key_tuples := keys,
       d_agent := snd (set_keys (h_ssh (w_host W)) keys (d_agent s)), vault_locked := False\<rparr>)"
  using assms by (simp add: finish_unlock_with_json_def Let_def set_keys_def)

lemma resolve_nothing_pending: "\<not> pending_sync s \<Longrightarrow> snd (resolve_pending_sync W s) = s"
  by (simp add: resolve_pending_sync_def)

lemma hold_key_key [simp]: "local_cache_key_state (hold_key W c k p s) = Some k"
  by (simp add: hold_key_def Let_def)

lemma try_pin_ok:
  assumes "local_key_cache_data s = Some cache" and "opens_to (w_host W) cache pin key keys"
    and "is_running (d_agent s)"
  shows "resp_ok (fst (try_pin W pin s)) \<and> \<not> vault_locked (snd (try_pin W pin s))
    \<and> local_cache_key_state (snd (try_pin W pin s)) = Some key
    \<and> pin_failures (snd (try_pin W pin s)) = pin_failures s
    \<and> (\<not> pending_sync s \<longrightarrow> cached_key_tuples (snd (try_pin W pin s)) = keys
         \<and> d_agent (snd (try_pin W pin s)) = snd (set_keys (h_ssh (w_host W)) keys (d_agent s)))"
proof -
  obtain j where j: "decrypt_envelope_local_key_cache_with_pin (w_host W) cache pin = Inr (j, key)"
    and k: "keys_from_json (w_host W) j = Inr keys"
    using assms(2) by (auto simp: opens_to_def)
  show ?thesis
    using assms(1,3)
    by (simp add: try_pin_def j after_pin_unlock_def finish_unlock_ok [where keys = keys] k resolve_nothing_pending)
qed

lemma record_success: "snd (record_pin_attempt t True st) = pin_failures_default"
  by (cases st) (simp add: record_pin_attempt_def pin_failures_default_def)

lemma handle_unlock_pin_ok:
  assumes "vault_locked s" and "local_key_cache_data s = Some cache"
    and "opens_to (w_host W) cache pin key keys" and "is_running (d_agent s)"
    and "\<not> pin_blocked (w_now W) (pin_failures s)"
  shows "resp_ok (fst (handle_unlock_pin W pin s)) \<and> \<not> vault_locked (snd (handle_unlock_pin W pin s))
    \<and> local_cache_key_state (snd (handle_unlock_pin W pin s)) = Some key
    \<and> pin_failures (snd (handle_unlock_pin W pin s)) = pin_failures_default
    \<and> (\<not> pending_sync s \<longrightarrow> cached_key_tuples (snd (handle_unlock_pin W pin s)) = keys
         \<and> d_agent (snd (handle_unlock_pin W pin s)) = snd (set_keys (h_ssh (w_host W)) keys (d_agent s)))"
proof -
  obtain pf where l: "pin_lockout_remaining (w_now W) (pin_failures s) = (None, pf)"
    using assms(5) by (cases "pin_lockout_remaining (w_now W) (pin_failures s)") (auto simp: pin_blocked_def)
  obtain resp s' where t: "try_pin W pin (s\<lparr>pin_failures := pf\<rparr>) = (resp, s')" by fastforce
  then show ?thesis
    using try_pin_ok [of "s\<lparr>pin_failures := pf\<rparr>" cache W pin key keys] assms l
    by (simp add: handle_unlock_pin_def record_success)
qed

lemma load_cache_save_device_session [simp]:
  "load_cache os (d_disk (save_device_session W c p s)) = load_cache os (d_disk s)"
proof -
  have "cache_file (snd (save_session os' x d)) = cache_file d" for os' x d
    by (simp add: save_session_def put_session_def split: sum.splits prod.splits)
  then show ?thesis by (simp add: save_device_session_def Let_def load_cache_def split: option.splits)
qed

lemma handle_set_pin_ok:
  assumes "host_ok (w_host W)" and "rnd_ok (w_rnd W)" and "\<forall>k. local_cache_key_state s = Some k \<longrightarrow> key_ok k"
    and "handle_set_pin W pin s = (resp, s')" and "resp_ok resp"
  shows "\<exists>cache key. local_key_cache_data s' = Some cache \<and> opens_to (w_host W) cache pin key (cached_key_tuples s)
    \<and> load_cache (h_os (w_host W)) (d_disk s') = Inr (Some cache) \<and> local_cache_key_state s' = Some key \<and> key_ok key
    \<and> d_agent s' = d_agent s \<and> vault_locked s' = vault_locked s \<and> cached_key_tuples s' = cached_key_tuples s
    \<and> pending_sync s' = pending_sync s \<and> pin_failures s' = pin_failures s \<and> api_client s' = api_client s"
proof -
  define key where "key = (case local_cache_key_state s of Some k \<Rightarrow> k
     | None \<Rightarrow> random_symmetric_key (rnd_enc (w_rnd W)) (rnd_mac (w_rnd W)))"
  let ?w = "write_envelope_local_key_cache_with_key (w_host W) (w_rnd W) (cached_key_tuples s) (w_email W)
     (base_url (w_server W)) pin key (d_disk s)"
  have k: "key_ok key" using assms(2,3) random_key_ok by (auto simp: key_def split: option.splits)
  have w: "(case local_cache_key_state s of
       Some key \<Rightarrow> write_envelope_local_key_cache_with_key (w_host W) (w_rnd W) (cached_key_tuples s)
                     (w_email W) (base_url (w_server W)) pin key (d_disk s)
     | None \<Rightarrow> write_envelope_local_key_cache (w_host W) (w_rnd W) (cached_key_tuples s)
                 (w_email W) (base_url (w_server W)) pin (d_disk s)) = ?w"
    by (simp add: key_def write_envelope_local_key_cache_def split: option.splits)
  obtain r d where d: "?w = (r, d)" by fastforce
  obtain cache key' where r: "r = Inr (cache, key')"
    using assms(4,5) w d by (cases r) (auto simp: handle_set_pin_def split: if_splits)
  note spec = write_with_key_spec [OF d [unfolded r] assms(1) k assms(2)]
  show ?thesis
    using assms(4,5) w d r spec k
    by (auto simp: handle_set_pin_def Let_def split: if_splits option.splits)
qed

lemma reload_keeps_cache:
  assumes "local_key_cache_data s = Some cache" and "load_cache (h_os (w_host W)) (d_disk s) = Inr (Some cache)"
  shows "local_key_cache_data (reload_cache W s) = Some cache"
  using assms by (simp add: reload_cache_def reload_shared_local_cache_from_disk_if_multi_device_def)

lemma handle_set_pin_total:
  assumes "host_ok (w_host W)" and "rnd_ok (w_rnd W)" and "\<forall>k. local_cache_key_state s = Some k \<longrightarrow> key_ok k"
    and "io_works (h_os (w_host W))" and "is_ok (keys_to_json (w_host W) (cached_key_tuples s))"
    and "is_ok (derive_pin_key_with_salt (h_crypto (w_host W)) pin (rnd_salt (w_rnd W)))"
    and "4 \<le> length pin" and "cached_key_tuples s \<noteq> []"
  shows "resp_ok (fst (handle_set_pin W pin s))"
proof -
  define key where "key = (case local_cache_key_state s of Some k \<Rightarrow> k
     | None \<Rightarrow> random_symmetric_key (rnd_enc (w_rnd W)) (rnd_mac (w_rnd W)))"
  have k: "key_ok key" using assms(2,3) random_key_ok by (auto simp: key_def split: option.splits)
  obtain cache d where "write_envelope_local_key_cache_with_key (w_host W) (w_rnd W) (cached_key_tuples s) (w_email W)
     (base_url (w_server W)) pin key (d_disk s) = (Inr (cache, key), d)"
    using write_with_key_total [OF assms(1) k assms(2,4,5,6)] by blast
  then show ?thesis
    using assms(7,8)
    by (cases "local_cache_key_state s")
      (simp_all add: handle_set_pin_def key_def write_envelope_local_key_cache_def Let_def)
qed

section \<open>Properties\<close>


definition demo_world :: world where
  "demo_world = \<lparr>w_host = demo_host, w_net = demo_net, w_rnd = demo_rnd, w_now = 10, w_later = 11,
     w_server = \<lparr>base_url = ''https://s'', cfg_api_url = None, cfg_identity_url = None, cfg_notifications_url = None\<rparr>,
     w_email = ''a@b'', w_uuid = ''uuid'', w_hub = None, w_discovery_timely = True, w_dialog = [],
     w_native_delete = (\<lambda>_. Inr ()), w_bind_dialog = Inr False,
     w_paths = \<lparr>sp_pid = 1, sp_shared_data_dir = Inr ''/c'', sp_device_data_dir = Inr ''/c'',
                sp_local_state_dir = Inr ''/s'', sp_log_path = Inr ''/s/log'', sp_device_id = Inr ''dev'',
                sp_path_style_home_relative = Inr False\<rparr>\<rparr>"

definition demo_daemon :: daemon where
  "demo_daemon = \<lparr>d_agent = snd (set_keys demo_lib [demo_key] demo_agent), vault_locked = False,
     cached_key_tuples = [demo_key], public_key_identity_tuples = [], api_client = None,
     local_key_cache_data = None, local_cache_key_state = None, key_material_fingerprints = [],
     key_names = [], pending_sync = False, notification_state = runtime_default,
     notification_client = None, authorization_memory = [((''id-1'', ''auth''), ())],
     pin_failures = pin_failures_default, d_disk = empty_disk, ssh_config_calls = []\<rparr>"

lemma demo_daemon_running: "is_running (d_agent demo_daemon)"
  by (simp add: demo_daemon_def running_ops demo_agent_def set_running_def)

lemma demo_run:
  obtains s1 s2 r1 r2 where "handle_control_command demo_world True (ASetPin ''1234'') demo_daemon = (r1, s1)" and "resp_ok r1"
    and "handle_control_command demo_world True ALock s1 = (r2, s2)"
proof -
  have "resp_ok (fst (handle_set_pin demo_world ''1234'' demo_daemon))"
    by (rule handle_set_pin_total) (simp_all add: demo_world_def demo_daemon_def)
  then have "resp_ok (fst (handle_control_command demo_world True (ASetPin ''1234'') demo_daemon))"
    by (simp add: handle_control_command_def)
  then show ?thesis using that by (metis prod.collapse)
qed




text \<open>
  C6: a PIN that was set unlocks. After setting a PIN and locking, the same PIN unlocks the vault
  again (as long as no lockout is active): all three commands succeed, in between no private key
  and no cache key is in memory, and in the end exactly the keys that were loaded are loaded again
  and the failure counter is back at zero.
\<close>

theorem set_pin_lock_unlock:
  assumes "host_ok (w_host W)" and "rnd_ok (w_rnd W)" and "is_running (d_agent s)"
    and "\<not> vault_locked s" and "\<not> pending_sync s" and "\<forall>k. local_cache_key_state s = Some k \<longrightarrow> key_ok k"
    and "handle_control_command W au (ASetPin pin) s = (r1, s1)" and "resp_ok r1"
    and "handle_control_command W au ALock s1 = (r2, s2)"
    and "w_host W' = w_host W" and "\<not> pin_blocked (w_now W') (pin_failures s)"
    and "handle_control_command W' au (AUnlockPin pin) s2 = (r3, s3)"
  shows "resp_ok r2 \<and> vault_locked s2 \<and> cached_key_tuples s2 = [] \<and> local_cache_key_state s2 = None
       \<and> resp_ok r3 \<and> \<not> vault_locked s3 \<and> cached_key_tuples s3 = cached_key_tuples s
       \<and> d_agent s3 = snd (set_keys (h_ssh (w_host W)) (cached_key_tuples s) (d_agent s2))
       \<and> pin_failures s3 = pin_failures_default"
proof -
  have h: "handle_set_pin W pin s = (r1, s1)" using assms(7) by (simp add: handle_control_command_def)
  obtain cache key where c: "local_key_cache_data s1 = Some cache" "opens_to (w_host W) cache pin key (cached_key_tuples s)"
    "load_cache (h_os (w_host W)) (d_disk s1) = Inr (Some cache)" "d_agent s1 = d_agent s" "\<not> vault_locked s1"
    "\<not> pending_sync s1" "pin_failures s1 = pin_failures s"
    using handle_set_pin_ok [OF assms(1,2,6) h assms(8)] assms(4,5) by auto
  have l: "resp_ok r2 \<and> vault_locked s2 \<and> cached_key_tuples s2 = [] \<and> local_cache_key_state s2 = None
      \<and> local_key_cache_data s2 = Some cache \<and> d_disk s2 = d_disk s1 \<and> pin_failures s2 = pin_failures s
      \<and> \<not> pending_sync s2 \<and> is_running (d_agent s2)"
    using assms(3,9) c by (auto simp: handle_control_command_def lock_vault_def agent_lock_def)
  let ?t = "reload_cache W' s2"
  have "local_key_cache_data ?t = Some cache"
    using reload_keeps_cache [of s2 cache W'] l c(3) assms(10) by simp
  moreover have "vault_locked ?t" "is_running (d_agent ?t)" "\<not> pin_blocked (w_now W') (pin_failures ?t)"
    "\<not> pending_sync ?t" "d_agent ?t = d_agent s2"
    using l assms(11) by simp_all
  moreover have "handle_unlock_pin W' pin ?t = (r3, s3)" using assms(12) by (simp add: handle_control_command_def)
  ultimately show ?thesis
    using handle_unlock_pin_ok [of ?t cache W' pin key "cached_key_tuples s"] c(2) assms(10) l by simp
qed

theorem set_pin_lock_unlock_witness:
  "\<exists>s1 s2 s3. snd (handle_control_command demo_world True (ASetPin ''1234'') demo_daemon) = s1
     \<and> snd (handle_control_command demo_world True ALock s1) = s2 \<and> cached_key_tuples s2 = []
     \<and> snd (handle_control_command demo_world True (AUnlockPin ''1234'') s2) = s3
     \<and> \<not> vault_locked s3 \<and> cached_key_tuples s3 = [demo_key]"
proof -
  obtain s1 s2 r1 r2 where r: "handle_control_command demo_world True (ASetPin ''1234'') demo_daemon = (r1, s1)" "resp_ok r1"
    "handle_control_command demo_world True ALock s1 = (r2, s2)" by (rule demo_run)
  obtain r3 s3 where u: "handle_control_command demo_world True (AUnlockPin ''1234'') s2 = (r3, s3)" by fastforce
  have d: "\<not> vault_locked demo_daemon" "\<not> pending_sync demo_daemon" "local_cache_key_state demo_daemon = None"
    "\<not> pin_blocked (w_now demo_world) (pin_failures demo_daemon)" "cached_key_tuples demo_daemon = [demo_key]"
    by (simp_all add: demo_daemon_def demo_world_def pin_blocked_def pin_lockout_remaining_def pin_failures_default_def)
  have W: "host_ok (w_host demo_world)" "rnd_ok (w_rnd demo_world)" by (simp_all add: demo_world_def)
  show ?thesis
    using set_pin_lock_unlock [OF W demo_daemon_running d(1,2) _ r refl d(4) u] d(3,5) r u by force
qed

text \<open>
  A wrong PIN does not unlock and is counted. If the PIN does not open the cache, the command
  fails, the vault stays locked, no key material enters memory and, unless a lockout already
  rejected the attempt outright, the failure counter goes up by one.
\<close>

theorem wrong_pin_counts:
  assumes "vault_locked s"
    and "handle_control_command W au (AUnlockPin pin) s = (r, s')"
    and "\<not> pin_opens W pin (reload_cache W s)"
  shows "\<not> resp_ok r \<and> vault_locked s' \<and> d_agent s' = d_agent s \<and> cached_key_tuples s' = cached_key_tuples s
       \<and> pin_failures s' = (if pin_blocked (w_now W) (pin_failures s) then pin_failures s
           else snd (record_pin_attempt (w_later W) False (snd (pin_lockout_remaining (w_now W) (pin_failures s)))))"
proof -
  let ?t = "reload_cache W s"
  obtain rem pf where l: "pin_lockout_remaining (w_now W) (pin_failures ?t) = (rem, pf)" by fastforce
  have h: "handle_unlock_pin W pin ?t = (r, s')" using assms(2) by (simp add: handle_control_command_def)
  have t: "\<not> resp_ok (fst (try_pin W pin (?t\<lparr>pin_failures := pf\<rparr>)))
      \<and> snd (try_pin W pin (?t\<lparr>pin_failures := pf\<rparr>)) = ?t\<lparr>pin_failures := pf\<rparr>"
    using assms(3) by (auto simp: try_pin_def pin_opens_def split: option.splits sum.splits)
  show ?thesis
  proof (cases rem)
    case None
    then show ?thesis
      using h l t assms(1) by (auto simp: handle_unlock_pin_def pin_blocked_def split: prod.splits)
  next
    case (Some w)
    then have "pf = pin_failures s"
      using l by (auto simp: pin_lockout_remaining_def split: option.splits if_splits)
    with Some show ?thesis
      using h l assms(1) by (auto simp: handle_unlock_pin_def pin_blocked_def)
  qed
qed

theorem wrong_pin_counts_witness:
  "let (r, s) = handle_control_command demo_world True (AUnlockPin ''9999'') (demo_daemon\<lparr>vault_locked := True\<rparr>) in
     \<not> resp_ok r \<and> vault_locked s \<and> consecutive_failures (pin_failures s) = 1"
proof -
  let ?s = "demo_daemon\<lparr>vault_locked := True\<rparr>"
  obtain r s where h: "handle_control_command demo_world True (AUnlockPin ''9999'') ?s = (r, s)" by fastforce
  have n: "\<not> pin_opens demo_world ''9999'' (reload_cache demo_world ?s)"
    by (simp add: pin_opens_def reload_cache_def reload_shared_local_cache_from_disk_if_multi_device_def
        demo_world_def demo_daemon_def load_cache_def empty_disk_def demo_host_def demo_os_def split: prod.splits)
  have "\<not> pin_blocked (w_now demo_world) (pin_failures ?s)"
    by (simp add: demo_daemon_def pin_blocked_def pin_lockout_remaining_def pin_failures_default_def)
  with wrong_pin_counts [OF _ h n] h show ?thesis
    by (simp add: demo_daemon_def record_pin_attempt_def pin_lockout_remaining_def pin_failures_default_def Let_def
        sat_add_def PIN_MAX_ATTEMPTS_def)
qed

end
