(* ===== verification/Ui_Request.thy ===== *)
theory Ui_Request
  imports Vault_Safety
begin

text \<open>
  \<open>src/ui.rs\<close> and the bind flow of \<open>src/bindings_cli.rs\<close>: what happens to a list or sign request
  of an SSH client. The daemon runs each request in its own task; the task stops where it waits for
  a dialog, and everything else may happen meanwhile. A task is therefore the data it carries over
  such a wait, and the handler is cut into the part before the first dialog and one part per
  answered dialog. Each part returns its effects: the answer sent to the agent, the event sent to
  the main loop, and the task left waiting.
\<close>

datatype PromptBehavior = Always | Never | RememberUntilLock

datatype AuthorizationResult = Approved | Denied | Timeout | BindRequested

datatype BindHostsResult = Saved "(string \<times> string list) list" | Cancelled

datatype RuntimeEvent = AutoUnlockedPin string | AutoUnlockedNative

record SignRequestInfo =
  si_key_name :: string
  si_process_name :: string
  si_namespace :: "string option"
  si_operation_kind :: string
  si_is_forwarding :: bool

record UnlockRequestContext =
  uc_key_name :: string
  uc_process_name :: string
  uc_operation_kind :: string
  uc_is_forwarding :: bool

text \<open>
  The waiting tasks. \<open>Ask_Pin\<close> holds the cache its PIN validator captured; \<open>Ask_Auth\<close> and
  \<open>Ask_Bind\<close> hold what is to be remembered if the request is approved.
\<close>

datatype ui_task =
    Ask_Pin SshAgentUIRequest UnlockRequestContext LocalKeyCacheFile
  | Ask_Auth SshAgentUIRequest SignRequestInfo "(string \<times> string) option"
  | Ask_Bind SshAgentUIRequest "(string \<times> string) option"

primrec task_request :: "ui_task \<Rightarrow> SshAgentUIRequest" where
  "task_request (Ask_Pin req _ _) = req"
| "task_request (Ask_Auth req _ _) = req"
| "task_request (Ask_Bind req _) = req"

record ui_effect =
  fx_response :: "(u32 \<times> bool) option"
  fx_event :: "RuntimeEvent option"
  fx_task :: "ui_task option"

definition respond :: "SshAgentUIRequest \<Rightarrow> bool \<Rightarrow> ui_effect" where
  "respond req approved = \<lparr>fx_response = Some (req_request_id req, approved), fx_event = None, fx_task = None\<rparr>"

definition wait_for :: "ui_task \<Rightarrow> ui_effect" where
  "wait_for t = \<lparr>fx_response = None, fx_event = None, fx_task = Some t\<rparr>"

section \<open>Helpers\<close>

definition unknown_key :: string where "unknown_key = ''Unknown key''"

definition key_name_for_request :: "SshAgentUIRequest \<Rightarrow> key_tuple list \<Rightarrow> string" where
  "key_name_for_request req keys =
     unwrap_or unknown_key (Option.bind (req_cipher_id req) (\<lambda>cid.
       map_option (\<lambda>(_, name, _). name) (find (\<lambda>(_, _, i). i = cid) keys)))"

definition shown_key_name :: "SshAgentUIRequest \<Rightarrow> (string, string) amap \<Rightarrow> string" where
  "shown_key_name req names = unwrap_or unknown_key (Option.bind (req_cipher_id req) (am_get names))"

definition apply_decrypted_keys_state :: "key_tuple list \<Rightarrow> daemon \<Rightarrow> daemon" where
  "apply_decrypted_keys_state keys s =
     s\<lparr>key_names := names_of (map (\<lambda>(_, name, i). (i, name)) keys), cached_key_tuples := keys\<rparr>"

definition operation_kind_for_request :: "SshAgentUIRequest \<Rightarrow> string" where
  "operation_kind_for_request req = Ssh_Request.as_str (req_operation_kind req)"

definition unlock_context_for_request :: "SshAgentUIRequest \<Rightarrow> string \<Rightarrow> UnlockRequestContext" where
  "unlock_context_for_request req name =
     \<lparr>uc_key_name = name, uc_process_name = req_process_name req,
      uc_operation_kind = operation_kind_for_request req, uc_is_forwarding = req_is_forwarding req\<rparr>"

definition sign_info :: "SshAgentUIRequest \<Rightarrow> string \<Rightarrow> SignRequestInfo" where
  "sign_info req name =
     \<lparr>si_key_name = name, si_process_name = req_process_name req, si_namespace = req_namespace req,
      si_operation_kind = operation_kind_for_request req, si_is_forwarding = req_is_forwarding req\<rparr>"

definition needs_prompt :: "PromptBehavior \<Rightarrow> SshAgentUIRequest \<Rightarrow> bool" where
  "needs_prompt pb req \<longleftrightarrow> req_is_forwarding req \<or>
     (case pb of Always \<Rightarrow> True | Never \<Rightarrow> False | RememberUntilLock \<Rightarrow> True)"

definition run_authorization_prompt :: "PromptBehavior \<Rightarrow> SshAgentUIRequest \<Rightarrow> string \<Rightarrow> ui_effect" where
  "run_authorization_prompt pb req name =
     (if \<not> needs_prompt pb req then respond req True
      else wait_for (Ask_Auth req (sign_info req name) None))"

section \<open>Unlocking for a request\<close>

text \<open>
  Loading the decrypted keys after a native or PIN unlock; \<open>finish\<close> is what the way of unlocking
  does before the vault counts as unlocked. Nothing is returned where the agent refuses the keys,
  although the decrypted keys are in the state by then.
\<close>

definition auto_unlocked ::
  "world \<Rightarrow> PromptBehavior \<Rightarrow> SshAgentUIRequest \<Rightarrow> key_tuple list \<Rightarrow> SymmetricKey \<Rightarrow> RuntimeEvent \<Rightarrow>
     (daemon \<Rightarrow> daemon) \<Rightarrow> daemon \<Rightarrow> ui_effect option \<times> daemon" where
  "auto_unlocked W pb req keys key event finish s =
     (let s1 = apply_decrypted_keys_state keys s
      in case set_keys (h_ssh (w_host W)) keys (d_agent s1) of
           (Inl _, a) \<Rightarrow> (None, s1\<lparr>d_agent := a\<rparr>)
         | (Inr _, a) \<Rightarrow>
             (Some ((run_authorization_prompt pb req (key_name_for_request req keys))\<lparr>fx_event := Some event\<rparr>),
              (finish (s1\<lparr>d_agent := a\<rparr>))\<lparr>local_cache_key_state := Some key, vault_locked := False\<rparr>))"

definition try_native_unlock ::
  "world \<Rightarrow> PromptBehavior \<Rightarrow> SshAgentUIRequest \<Rightarrow> daemon \<Rightarrow> ui_effect option \<times> daemon" where
  "try_native_unlock W pb req s =
     (case option_filter (\<lambda>c. current_native_unlock_slot (w_host W) c (d_disk s) \<noteq> None) (local_key_cache_data s) of
        None \<Rightarrow> (None, s)
      | Some cache \<Rightarrow>
          (case decrypt_envelope_local_key_cache_with_native (w_host W) cache (d_disk s) of
             Inl _ \<Rightarrow> (None, s)
           | Inr (keys_json, key) \<Rightarrow>
               (case keys_from_json (w_host W) keys_json of
                  Inl _ \<Rightarrow> (None, s)
                | Inr keys \<Rightarrow> auto_unlocked W pb req keys key AutoUnlockedNative (\<lambda>s. s) s)))"

definition unlock_for_request :: "world \<Rightarrow> PromptBehavior \<Rightarrow> SshAgentUIRequest \<Rightarrow> daemon \<Rightarrow> ui_effect \<times> daemon" where
  "unlock_for_request W pb req s =
     (case try_native_unlock W pb req s of
        (Some fx, s') \<Rightarrow> (fx, s')
      | (None, s') \<Rightarrow>
          (case option_filter (\<lambda>c. pin_encrypted (local_cache_key c) \<noteq> None) (local_key_cache_data s') of
             None \<Rightarrow> (respond req False, s')
           | Some cache \<Rightarrow>
               (wait_for (Ask_Pin req (unlock_context_for_request req (shown_key_name req (key_names s'))) cache), s')))"

definition pin_answered ::
  "world \<Rightarrow> PromptBehavior \<Rightarrow> SshAgentUIRequest \<Rightarrow> LocalKeyCacheFile \<Rightarrow> (instant \<times> instant \<times> string) list \<Rightarrow>
     daemon \<Rightarrow> ui_effect \<times> daemon" where
  "pin_answered W pb req cache attempts s =
     (case run_pin_dialog (pin_validator (w_host W) cache) attempts (pin_failures s) of
        (None, pf) \<Rightarrow> (respond req False, s\<lparr>pin_failures := pf\<rparr>)
      | (Some (pin, keys_json, key), pf) \<Rightarrow>
          (case keys_from_json (w_host W) keys_json of
             Inl _ \<Rightarrow> (respond req False, s\<lparr>pin_failures := pf\<rparr>)
           | Inr keys \<Rightarrow>
               (case auto_unlocked W pb req keys key (AutoUnlockedPin pin)
                       (\<lambda>s. s\<lparr>d_disk := enroll_device_platform_slots_if_missing (w_host W) key (d_disk s)\<rparr>)
                       (s\<lparr>pin_failures := pf\<rparr>) of
                  (Some fx, s') \<Rightarrow> (fx, s')
                | (None, s') \<Rightarrow> (respond req False, s'))))"

section \<open>The request up to its first dialog\<close>

text \<open>
  The two locks that are only tried (\<open>try_read\<close>) are free or taken; taken, the memory counts as
  empty and the name as unknown.
\<close>

definition memory_key :: "SshAgentUIRequest \<Rightarrow> (string \<times> string) option" where
  "memory_key req = map_option (\<lambda>i. (i, operation_kind_for_request req)) (req_cipher_id req)"

definition remembered :: "SshAgentUIRequest \<Rightarrow> auth_memory \<Rightarrow> bool" where
  "remembered req memory \<longleftrightarrow> (case memory_key req of None \<Rightarrow> False | Some k \<Rightarrow> am_get memory k \<noteq> None)"

definition start_request ::
  "world \<Rightarrow> PromptBehavior \<Rightarrow> bool \<Rightarrow> bool \<Rightarrow> bool \<Rightarrow> SshAgentUIRequest \<Rightarrow> daemon \<Rightarrow> ui_effect \<times> daemon" where
  "start_request W pb auto_unlock memory_free names_free req s =
     (if req_is_list req then (respond req True, s\<lparr>d_agent := clear_needs_unlock (d_agent s)\<rparr>)
      else if vault_locked s \<and> auto_unlock then unlock_for_request W pb req s
      else if vault_locked s then (respond req False, s)
      else if \<not> req_is_forwarding req \<and> pb = RememberUntilLock \<and> memory_free
                \<and> remembered req (authorization_memory s)
      then (respond req True, s)
      else if \<not> needs_prompt pb req then (respond req True, s)
      else let name = (if names_free then shown_key_name req (key_names s) else unknown_key);
               remember = (if \<not> req_is_forwarding req \<and> pb = RememberUntilLock then memory_key req else None)
           in (wait_for (Ask_Auth req (sign_info req name) remember), s))"

section \<open>Answered dialogs\<close>

definition decided :: "SshAgentUIRequest \<Rightarrow> (string \<times> string) option \<Rightarrow> bool \<Rightarrow> daemon \<Rightarrow> ui_effect \<times> daemon" where
  "decided req remember approved s =
     (respond req approved,
      case remember of
        Some k \<Rightarrow> if approved then s\<lparr>authorization_memory := am_insert k () (authorization_memory s)\<rparr> else s
      | None \<Rightarrow> s)"

definition load_managed_keys_from_cache :: "world \<Rightarrow> daemon \<Rightarrow> (string \<times> string) list result" where
  "load_managed_keys_from_cache W s =
     bind_res (context_msg ''Failed to load local key cache'' (load_cache (h_os (w_host W)) (d_disk s))) (\<lambda>cache.
       case cache of
         None \<Rightarrow> Inl (''No local key cache found '' @ [CHR 0xE2, CHR 0x80, CHR 0x94]
                     @ '' run `sshwarden login` or `sshwarden sync` first'')
       | Some c \<Rightarrow> Inr (map (\<lambda>k. (ki_name k, ki_vault_item_id k)) (hdr_keys (cache_header c))))"

definition auth_answered ::
  "world \<Rightarrow> SshAgentUIRequest \<Rightarrow> (string \<times> string) option \<Rightarrow> AuthorizationResult \<Rightarrow> daemon \<Rightarrow> ui_effect \<times> daemon" where
  "auth_answered W req remember result s =
     (case result of
        Approved \<Rightarrow> decided req remember True s
      | Denied \<Rightarrow> decided req remember False s
      | Timeout \<Rightarrow> decided req remember False s
      | BindRequested \<Rightarrow>
          (case load_managed_keys_from_cache W s of
             Inl _ \<Rightarrow> decided req remember False s
           | Inr keys \<Rightarrow> if keys = [] then decided req remember False s
                         else (wait_for (Ask_Bind req remember), s)))"

text \<open>
  The bind dialog's answer is missing when the channel closes or the dialog times out;
  \<open>persist\<close> is \<open>persist_bind_payload\<close>, which writes the bindings and the managed SSH config.
\<close>

definition bind_answered ::
  "((string \<times> string list) list \<Rightarrow> unit result) \<Rightarrow> SshAgentUIRequest \<Rightarrow> (string \<times> string) option \<Rightarrow>
     BindHostsResult option \<Rightarrow> daemon \<Rightarrow> ui_effect \<times> daemon" where
  "bind_answered persist req remember result s =
     (case result of
        Some (Saved payload) \<Rightarrow> decided req remember (is_ok (persist payload)) s
      | _ \<Rightarrow> decided req remember False s)"

section \<open>A task and its dialogs\<close>

datatype ui_answer =
    Pin_Attempts "(instant \<times> instant \<times> string) list"
  | Auth_Result AuthorizationResult
  | Bind_Result "(string \<times> string list) list \<Rightarrow> unit result" "BindHostsResult option"

fun answers :: "ui_answer \<Rightarrow> ui_task \<Rightarrow> bool" where
  "answers (Pin_Attempts _) (Ask_Pin _ _ _) = True"
| "answers (Auth_Result _) (Ask_Auth _ _ _) = True"
| "answers (Bind_Result _ _) (Ask_Bind _ _) = True"
| "answers _ _ = False"

fun resume :: "world \<Rightarrow> PromptBehavior \<Rightarrow> ui_task \<Rightarrow> ui_answer \<Rightarrow> daemon \<Rightarrow> ui_effect \<times> daemon" where
  "resume W pb (Ask_Pin req _ cache) (Pin_Attempts attempts) s = pin_answered W pb req cache attempts s"
| "resume W pb (Ask_Auth req _ remember) (Auth_Result r) s = auth_answered W req remember r s"
| "resume W pb (Ask_Bind req remember) (Bind_Result persist r) s = bind_answered persist req remember r s"
| "resume W pb t _ s = (wait_for t, s)"

text \<open>
  The whole handler, when nothing else happens while its dialogs are open and the user answers
  them as \<open>user\<close> does. A request opens at most three dialogs.
\<close>

fun run_task :: "world \<Rightarrow> PromptBehavior \<Rightarrow> (ui_task \<Rightarrow> ui_answer) \<Rightarrow> nat \<Rightarrow> ui_effect \<times> daemon \<Rightarrow> ui_effect \<times> daemon" where
  "run_task W pb user 0 r = r"
| "run_task W pb user (Suc n) (fx, s) =
     (case fx_task fx of None \<Rightarrow> (fx, s) | Some t \<Rightarrow> run_task W pb user n (resume W pb t (user t) s))"

definition handle_ui_request ::
  "world \<Rightarrow> PromptBehavior \<Rightarrow> bool \<Rightarrow> bool \<Rightarrow> bool \<Rightarrow> SshAgentUIRequest \<Rightarrow> (ui_task \<Rightarrow> ui_answer) \<Rightarrow> daemon \<Rightarrow>
     ui_effect \<times> daemon" where
  "handle_ui_request W pb auto_unlock memory_free names_free req user s =
     run_task W pb user 3 (start_request W pb auto_unlock memory_free names_free req s)"

primrec dialogs_left :: "ui_task \<Rightarrow> nat" where
  "dialogs_left (Ask_Pin _ _ _) = 3"
| "dialogs_left (Ask_Auth _ _ _) = 2"
| "dialogs_left (Ask_Bind _ _) = 1"

section \<open>What the parts guarantee\<close>

named_theorems ui_defs

lemmas ui_records [ui_defs] = respond_def wait_for_def run_authorization_prompt_def decided_def

lemma auto_unlocked_cases:
  obtains a where "auto_unlocked W pb req keys key ev f s = (None, (apply_decrypted_keys_state keys s)\<lparr>d_agent := a\<rparr>)"
      and "a = d_agent s"
  | a where "set_keys (h_ssh (w_host W)) keys (d_agent s) = (Inr (), a)"
      and "auto_unlocked W pb req keys key ev f s =
        (Some ((run_authorization_prompt pb req (key_name_for_request req keys))\<lparr>fx_event := Some ev\<rparr>),
         (f ((apply_decrypted_keys_state keys s)\<lparr>d_agent := a\<rparr>))\<lparr>local_cache_key_state := Some key, vault_locked := False\<rparr>)"
proof (cases "set_keys (h_ssh (w_host W)) keys (d_agent s)")
  case (Pair r a)
  then show ?thesis
    using that set_keys_error [of "h_ssh (w_host W)" keys "d_agent s"]
    by (cases r) (auto simp: auto_unlocked_def Let_def apply_decrypted_keys_state_def)
qed

text \<open>
  Tasks are well-formed when what they would remember is the pair of their own request, and only
  under the policy that remembers; the effects of a part are well-formed when they are an answer
  to the request or a well-formed task of the same request.
\<close>

definition may_remember :: "PromptBehavior \<Rightarrow> SshAgentUIRequest \<Rightarrow> (string \<times> string) option \<Rightarrow> bool" where
  "may_remember pb req k \<longleftrightarrow> k = None \<or> pb = RememberUntilLock \<and> \<not> req_is_forwarding req \<and> k = memory_key req"

fun task_ok :: "PromptBehavior \<Rightarrow> ui_task \<Rightarrow> bool" where
  "task_ok pb (Ask_Pin req _ _) = True"
| "task_ok pb (Ask_Auth req _ k) = may_remember pb req k"
| "task_ok pb (Ask_Bind req k) = may_remember pb req k"

definition fx_ok :: "PromptBehavior \<Rightarrow> SshAgentUIRequest \<Rightarrow> ui_effect \<Rightarrow> bool" where
  "fx_ok pb req fx \<longleftrightarrow>
     (\<exists>b. fx_response fx = Some (req_request_id req, b)) \<and> fx_task fx = None
     \<or> fx_response fx = None \<and> (\<exists>t. fx_task fx = Some t \<and> task_request t = req \<and> task_ok pb t)"

lemma fx_ok_simps [simp]:
  "fx_ok pb req (respond req b)" "fx_ok pb req (fx\<lparr>fx_event := e\<rparr>) = fx_ok pb req fx"
  "fx_ok pb req (wait_for t) \<longleftrightarrow> task_request t = req \<and> task_ok pb t"
  "fx_ok pb req (run_authorization_prompt pb req name)"
  "fx_ok pb req (fst (decided req k b s))"
  by (auto simp: fx_ok_def ui_defs may_remember_def)

lemma auto_unlocked_fx_ok: "auto_unlocked W pb req keys key ev f s = (Some fx, s') \<Longrightarrow> fx_ok pb req fx"
  by (rule auto_unlocked_cases [where W = W and pb = pb and req = req and keys = keys and key = key and ev = ev
        and f = f and s = s]) auto

lemma pin_answered_fx_ok: "fx_ok pb req (fst (pin_answered W pb req cache attempts s))"
  by (auto simp: pin_answered_def dest: auto_unlocked_fx_ok split: prod.splits option.splits sum.splits)

lemma unlock_for_request_fx_ok: "fx_ok pb req (fst (unlock_for_request W pb req s))"
proof -
  have "fx_ok pb req fx" if "try_native_unlock W pb req s = (Some fx, t')" for t' fx
    using that by (auto simp: try_native_unlock_def dest: auto_unlocked_fx_ok split: prod.splits option.splits sum.splits)
  then show ?thesis
    by (auto simp: unlock_for_request_def split: prod.splits option.splits)
qed

lemma start_request_fx_ok: "fx_ok pb req (fst (start_request W pb au mf nf req s))"
  by (simp add: start_request_def unlock_for_request_fx_ok Let_def may_remember_def)

lemma resume_fx_ok:
  assumes "task_ok pb t"
  shows "fx_ok pb (task_request t) (fst (resume W pb t a s))"
  using assms
  by (cases "(W, pb, t, a, s)" rule: resume.cases)
    (auto simp: pin_answered_fx_ok auth_answered_def bind_answered_def
      split: AuthorizationResult.splits sum.splits option.splits BindHostsResult.splits)

lemma resume_progress:
  assumes "answers a t" and "fx_task (fst (resume W pb t a s)) = Some t'"
  shows "dialogs_left t' < dialogs_left t"
proof -
  have auto: "dialogs_left t' < 3" if "auto_unlocked W pb req keys key ev f u = (Some fx, u')" "fx_task fx = Some t'"
    for req keys key ev f u u' fx
    using that
    by (rule_tac auto_unlocked_cases [where W = W and pb = pb and req = req and keys = keys and key = key and ev = ev
          and f = f and s = u]) (auto simp: ui_defs split: if_splits)
  show ?thesis
    using assms
    by (cases "(a, t)" rule: answers.cases)
      (auto simp: pin_answered_def auth_answered_def bind_answered_def ui_defs auto
        split: prod.splits option.splits sum.splits AuthorizationResult.splits BindHostsResult.splits if_splits)
qed

lemma dialogs_left_pos [simp]: "dialogs_left t \<noteq> 0"
  by (cases t) simp_all

lemma run_task_answers:
  assumes "\<forall>t. answers (user t) t" and "fx_ok pb req (fst r)" and "\<forall>t. fx_task (fst r) = Some t \<longrightarrow> dialogs_left t \<le> n"
  shows "\<exists>b. fx_response (fst (run_task W pb user n r)) = Some (req_request_id req, b) \<and> fx_task (fst (run_task W pb user n r)) = None"
  using assms(2,3)
proof (induction n arbitrary: r)
  case 0
  then have "fx_task (fst r) = None" by (cases "fx_task (fst r)") auto
  with 0 show ?case by (cases r) (auto simp: fx_ok_def)
next
  case (Suc n)
  obtain fx s where r: "r = (fx, s)" by fastforce
  show ?case
  proof (cases "fx_task fx")
    case None
    with Suc.prems r show ?thesis by (auto simp: fx_ok_def)
  next
    case (Some t)
    then have t: "task_request t = req" "task_ok pb t" using Suc.prems(1) r by (auto simp: fx_ok_def)
    let ?r = "resume W pb t (user t) s"
    have "fx_ok pb req (fst ?r)" using resume_fx_ok [OF t(2)] t(1) by metis
    moreover have "\<forall>t'. fx_task (fst ?r) = Some t' \<longrightarrow> dialogs_left t' \<le> n"
      using resume_progress [of "user t" t W pb s] assms(1) Suc.prems(2) r Some by fastforce
    ultimately show ?thesis using Suc.IH [of ?r] r Some by simp
  qed
qed

section \<open>Silence and memory\<close>

lemma signable_clear_needs_unlock [simp]: "signable (clear_needs_unlock a) = signable a"
  by (simp add: clear_needs_unlock_def signable_def)

lemma auto_unlocked_quiet:
  assumes "auto_unlocked W pb req keys key ev f s = (r, s')"
  shows "quiet s s'"
  using assms
  by (rule_tac auto_unlocked_cases [where W = W and pb = pb and req = req and keys = keys and key = key and ev = ev
        and f = f and s = s]) (auto simp: quiet_def apply_decrypted_keys_state_def)

lemma try_native_quiet: "quiet s (snd (try_native_unlock W pb req s))"
  by (auto simp: try_native_unlock_def dest: auto_unlocked_quiet split: option.splits sum.splits prod.splits)
    (metis auto_unlocked_quiet prod.collapse)

lemma start_request_silent:
  assumes "locked_silent s"
  shows "locked_silent (snd (start_request W pb au mf nf req s))"
proof -
  have "locked_silent (snd (unlock_for_request W pb req s))"
    using locked_silent_step [OF assms try_native_quiet [of s W pb req]]
    by (auto simp: unlock_for_request_def split: prod.splits option.splits)
  with assms show ?thesis by (auto simp: start_request_def locked_silent_def Let_def)
qed

lemma decided_frame [simp]:
  "vault_locked (snd (decided req k b s)) = vault_locked s" "d_agent (snd (decided req k b s)) = d_agent s"
  by (simp_all add: decided_def split: option.splits)

lemma pin_answered_quiet: "quiet s (snd (pin_answered W pb req cache attempts s))"
proof -
  have "quiet s s'" if "auto_unlocked W pb req keys key ev f (s\<lparr>pin_failures := pf\<rparr>) = (r, s')" for keys key ev f pf r s'
    using auto_unlocked_quiet [OF that] by (simp add: quiet_def)
  then show ?thesis
    by (auto simp: pin_answered_def intro: quiet_same split: prod.splits option.splits sum.splits)
qed

lemma resume_quiet: "quiet s (snd (resume W pb t a s))"
  by (cases "(W, pb, t, a, s)" rule: resume.cases)
    (auto simp: pin_answered_quiet auth_answered_def bind_answered_def intro: quiet_same
      split: AuthorizationResult.splits sum.splits option.splits BindHostsResult.splits)

lemma auto_unlocked_memory:
  assumes "auto_unlocked W pb req keys key ev f s = (r, s')" and "\<And>s. authorization_memory (f s) = authorization_memory s"
  shows "authorization_memory s' = authorization_memory s"
  using assms(1)
  by (rule_tac auto_unlocked_cases [where W = W and pb = pb and req = req and keys = keys and key = key and ev = ev
        and f = f and s = s]) (auto simp: apply_decrypted_keys_state_def assms(2))

lemma try_native_memory [simp]: "authorization_memory (snd (try_native_unlock W pb req s)) = authorization_memory s"
proof -
  have "authorization_memory (snd (auto_unlocked W pb req keys key ev (\<lambda>s. s) s)) = authorization_memory s" for keys key ev
    by (rule auto_unlocked_memory [OF surjective_pairing]) simp
  then show ?thesis by (simp add: try_native_unlock_def split: option.splits sum.splits prod.splits)
qed

lemma unlock_for_request_memory [simp]: "authorization_memory (snd (unlock_for_request W pb req s)) = authorization_memory s"
  using try_native_memory [of W pb req s]
  by (cases "try_native_unlock W pb req s") (simp add: unlock_for_request_def split: option.splits)

lemma start_request_memory [simp]:
  "authorization_memory (snd (start_request W pb au mf nf req s)) = authorization_memory s"
  by (simp add: start_request_def Let_def)

lemma decided_memory:
  "authorization_memory (snd (decided req k b s)) =
     (case k of Some p \<Rightarrow> if b then am_insert p () (authorization_memory s) else authorization_memory s
      | None \<Rightarrow> authorization_memory s)"
  by (simp add: decided_def split: option.splits)

lemma pin_answered_memory [simp]:
  "authorization_memory (snd (pin_answered W pb req cache attempts s)) = authorization_memory s"
proof -
  have "authorization_memory s' = authorization_memory s"
    if "auto_unlocked W pb req keys key ev (\<lambda>s. s\<lparr>d_disk := g s\<rparr>) (s\<lparr>pin_failures := pf\<rparr>) = (r, s')"
    for keys key ev g pf r s'
    using auto_unlocked_memory [OF that] by simp
  then show ?thesis by (auto simp: pin_answered_def split: prod.splits option.splits sum.splits)
qed

lemma needs_prompt_iff: "needs_prompt pb req \<longleftrightarrow> req_is_forwarding req \<or> pb \<noteq> Never"
  by (cases pb) (simp_all add: needs_prompt_def)

lemma auto_unlocked_response:
  assumes "auto_unlocked W pb req keys key ev f s = (Some fx, s')" and "fx_response fx = Some (rid, True)"
  shows "pb = Never \<and> \<not> req_is_forwarding req \<and> \<not> vault_locked s'"
  using assms
  by (rule_tac auto_unlocked_cases [where W = W and pb = pb and req = req and keys = keys and key = key and ev = ev
        and f = f and s = s]) (auto simp: ui_defs needs_prompt_iff split: if_splits)

lemma unlock_for_request_response:
  assumes "fx_response (fst (unlock_for_request W pb req s)) = Some (rid, True)"
  shows "pb = Never \<and> \<not> req_is_forwarding req \<and> \<not> vault_locked (snd (unlock_for_request W pb req s))"
proof (cases "try_native_unlock W pb req s")
  case (Pair r s')
  then obtain fx where r: "r = Some fx"
    using assms by (cases r) (auto simp: unlock_for_request_def ui_defs split: option.splits)
  then obtain keys key where "auto_unlocked W pb req keys key AutoUnlockedNative (\<lambda>s. s) s = (Some fx, s')"
    using Pair by (auto simp: try_native_unlock_def split: option.splits sum.splits)
  with auto_unlocked_response Pair r assms show ?thesis by (auto simp: unlock_for_request_def)
qed

lemma pin_answered_response:
  assumes "fx_response (fst (pin_answered W pb req cache attempts s)) = Some (rid, True)"
  shows "pb = Never \<and> \<not> req_is_forwarding req \<and> \<not> vault_locked (snd (pin_answered W pb req cache attempts s))
    \<and> (\<exists>t t' pin. (t, t', pin) \<in> set attempts \<and> is_ok (decrypt_envelope_local_key_cache_with_pin (w_host W) cache pin))"
proof -
  obtain r pf where d: "run_pin_dialog (pin_validator (w_host W) cache) attempts (pin_failures s) = (r, pf)" by fastforce
  obtain pin j k where r: "r = Some (pin, j, k)"
    using assms d by (cases r) (auto simp: pin_answered_def ui_defs)
  obtain keys where k: "keys_from_json (w_host W) j = Inr keys"
    using assms d r by (cases "keys_from_json (w_host W) j") (auto simp: pin_answered_def ui_defs)
  let ?u = "auto_unlocked W pb req keys k (AutoUnlockedPin pin)
      (\<lambda>s. s\<lparr>d_disk := enroll_device_platform_slots_if_missing (w_host W) k (d_disk s)\<rparr>) (s\<lparr>pin_failures := pf\<rparr>)"
  obtain x s' where u: "?u = (x, s')" by fastforce
  obtain fx where x: "x = Some fx"
    using assms d r k u by (cases x) (auto simp: pin_answered_def ui_defs)
  obtain t t' where "(t, t', pin) \<in> set attempts" "pin_validator (w_host W) cache pin = Some (j, k)"
    using run_pin_dialog_Some [OF d [unfolded r]] by blast
  then have "(t, t', pin) \<in> set attempts \<and> is_ok (decrypt_envelope_local_key_cache_with_pin (w_host W) cache pin)"
    by (auto simp: pin_validator_def res_ok_def is_ok_iff split: sum.splits)
  then have "\<exists>t t' pin. (t, t', pin) \<in> set attempts \<and> is_ok (decrypt_envelope_local_key_cache_with_pin (w_host W) cache pin)"
    by blast
  then show ?thesis
    using auto_unlocked_response [OF u [unfolded x]] assms d r k u x by (simp add: pin_answered_def)
qed

section \<open>Properties\<close>

text \<open>
  C2: a signature needs consent. A sign request is approved before any dialog only if it is not
  forwarded, the vault is unlocked, and the policy is to never prompt or the same operation on the
  same key was approved before and is remembered. After a dialog it is approved only if the user
  approved it, or saved host bindings that could be stored, or entered a PIN that opens the cache
  under the policy to never prompt and the request is not forwarded.
\<close>

theorem approval_needs_consent:
  "(fx_response (fst (start_request W pb au mf nf req s)) = Some (rid, True) \<longrightarrow>
      req_is_list req \<or> \<not> req_is_forwarding req \<and> \<not> vault_locked (snd (start_request W pb au mf nf req s))
        \<and> (pb = Never \<or> pb = RememberUntilLock \<and> remembered req (authorization_memory s)))
   \<and> (fx_response (fst (resume W pb t a s)) = Some (rid, True) \<longrightarrow>
        a = Auth_Result Approved
        \<or> (\<exists>persist payload. a = Bind_Result persist (Some (Saved payload)) \<and> is_ok (persist payload))
        \<or> pb = Never \<and> \<not> req_is_forwarding (task_request t) \<and> \<not> vault_locked (snd (resume W pb t a s))
          \<and> (\<exists>req ctx cache attempts t' t'' pin. t = Ask_Pin req ctx cache \<and> a = Pin_Attempts attempts
               \<and> (t', t'', pin) \<in> set attempts \<and> is_ok (decrypt_envelope_local_key_cache_with_pin (w_host W) cache pin)))"
proof (intro conjI impI, goal_cases)
  case 1
  then show ?case
    using unlock_for_request_response [of W pb req s rid]
    by (auto simp: start_request_def ui_defs needs_prompt_iff Let_def split: if_splits)
next
  case 2
  then show ?case
    using pin_answered_response
    by (cases "(W, pb, t, a, s)" rule: resume.cases)
      (auto simp: auth_answered_def bind_answered_def ui_defs
        split: AuthorizationResult.splits sum.splits option.splits BindHostsResult.splits if_splits)
qed

definition demo_request :: SshAgentUIRequest where
  "demo_request = \<lparr>req_request_id = 7, req_cipher_id = Some ''id-1'', req_process_name = ''ssh'', req_pid = 42,
     req_is_list = False, req_namespace = None, req_operation_kind = SshAuthentication, req_is_forwarding = False\<rparr>"

theorem approval_needs_consent_witness:
  "fx_response (fst (start_request demo_world Never True True True demo_request demo_daemon)) = Some (7, True)
   \<and> \<not> vault_locked (snd (start_request demo_world Never True True True demo_request demo_daemon))
   \<and> fx_response (fst (start_request demo_world Never True True True (demo_request\<lparr>req_is_forwarding := True\<rparr>) demo_daemon)) = None"
proof -
  have r: "fx_response (fst (start_request demo_world Never True True True demo_request demo_daemon)) = Some (7, True)"
    by (simp add: start_request_def demo_request_def demo_daemon_def needs_prompt_def respond_def)
  have "\<not> req_is_list demo_request" by (simp add: demo_request_def)
  then have "\<not> vault_locked (snd (start_request demo_world Never True True True demo_request demo_daemon))"
    using approval_needs_consent [of demo_world Never True True True demo_request demo_daemon 7] r by blast
  with r show ?thesis
    by (simp add: start_request_def demo_request_def demo_daemon_def needs_prompt_def wait_for_def Let_def)
qed

text \<open>
  Only consent is remembered, and only for itself. Starting a request changes no remembered
  authorization. An answered dialog adds at most the pair of vault item and operation of its own
  request, and only when it approves the request, the policy is to remember and the request is not
  forwarded.
\<close>

theorem only_consent_is_remembered:
  assumes "task_ok pb t"
  shows "authorization_memory (snd (start_request W pb au mf nf req s)) = authorization_memory s
    \<and> (am_get (authorization_memory (snd (resume W pb t a s))) k \<noteq> None \<longrightarrow>
         am_get (authorization_memory s) k \<noteq> None
         \<or> pb = RememberUntilLock \<and> \<not> req_is_forwarding (task_request t) \<and> memory_key (task_request t) = Some k
           \<and> fx_response (fst (resume W pb t a s)) = Some (req_request_id (task_request t), True))"
proof (intro conjI impI start_request_memory, goal_cases)
  case 1
  have "am_get (authorization_memory s) k \<noteq> None \<or> b \<and> p = Some k"
    if "am_get (authorization_memory (snd (decided r p b s))) k \<noteq> None" for r p b
    using that by (auto simp: decided_memory split: option.splits if_splits)
  then show ?case
    using 1 assms
    by (cases "(W, pb, t, a, s)" rule: resume.cases)
      (auto simp: auth_answered_def bind_answered_def may_remember_def decided_def respond_def
        split: AuthorizationResult.splits sum.splits option.splits BindHostsResult.splits if_splits)
qed

theorem only_consent_is_remembered_witness:
  "let t = Ask_Auth demo_request (sign_info demo_request ''laptop'') (memory_key demo_request)
   in authorization_memory (snd (resume demo_world RememberUntilLock t (Auth_Result Approved) (demo_daemon\<lparr>authorization_memory := []\<rparr>)))
        = [((''id-1'', ''ssh_authentication''), ())]
      \<and> fx_response (fst (resume demo_world RememberUntilLock t (Auth_Result Approved) (demo_daemon\<lparr>authorization_memory := []\<rparr>)))
        = Some (7, True)"
proof -
  let ?t = "Ask_Auth demo_request (sign_info demo_request ''laptop'') (memory_key demo_request)"
  let ?r = "resume demo_world RememberUntilLock ?t (Auth_Result Approved) (demo_daemon\<lparr>authorization_memory := []\<rparr>)"
  have t: "task_ok RememberUntilLock ?t" by (simp add: may_remember_def demo_request_def)
  have m: "authorization_memory (snd ?r) = [((''id-1'', ''ssh_authentication''), ())]"
    by (simp add: auth_answered_def decided_def memory_key_def demo_request_def operation_kind_for_request_def)
  then have "fx_response (fst ?r) = Some (req_request_id demo_request, True)"
    using only_consent_is_remembered [OF t, of demo_world True True True demo_request "demo_daemon\<lparr>authorization_memory := []\<rparr>"
        "Auth_Result Approved" "(''id-1'', ''ssh_authentication'')"] by (auto simp del: resume.simps)
  with m show ?thesis by (simp add: Let_def demo_request_def)
qed


definition demo_user :: "ui_task \<Rightarrow> ui_answer" where
  "demo_user t = (case t of Ask_Pin _ _ _ \<Rightarrow> Pin_Attempts [] | Ask_Auth _ _ _ \<Rightarrow> Auth_Result Approved
     | Ask_Bind _ _ \<Rightarrow> Bind_Result (\<lambda>_. Inr ()) None)"


end
