(* ===== verification/Vault_Lifecycle.thy ===== *)
theory Vault_Lifecycle
  imports Vault_Safety
begin

text \<open>
  The life of the vault's contents: what a sync leaves in memory and on disk, that a sync which was
  put off until the next unlock is not lost, and that \<open>forget\<close> removes what it says it removes.
\<close>

section \<open>A successful sync\<close>

lemma do_sync_Inr:
  assumes "do_sync W s = (Inr n, s')"
  obtains client keys a where "api_client s = Some client" and "has_user_key client"
    and "sync_ssh_keys (h_crypto (w_host W)) (w_net W) client = Inr keys" and "n = length keys"
    and "(if vault_locked s then (Inr (), d_agent s)
          else set_keys (h_ssh (w_host W)) (map tuple_of_key keys) (d_agent s)) = (Inr (), a)"
    and "s' = (let s1 = (reconcile_synced_key_state W (map tuple_of_key keys) (s\<lparr>ssh_config_calls := ssh_config_calls s @ [keys]\<rparr>))
                 \<lparr>key_names := names_of (map (\<lambda>k. (dk_cipher_id k, dk_name k)) keys)\<rparr>
               in s1\<lparr>d_agent := a, notification_state := record_successful_sync (w_later W) (notification_state s1)\<rparr>)"
proof -
  obtain client where c: "api_client s = Some client"
    using assms by (cases "api_client s") (simp_all add: do_sync_def)
  have u: "has_user_key client"
    using assms c by (cases "has_user_key client") (simp_all add: do_sync_def)
  obtain keys where k: "sync_ssh_keys (h_crypto (w_host W)) (w_net W) client = Inr keys"
    using assms c u by (cases "sync_ssh_keys (h_crypto (w_host W)) (w_net W) client") (simp_all add: do_sync_def)
  obtain r a where a: "(if vault_locked s then (Inr (), d_agent s)
          else set_keys (h_ssh (w_host W)) (map tuple_of_key keys) (d_agent s)) = (r, a)" by fastforce
  have r: "r = Inr ()" using assms c u k a by (cases r; cases "vault_locked s") (simp_all add: do_sync_def Let_def)
  show ?thesis
    using assms that [OF c u k _ a [unfolded r]] c u k a r by (cases "vault_locked s") (simp_all add: do_sync_def Let_def)
qed

text \<open>
  What a reconciliation leaves of the cache: when the cache key is held, either the refreshed cache
  is on disk and opens under the same PIN to the new keys, or the runtime state says it is stale.
\<close>

lemma reconcile_cache:
  fixes ks :: "key_tuple list"
  assumes "host_ok (w_host W)" and "rnd_ok (w_rnd W)" and "local_key_cache_data s = Some existing"
    and "local_cache_key_state s = Some key" and "opens_to (w_host W) existing pin key old"
  defines "s' \<equiv> reconcile_synced_key_state W ks s"
  shows "rs_stale_cache (notification_state s') \<and> local_key_cache_data s' = Some existing
    \<or> \<not> rs_stale_cache (notification_state s') \<and> (\<exists>cache. local_key_cache_data s' = Some cache
        \<and> opens_to (w_host W) cache pin key ks \<and> load_cache (h_os (w_host W)) (d_disk s') = Inr (Some cache))"
proof -
  obtain r d where r: "refresh_envelope_local_key_cache (w_host W) (w_rnd W) ks existing key (d_disk s) = (r, d)" by fastforce
  show ?thesis
  proof (cases r)
    case (Inl e)
    then show ?thesis
      using assms(3,4) r by (simp add: s'_def reconcile_synced_key_state_def Let_def mark_cache_stale_def split: prod.splits)
  next
    case (Inr cache)
    with refresh_spec [OF assms(1,2,5) r [unfolded Inr]] show ?thesis
      using assms(3,4) r by (simp add: s'_def reconcile_synced_key_state_def Let_def mark_cache_refreshed_def split: prod.splits)
  qed
qed

section \<open>The pending sync\<close>

text \<open>\<open>synced W s\<close>: the loaded keys are those of a sync that ended well on an unlocked vault.\<close>

definition synced :: "world \<Rightarrow> daemon \<Rightarrow> bool" where
  "synced W s \<longleftrightarrow> \<not> vault_locked s \<and> (\<exists>t. \<not> vault_locked t \<and> is_ok (fst (do_sync W t))
     \<and> d_agent s = d_agent (snd (do_sync W t)) \<and> cached_key_tuples s = cached_key_tuples (snd (do_sync W t)))"

lemma resolve_synced:
  assumes "\<not> vault_locked s" and "pending_sync s" and "\<not> pending_sync (snd (resolve_pending_sync W s))"
  shows "synced W (snd (resolve_pending_sync W s))"
  unfolding synced_def
proof (intro conjI exI [of _ "s\<lparr>pending_sync := False\<rparr>"])
  show "is_ok (fst (do_sync W (s\<lparr>pending_sync := False\<rparr>)))"
    using assms by (simp add: resolve_eq Let_def)
qed (use assms in \<open>simp_all add: resolve_eq Let_def\<close>)

lemma finish_unlock_pending [simp]:
  "pending_sync (snd (finish_unlock_with_json W j m s)) = pending_sync s"
  by (simp add: finish_unlock_with_json_def Let_def split: sum.splits prod.splits)

lemma finish_unlock_ok_unlocked:
  "resp_ok (fst (finish_unlock_with_json W j m s)) \<Longrightarrow> \<not> vault_locked (snd (finish_unlock_with_json W j m s))"
  by (auto simp: finish_unlock_with_json_def Let_def split: sum.splits prod.splits)

lemma finish_native_pending:
  "pending_sync (snd (finish_native_unlock_response W c m s)) = pending_sync s"
  "resp_ok (fst (finish_native_unlock_response W c m s)) \<Longrightarrow>
     \<not> vault_locked (snd (finish_native_unlock_response W c m s))"
  by (auto simp: finish_native_unlock_response_def finish_unlock_ok_unlocked split: sum.splits)

lemma after_unlock_synced:
  assumes "resp_ok (fst r) \<Longrightarrow> \<not> vault_locked (snd r)" and "pending_sync (snd r)"
    and "\<not> pending_sync (snd (after_unlock W r))"
  shows "synced W (snd (after_unlock W r))"
  using assms resolve_synced [of "snd r" W] by (cases r) (simp add: after_unlock_def split: if_splits)

lemma after_pin_unlock_synced:
  assumes "resp_ok (fst r) \<Longrightarrow> \<not> vault_locked (snd r)" and "pending_sync (snd r)"
    and "\<not> pending_sync (snd (after_pin_unlock W pin r))"
  shows "synced W (snd (after_pin_unlock W pin r))"
  using assms resolve_synced [of "try_restore_api_session W pin (snd r)" W]
  by (cases r) (simp add: after_pin_unlock_def split: if_splits)

lemma pin_unlock_synced:
  assumes "pending_sync t" and "\<not> pending_sync (snd (after_pin_unlock W pin (finish_unlock_with_json W j m t)))"
  shows "synced W (snd (after_pin_unlock W pin (finish_unlock_with_json W j m t)))"
  using assms by (intro after_pin_unlock_synced finish_unlock_ok_unlocked) simp_all

lemma unlock_pin_dialog_synced:
  assumes "pending_sync s" and "\<not> pending_sync (snd (unlock_pin_dialog W s))"
  shows "synced W (snd (unlock_pin_dialog W s))"
  using assms unfolding unlock_pin_dialog_def Let_def
  by (auto intro!: pin_unlock_synced split: option.splits prod.splits)

lemma handle_unlock_synced:
  assumes "pending_sync s" and "\<not> pending_sync (snd (handle_unlock W au s))"
  shows "synced W (snd (handle_unlock W au s))"
proof (cases "local_key_cache_data s")
  case None
  then show ?thesis
    using assms unlock_pin_dialog_synced by (auto simp: handle_unlock_def Let_def split: if_splits)
next
  case (Some c)
  obtain resp s' where f: "finish_native_unlock_response W c native_msg s = (resp, s')" by fastforce
  then have p: "pending_sync s'" "resp_ok resp \<Longrightarrow> \<not> vault_locked s'"
    using finish_native_pending [where W = W and c = c and m = native_msg and s = s] assms(1) by simp_all
  then show ?thesis
    using assms Some f unlock_pin_dialog_synced [OF p(1)] after_unlock_synced [of "(resp, s')" W]
    by (auto simp: handle_unlock_def Let_def split: if_splits)
qed

lemma handle_unlock_native_synced:
  assumes "pending_sync s" and "\<not> pending_sync (snd (handle_unlock_native W s))"
  shows "synced W (snd (handle_unlock_native W s))"
  using assms unfolding handle_unlock_native_def
  by (auto intro!: after_unlock_synced simp: finish_native_pending split: option.splits if_splits)

lemma synced_pin_failures [simp]: "synced W (s\<lparr>pin_failures := pf\<rparr>) = synced W s"
  by (simp add: synced_def)

lemma handle_unlock_pin_synced:
  assumes "pending_sync s" and "\<not> pending_sync (snd (handle_unlock_pin W pin s))"
  shows "synced W (snd (handle_unlock_pin W pin s))"
proof -
  have t: "synced W (snd (try_pin W pin t))" if "pending_sync t" "\<not> pending_sync (snd (try_pin W pin t))" for t
    using that unfolding try_pin_def by (auto intro!: pin_unlock_synced split: option.splits sum.splits)
  obtain r pf where l: "pin_lockout_remaining (w_now W) (pin_failures s) = (r, pf)" by fastforce
  obtain resp s' where "try_pin W pin (s\<lparr>pin_failures := pf\<rparr>) = (resp, s')" by fastforce
  then show ?thesis
    using assms l t [of "s\<lparr>pin_failures := pf\<rparr>"]
    by (cases r) (auto simp: handle_unlock_pin_def split: if_splits)
qed

lemma handle_unlock_password_synced:
  assumes "pending_sync s" and "\<not> pending_sync (snd (handle_unlock_password W pw s))"
  shows "synced W (snd (handle_unlock_password W pw s))"
  using assms unfolding handle_unlock_password_def Let_def
  by (auto intro!: resolve_synced split: if_splits prod.splits sum.splits)

lemma handle_sync_pending:
  "pending_sync s \<Longrightarrow> pending_sync (snd (handle_sync W s))"
  "vault_locked s \<Longrightarrow> resp_ok (fst (handle_sync W s)) \<Longrightarrow> pending_sync (snd (handle_sync W s))"
proof -
  let ?e = "if \<not> vault_locked s \<and> multi_device_mode (w_host W)
      then ensure_local_cache_key_for_manual_sync W s else (Inr (), s)"
  obtain r s1 where e: "?e = (r, s1)" by fastforce
  then have p: "pending_sync s1 = pending_sync s" by (metis (full_types) ensure_key_frame(8) snd_conv)
  obtain r2 s2 where d: "do_sync W s1 = (r2, s2)" by fastforce
  then have "pending_sync s2 = pending_sync s" using do_sync_frame(4) [of W s1] p by simp
  then have "pending_sync (snd (handle_sync W s)) = (pending_sync s \<or> vault_locked s \<and> is_ok r \<and> is_ok r2)"
    "resp_ok (fst (handle_sync W s)) \<longrightarrow> is_ok r \<and> is_ok r2"
    using p d by (cases r; cases r2; simp add: handle_sync_def Let_def e)+
  then show "pending_sync s \<Longrightarrow> pending_sync (snd (handle_sync W s))"
    "vault_locked s \<Longrightarrow> resp_ok (fst (handle_sync W s)) \<Longrightarrow> pending_sync (snd (handle_sync W s))"
    by simp_all
qed

lemma handle_set_pin_pending [simp]: "pending_sync (snd (handle_set_pin W pin s)) = pending_sync s"
  unfolding handle_set_pin_def Let_def by (auto split: prod.splits sum.splits option.splits)

lemma run_action_pending:
  assumes "pending_sync s" and "\<not> pending_sync (snd (run_action W au a s))"
  shows "(\<exists>sh. a = AForget sh) \<or> synced W (snd (run_action W au a s))"
proof (cases a)
  case ALock
  then show ?thesis using assms by (auto simp: lock_vault_def split: if_splits sum.splits prod.splits)
next
  case AUnlock
  then show ?thesis using assms handle_unlock_synced by simp
next
  case AUnlockNative
  then show ?thesis
    using assms handle_unlock_native_synced by simp
next
  case (AUnlockPin p)
  then show ?thesis using assms handle_unlock_pin_synced by simp
next
  case (AUnlockPassword p)
  then show ?thesis using assms handle_unlock_password_synced by simp
next
  case ASync
  then show ?thesis using assms handle_sync_pending(1) by simp
qed (use assms in \<open>auto split: sum.splits if_splits\<close>)


section \<open>Forgetting\<close>

lemma delete_frames:
  "cache_file (snd (delete_slots os d)) = cache_file d" "cache_file (snd (delete_session os d)) = cache_file d"
  "slots_file (snd (delete_session os d)) = slots_file d"
  by (simp_all add: delete_slots_def delete_session_def put_session_def split: sum.splits)

lemma load_frames:
  "cache_file d = cache_file d' \<Longrightarrow> load_cache os d = load_cache os d'"
  "slots_file d = slots_file d' \<Longrightarrow> load_slots os d = load_slots os d'"
  by (simp_all add: load_cache_def load_slots_def)

lemma fail_item_Nil: "fail_item what r = [] \<longleftrightarrow> r = Inr ()"
  by (cases r) (simp_all add: fail_item_def)

text \<open>
  The disk after \<open>forget\<close> and the results of its four deletions: cache (skipped where the cache
  is shared and kept), native key material, device slots, session.
\<close>

definition forget_disk :: "world \<Rightarrow> bool \<Rightarrow> daemon \<Rightarrow> unit result list \<times> disk" where
  "forget_disk W removes s =
     (let os = h_os (w_host W);
          (r1, d1) = (if removes then delete_cache os (d_disk s) else (Inr (), d_disk s));
          r2 = w_native_delete W (Option.bind (local_key_cache_data s) (\<lambda>c. current_native_unlock_slot (w_host W) c d1));
          (r3, d2) = delete_slots os d1; (r4, d3) = delete_session os d2
      in ([r1, r2, r3, r4], d3))"

lemma handle_forget_effect:
  assumes "removes = (shared \<or> \<not> multi_device_mode (w_host W))"
    and "forget_disk W removes s = (rs, d)"
    and "handle_forget W shared s = (resp, s')"
  shows "resp_ok resp \<longleftrightarrow> (\<forall>r \<in> set rs. r = Inr ())"
    and "d_disk s' = d" and "cached_key_tuples s' = []" and "local_cache_key_state s' = None"
    and "api_client s' = None" and "notification_client s' = None" and "authorization_memory s' = []"
    and "\<not> pending_sync s'" and "removes \<Longrightarrow> local_key_cache_data s' = None \<and> listed (d_agent s') = {}"
proof -
  let ?os = "h_os (w_host W)"
  obtain r1 d1 where 1: "(if removes then delete_cache ?os (d_disk s) else (Inr (), d_disk s)) = (r1, d1)" by fastforce
  obtain r3 d2 where 2: "delete_slots ?os d1 = (r3, d2)" by fastforce
  obtain r4 d3 where 3: "delete_session ?os d2 = (r4, d3)" by fastforce
  have rs: "rs = [r1, w_native_delete W (Option.bind (local_key_cache_data s)
      (\<lambda>c. current_native_unlock_slot (w_host W) c d1)), r3, r4]" and d: "d = d3"
    using assms(2) 1 2 3 by (auto simp: forget_disk_def Let_def)
  note f = assms(3) [unfolded handle_forget_def Let_def assms(1) [symmetric] 1 prod.case 2 3]
  show "resp_ok resp \<longleftrightarrow> (\<forall>r \<in> set rs. r = Inr ())"
    using f unfolding rs by (auto simp: fail_item_Nil split: if_splits)
  have "d_disk s' = d3 \<and> cached_key_tuples s' = [] \<and> local_cache_key_state s' = None \<and> api_client s' = None
      \<and> notification_client s' = None \<and> authorization_memory s' = [] \<and> \<not> pending_sync s'
      \<and> (removes \<longrightarrow> local_key_cache_data s' = None \<and> d_agent s' = clear_keys (d_agent s))"
    using arg_cong [OF f, of snd] by (cases removes; cases "unwrap_or None (res_ok (load_cache ?os d3))") auto
  then show "d_disk s' = d" "cached_key_tuples s' = []" "local_cache_key_state s' = None"
    "api_client s' = None" "notification_client s' = None" "authorization_memory s' = []" "\<not> pending_sync s'"
    "removes \<Longrightarrow> local_key_cache_data s' = None \<and> listed (d_agent s') = {}"
    by (simp_all add: d)
qed

lemma forget_disk_effect:
  assumes "forget_disk W removes s = (rs, d)" and "\<forall>r \<in> set rs. r = Inr ()"
  shows "load_slots (h_os (w_host W)) d = Inr None" and "load_session (h_os (w_host W)) d = Inr None"
    and "removes \<Longrightarrow> load_cache (h_os (w_host W)) d = Inr None"
    and "\<not> removes \<Longrightarrow> cache_file d = cache_file (d_disk s)"
proof -
  let ?os = "h_os (w_host W)"
  obtain r1 d1 where 1: "(if removes then delete_cache ?os (d_disk s) else (Inr (), d_disk s)) = (r1, d1)" by fastforce
  obtain r3 d2 where 2: "delete_slots ?os d1 = (r3, d2)" by fastforce
  obtain r4 d3 where 3: "delete_session ?os d2 = (r4, d3)" by fastforce
  have d: "d3 = d" and r: "r1 = Inr ()" "r3 = Inr ()" "r4 = Inr ()"
    using assms 1 2 3 by (auto simp: forget_disk_def Let_def)
  have f: "cache_file d = cache_file d1" "slots_file d = slots_file d2"
    using delete_frames [of ?os d1] delete_frames [of ?os d2] 2 3 d by simp_all
  show "load_session ?os d = Inr None" using session_store.load_delete 3 r d by blast
  show "load_slots ?os d = Inr None" using slots_store.load_delete 2 r load_frames(2) [OF f(2)] by metis
  show "load_cache ?os d = Inr None" if removes
    using cache_store.load_delete 1 r that load_frames(1) [OF f(1)] by simp
  show "cache_file d = cache_file (d_disk s)" if "\<not> removes" using 1 that f(1) by auto
qed

definition demo_session :: daemon where
  "demo_session = demo_daemon\<lparr>api_client := Some demo_client\<rparr>"

lemma demo_sync_keys: "sync_ssh_keys demo_crypto demo_net demo_client = Inr []"
  by (simp add: sync_ssh_keys_def reply_or_def decrypt_ssh_ciphers_filter demo_client_def client_new_with_device_id_def
      demo_net_def trashed_def active_ssh_cipher_def map_filter_simps)

lemma demo_session_sync:
  obtains s' where "do_sync demo_world (demo_session\<lparr>vault_locked := b\<rparr>) = (Inr 0, s')"
proof -
  have "is_running (d_agent (demo_session\<lparr>vault_locked := b\<rparr>))"
    using demo_daemon_running by (simp add: demo_session_def)
  then have "\<exists>s'. do_sync demo_world (demo_session\<lparr>vault_locked := b\<rparr>) = (Inr 0, s')"
    using demo_sync_keys
    by (cases b) (simp_all add: do_sync_def demo_session_def demo_world_def demo_host_def Let_def set_keys_def
        has_user_key_def demo_client_def client_new_with_device_id_def)
  then show ?thesis using that by blast
qed

section \<open>Properties\<close>







text \<open>
  Setting a PIN needs no unlocked vault. \<open>sync\<close> on a locked vault puts the private keys back
  into memory and \<open>set-pin\<close> does not ask whether the vault is locked: from a locked vault with no
  key in memory, a sync, setting any new PIN and unlocking with it leads to an unlocked vault with
  the server's keys, whatever PIN protected the cache before.
\<close>

theorem new_pin_unlocks_locked_vault:
  assumes "host_ok (w_host W)" and "rnd_ok (w_rnd W)" and "is_running (d_agent s)"
    and "vault_locked s" and "cached_key_tuples s = []" and "local_cache_key_state s = None"
    and "\<not> pin_blocked (w_now W) (pin_failures s)"
    and "handle_control_command W au ASync s = (r1, s1)"
    and "handle_control_command W au (ASetPin pin) s1 = (r2, s2)" and "resp_ok r2"
    and "handle_control_command W au (AUnlockPin pin) s2 = (r3, s3)"
  shows "vault_locked s1 \<and> cached_key_tuples s1 \<noteq> [] \<and> resp_ok r3 \<and> \<not> vault_locked s3"
proof -
  obtain r' t where d: "do_sync W (reload_cache W s) = (r', t)" by fastforce
  have l: "vault_locked (reload_cache W s)" using assms(4) by simp
  have s: "s1 = snd (handle_sync W (reload_cache W s))" using assms(8) by (simp add: handle_control_command_def)
  have "pin_failures s1 = pin_failures t" "d_agent s1 = d_agent t" and v: "vault_locked s1"
    and "local_cache_key_state s1 = local_cache_key_state t"
    using d l handle_sync_locked [of W "reload_cache W s"] by (cases r'; simp add: s handle_sync_def Let_def)+
  moreover have "pin_failures t = pin_failures s" "local_cache_key_state t = None"
    using arg_cong [OF d, of "\<lambda>x. pin_failures (snd x)"] arg_cong [OF d, of "\<lambda>x. local_cache_key_state (snd x)"] assms(6)
    by simp_all
  moreover have "d_agent t = d_agent s"
    using d l by (auto simp: do_sync_def Let_def split: option.splits sum.splits if_splits)
  ultimately have s1: "pin_failures s1 = pin_failures s" "d_agent s1 = d_agent s" "local_cache_key_state s1 = None"
    by simp_all
  have h: "handle_set_pin W pin s1 = (r2, s2)" using assms(9) by (simp add: handle_control_command_def)
  obtain cache key where c: "local_key_cache_data s2 = Some cache" "opens_to (w_host W) cache pin key (cached_key_tuples s1)"
    "load_cache (h_os (w_host W)) (d_disk s2) = Inr (Some cache)" "d_agent s2 = d_agent s1"
    "vault_locked s2 = vault_locked s1" "pin_failures s2 = pin_failures s1"
    using handle_set_pin_ok [OF assms(1,2) _ h assms(10)] s1 by auto
  have "cached_key_tuples s1 \<noteq> []"
    using h assms(10) by (auto simp: handle_set_pin_def split: if_splits)
  moreover have "local_key_cache_data (reload_cache W s2) = Some cache" using reload_keeps_cache c by blast
  ultimately show ?thesis
    using handle_unlock_pin_ok [of "reload_cache W s2" cache W pin key "cached_key_tuples s1"] c assms(3,7,11) s1 v
    by (simp add: handle_control_command_def)
qed

definition sealed_text :: "string \<Rightarrow> string" where
  "sealed_text x = unwrap_or [] (res_ok (encrypt_enc_string demo_crypto (replicate 16 9) (as_bytes x)
     \<lparr>enc_key = replicate 32 1, mac_key = replicate 32 2\<rparr>))"

definition demo_world_with_key :: world where
  "demo_world_with_key = demo_world\<lparr>w_net := demo_net\<lparr>get_sync := (\<lambda>_ _. Reply
     [\<lparr>cipher_id = ''id-1'', cipher_type = SshKey, cipher_name = Some (sealed_text ''laptop''), deleted_date = None,
       archived_date = None, ssh_key = Some \<lparr>ssh_private_key = sealed_text ''pem'', ssh_public_key = sealed_text ''pub'',
       ssh_key_fingerprint = []\<rparr>, organization_id = None, cipher_key = None\<rparr>])\<rparr>\<rparr>"

lemma sealed_text_opens:
  assumes "utf8_valid (as_bytes x)"
  shows "decrypt_enc_string_to_string demo_crypto (sealed_text x) \<lparr>enc_key = replicate 32 1, mac_key = replicate 32 2\<rparr> = Inr x"
proof -
  let ?k = "\<lparr>enc_key = replicate 32 1, mac_key = replicate 32 2\<rparr> :: SymmetricKey"
  obtain e where e: "encrypt_enc_string demo_crypto (replicate 16 9) (as_bytes x) ?k = Inr e"
    using encrypt_ok [OF demo_suite_ok, of ?k "replicate 16 9"] by (auto simp: key_ok_def)
  have "key_ok ?k" "length (replicate 16 (9 :: u8)) = 16" by (simp_all add: key_ok_def)
  from sym.unseal_seal [OF demo_suite_ok this assms e] show ?thesis by (simp add: sealed_text_def e)
qed

lemma demo_key_syncs:
  "sync_ssh_keys demo_crypto (w_net demo_world_with_key) demo_client
     = Inr [\<lparr>private_key_pem = ''pem'', public_key_openssh = ''pub'', dk_name = ''laptop'', dk_cipher_id = ''id-1''\<rparr>]"
proof -
  have "utf8_valid (as_bytes ''pem'')" "utf8_valid (as_bytes ''pub'')" "utf8_valid (as_bytes ''laptop'')"
    by (simp_all add: as_bytes_def)
  then show ?thesis
    by (simp add: sync_ssh_keys_def reply_or_def demo_client_def client_new_with_device_id_def demo_world_with_key_def
        active_ssh_cipher_def decrypt_ssh_cipher_def sealed_text_opens)
qed

theorem new_pin_unlocks_locked_vault_witness:
  "\<exists>s1 s2 s3. let s = demo_session\<lparr>vault_locked := True, cached_key_tuples := []\<rparr> in
     snd (handle_control_command demo_world_with_key True ASync s) = s1 \<and> vault_locked s1
     \<and> snd (handle_control_command demo_world_with_key True (ASetPin ''9876'') s1) = s2
     \<and> snd (handle_control_command demo_world_with_key True (AUnlockPin ''9876'') s2) = s3 \<and> \<not> vault_locked s3"
proof -
  let ?W = demo_world_with_key and ?s = "demo_session\<lparr>vault_locked := True, cached_key_tuples := []\<rparr>"
  obtain r1 s1 where 1: "handle_control_command ?W True ASync ?s = (r1, s1)" by fastforce
  obtain r2 s2 where 2: "handle_control_command ?W True (ASetPin ''9876'') s1 = (r2, s2)" by fastforce
  obtain r3 s3 where 3: "handle_control_command ?W True (AUnlockPin ''9876'') s2 = (r3, s3)" by fastforce
  have W: "w_host ?W = demo_host" "host_ok (w_host ?W)" "rnd_ok (w_rnd ?W)"
    by (simp_all add: demo_world_with_key_def demo_world_def)
  have r: "reload_cache ?W ?s = ?s"
    by (simp add: reload_cache_def reload_shared_local_cache_from_disk_if_multi_device_def W(1)
        demo_session_def demo_daemon_def load_cache_def empty_disk_def demo_host_def demo_os_def multi_device_mode_def)
  have "has_user_key demo_client" "api_client ?s = Some demo_client" "vault_locked ?s"
    "tuple_of_key \<lparr>private_key_pem = ''pem'', public_key_openssh = ''pub'', dk_name = ''laptop'', dk_cipher_id = ''id-1''\<rparr> = demo_key"
    by (simp_all add: has_user_key_def demo_client_def client_new_with_device_id_def demo_session_def tuple_of_key_def demo_key_def)
  moreover have "h_crypto (w_host ?W) = demo_crypto" by (simp add: W(1) demo_host_def)
  ultimately obtain t where d: "do_sync ?W ?s = (Inr 1, t)" and t: "cached_key_tuples t = [demo_key]"
    using demo_key_syncs by (simp add: do_sync_def Let_def)
  have "local_cache_key_state t = None"
    using arg_cong [OF d, of "\<lambda>x. local_cache_key_state (snd x)"] by (simp add: demo_session_def demo_daemon_def)
  moreover have "s1 = t\<lparr>pending_sync := True\<rparr>"
    using 1 r d by (auto simp: handle_control_command_def handle_sync_def Let_def demo_session_def)
  ultimately have "resp_ok (fst (handle_set_pin ?W ''9876'' s1))"
    using t W by (intro handle_set_pin_total) simp_all
  then have "resp_ok r2" using 2 by (simp add: handle_control_command_def)
  moreover have "is_running (d_agent ?s)" "local_cache_key_state ?s = None"
    "\<not> pin_blocked (w_now ?W) (pin_failures ?s)"
    using demo_daemon_running
    by (simp_all add: demo_session_def demo_daemon_def pin_blocked_def pin_lockout_remaining_def pin_failures_default_def)
  ultimately show ?thesis
    using new_pin_unlocks_locked_vault [OF W(2,3) _ _ _ _ _ 1 2 _ 3] 1 2 3 by (auto simp: Let_def)
qed

end
