(* ===== verification/Daemon.thy ===== *)
theory Daemon
  imports Ui_Request Vault_Lifecycle
begin

text \<open>
  \<open>src/daemon.rs\<close>: starting up, the arms of the main \<open>select!\<close> loop and the watchdog around a
  control action. The loop handles one event at a time; the tasks of SSH requests run beside it
  and meet it only through the shared state, so a run of the daemon is an interleaving of loop
  arms and task parts, each taken as one step. An action the watchdog aborts is one that stalled
  before it changed anything.
\<close>

record config =
  cfg_prompt_behavior :: PromptBehavior
  cfg_auto_unlock :: bool
  cfg_lock_timeout :: nat

record mainloop =
  ml_daemon :: daemon
  ml_tasks :: "ui_task list"
  ml_events :: "RuntimeEvent list"
  ml_sent :: "(u32 \<times> bool) list"
  ml_last_activity :: instant
  ml_stopped :: bool

section \<open>The watchdog\<close>

definition CONTROL_ACTION_TIMEOUT :: duration where "CONTROL_ACTION_TIMEOUT = secs 120"

definition CONTROL_ACTION_USER_PROMPT_TIMEOUT :: duration where
  "CONTROL_ACTION_USER_PROMPT_TIMEOUT = secs (15 * 60)"

fun control_action_timeout :: "ControlAction \<Rightarrow> duration" where
  "control_action_timeout AUnlock = CONTROL_ACTION_USER_PROMPT_TIMEOUT"
| "control_action_timeout AUnlockHello = CONTROL_ACTION_USER_PROMPT_TIMEOUT"
| "control_action_timeout AUnlockNative = CONTROL_ACTION_USER_PROMPT_TIMEOUT"
| "control_action_timeout ABindHostsDialog = CONTROL_ACTION_USER_PROMPT_TIMEOUT"
| "control_action_timeout _ = CONTROL_ACTION_TIMEOUT"

fun control_action_label :: "ControlAction \<Rightarrow> string" where
  "control_action_label ALock = ''lock''"
| "control_action_label AUnlock = ''unlock''"
| "control_action_label (AUnlockPin _) = ''unlock-pin''"
| "control_action_label AUnlockHello = ''unlock-hello''"
| "control_action_label AUnlockNative = ''unlock-native''"
| "control_action_label (AUnlockPassword _) = ''unlock-password''"
| "control_action_label (AStatus _) = ''status''"
| "control_action_label ASync = ''sync''"
| "control_action_label (ASetPin _) = ''set-pin''"
| "control_action_label (AForget _) = ''forget''"
| "control_action_label AStop = ''stop''"
| "control_action_label ABindHostsDialog = ''bind-hosts-dialog''"

definition run_control_action :: "string \<Rightarrow> duration \<Rightarrow> ControlResponse option \<Rightarrow> ControlResponse" where
  "run_control_action label budget outcome =
     (case outcome of
        Some resp \<Rightarrow> resp
      | None \<Rightarrow> ctl_err (''Control action '' @ [CHR 0x27] @ label @ [CHR 0x27] @ '' timed out after ''
                  @ show_nat (as_secs budget)
                  @ ''s and was aborted; the agent is still running. Check the daemon log for what it was doing.''))"

section \<open>Starting up\<close>

definition fetch_vault_keys_with_client ::
  "world \<Rightarrow> string result \<Rightarrow> (DecryptedSshKey list \<times> BitwardenClient) result" where
  "fetch_vault_keys_with_client W password =
     bind_res password (\<lambda>pw.
       case login_password (h_crypto (w_host W)) (w_net W) (w_email W) pw (create_client W) of
         (Inl e, _) \<Rightarrow> Inl e
       | (Inr _, client) \<Rightarrow>
           bind_res (sync_ssh_keys (h_crypto (w_host W)) (w_net W) client) (\<lambda>keys. Inr (keys, client)))"

text \<open>
  What the user types at the terminal: an email address, the master password, and for the offer to
  set a PIN the answer line (absent when reading fails) and the PIN twice.
\<close>

record terminal =
  tty_email :: "string result"
  tty_password :: "string result"
  tty_offer :: "string option"
  tty_pin :: "string result"
  tty_pin_confirm :: "string result"

definition prompt_setup_pin :: "world \<Rightarrow> terminal \<Rightarrow> daemon \<Rightarrow> daemon" where
  "prompt_setup_pin W tty s =
     (case tty_offer tty of
        None \<Rightarrow> s
      | Some line \<Rightarrow>
          (let input = map to_ascii_lower (trim line)
           in if input \<noteq> [] \<and> input \<noteq> ''y'' \<and> input \<noteq> ''yes'' then s
              else case tty_pin tty of
                Inl _ \<Rightarrow> s
              | Inr pin \<Rightarrow>
                  if length pin < 4 then s
                  else case tty_pin_confirm tty of
                    Inl _ \<Rightarrow> s
                  | Inr pin' \<Rightarrow>
                      if pin \<noteq> pin' then s
                      else case write_envelope_local_key_cache (w_host W) (w_rnd W) (cached_key_tuples s)
                                  (w_email W) (base_url (w_server W)) pin (d_disk s) of
                        (Inl _, d) \<Rightarrow> s\<lparr>d_disk := d\<rparr>
                      | (Inr (cache, key), d) \<Rightarrow>
                          (let s1 = s\<lparr>d_disk := d, local_key_cache_data := Some cache, local_cache_key_state := Some key\<rparr>
                           in case api_client s1 of
                                Some client \<Rightarrow> save_device_session W client (Some pin) s1
                              | None \<Rightarrow> s1)))"

definition remembered_cache :: "world \<Rightarrow> disk \<Rightarrow> LocalKeyCacheFile option \<times> disk" where
  "remembered_cache W d =
     (case unwrap_or None (res_ok (load_cache (h_os (w_host W)) d)) of
        None \<Rightarrow> (None, d)
      | Some cache \<Rightarrow> (Some cache, snd (persist_device_unlock_slots_from_cache (w_host W) cache d)))"

text \<open>The first login: the email used from here on and, if it worked, the keys and the session.\<close>

definition first_login ::
  "world \<Rightarrow> terminal \<Rightarrow> (string \<times> (DecryptedSshKey list \<times> BitwardenClient) option) result" where
  "first_login W tty =
     (if w_email W = []
      then bind_res (tty_email tty) (\<lambda>email.
             if email = [] then Inr ([], None)
             else Inr (email, res_ok (fetch_vault_keys_with_client (W\<lparr>w_email := email\<rparr>) (tty_password tty))))
      else Inr (w_email W, res_ok (fetch_vault_keys_with_client W (tty_password tty))))"

definition empty_daemon :: "SshWardenAgent \<Rightarrow> LocalKeyCacheFile option \<Rightarrow> BitwardenClient option \<Rightarrow> disk \<Rightarrow> daemon" where
  "empty_daemon agent cache client d =
     \<lparr>d_agent = agent, vault_locked = (cache \<noteq> None), cached_key_tuples = [], public_key_identity_tuples = [],
      api_client = client, local_key_cache_data = cache, local_cache_key_state = None,
      key_material_fingerprints = [], key_names = [], pending_sync = False,
      notification_state = runtime_default, notification_client = None, authorization_memory = [],
      pin_failures = pin_failures_default, d_disk = d, ssh_config_calls = []\<rparr>"

definition load_first_keys :: "world \<Rightarrow> terminal \<Rightarrow> DecryptedSshKey list \<Rightarrow> daemon \<Rightarrow> daemon result" where
  "load_first_keys W tty keys s =
     (let key_tuples = map tuple_of_key keys;
          s0 = s\<lparr>key_names := names_of (map (\<lambda>k. (dk_cipher_id k, dk_name k)) keys)\<rparr>
      in if key_tuples = [] then Inr s0
         else case set_keys (h_ssh (w_host W)) key_tuples (d_agent s0) of
                (Inl e, _) \<Rightarrow> Inl e
              | (Inr _, a) \<Rightarrow>
                  Inr (prompt_setup_pin W tty
                    (s0\<lparr>ssh_config_calls := ssh_config_calls s0 @ [keys], public_key_identity_tuples := key_tuples,
                        cached_key_tuples := key_tuples,
                        key_material_fingerprints := key_material_fingerprints_from_tuples (w_host W) key_tuples,
                        d_agent := a\<rparr>)))"

definition load_first_identities :: "world \<Rightarrow> LocalKeyCacheFile \<Rightarrow> daemon \<Rightarrow> daemon" where
  "load_first_identities W cache s =
     (let identities = key_tuples_from_cache_header cache
      in if identities = [] then s
         else s\<lparr>public_key_identity_tuples := identities,
                key_names := names_of (map (\<lambda>(_, name, i). (i, name)) identities),
                d_agent := snd (set_public_identities (h_ssh (w_host W)) identities (d_agent s))\<rparr>)"

text \<open>\<open>agent\<close> is what \<open>start_server_with_endpoint\<close> returned: a new, running agent or an error.\<close>

definition startup :: "world \<Rightarrow> terminal \<Rightarrow> SshWardenAgent result \<Rightarrow> disk \<Rightarrow> mainloop result" where
  "startup W tty agent disk =
     (case remembered_cache W disk of
        (cache, d) \<Rightarrow>
          bind_res (if cache \<noteq> None then Inr (w_email W, None) else first_login W tty) (\<lambda>(email, fetched).
          bind_res (context_msg ''Failed to start SSH agent server'' agent) (\<lambda>a.
            let W' = W\<lparr>w_email := email\<rparr>; s0 = empty_daemon a cache (map_option snd fetched) d
            in bind_res (case fetched of
                           Some (keys, _) \<Rightarrow> load_first_keys W' tty keys s0
                         | None \<Rightarrow> (case cache of None \<Rightarrow> Inr s0 | Some c \<Rightarrow> Inr (load_first_identities W' c s0))) (\<lambda>s1.
                 let s2 = (case api_client s1 of
                             Some client \<Rightarrow>
                               if access_token client = None then s1
                               else save_device_session W' client None (connect_hub W' client s1)
                           | None \<Rightarrow> s1)
                 in Inr \<lparr>ml_daemon = s2, ml_tasks = [], ml_events = [], ml_sent = [],
                         ml_last_activity = w_now W', ml_stopped = False\<rparr>))))"

section \<open>The arms of the loop\<close>

definition apply_fx :: "ui_effect \<Rightarrow> mainloop \<Rightarrow> mainloop" where
  "apply_fx fx m =
     m\<lparr>ml_sent := ml_sent m @ (case fx_response fx of Some r \<Rightarrow> [r] | None \<Rightarrow> []),
       ml_events := ml_events m @ (case fx_event fx of Some e \<Rightarrow> [e] | None \<Rightarrow> []),
       ml_tasks := ml_tasks m @ (case fx_task fx of Some t \<Rightarrow> [t] | None \<Rightarrow> [])\<rparr>"

definition shut_down :: "mainloop \<Rightarrow> mainloop" where
  "shut_down m =
     (let s = ml_daemon m
      in m\<lparr>ml_stopped := True,
           ml_daemon := s\<lparr>notification_state := (notification_state s)\<lparr>rs_state := Stopped\<rparr>,
                          d_agent := agent_stop (d_agent s)\<rparr>\<rparr>)"

definition on_control :: "config \<Rightarrow> world \<Rightarrow> bool \<Rightarrow> ControlAction \<Rightarrow> mainloop \<Rightarrow> ControlResponse \<times> mainloop" where
  "on_control cfg W stalled action m =
     (let m1 = m\<lparr>ml_last_activity := w_now W\<rparr>
      in if action = AStop then (ctl_ok ''Stopping agent'', shut_down m1)
         else let label = control_action_label action; budget = control_action_timeout action
              in if stalled then (run_control_action label budget None, m1)
                 else case handle_control_command W (cfg_auto_unlock cfg) action (ml_daemon m1) of
                        (resp, s) \<Rightarrow> (run_control_action label budget (Some resp), m1\<lparr>ml_daemon := s\<rparr>))"

definition on_request :: "config \<Rightarrow> world \<Rightarrow> bool \<Rightarrow> bool \<Rightarrow> SshAgentUIRequest \<Rightarrow> mainloop \<Rightarrow> mainloop" where
  "on_request cfg W memory_free names_free req m =
     (case start_request W (cfg_prompt_behavior cfg) (cfg_auto_unlock cfg) memory_free names_free req (ml_daemon m) of
        (fx, s) \<Rightarrow> apply_fx fx (m\<lparr>ml_last_activity := w_now W, ml_daemon := s\<rparr>))"

definition on_answer :: "config \<Rightarrow> world \<Rightarrow> ui_task list \<Rightarrow> ui_task \<Rightarrow> ui_task list \<Rightarrow> ui_answer \<Rightarrow> mainloop \<Rightarrow> mainloop" where
  "on_answer cfg W before t after a m =
     (case resume W (cfg_prompt_behavior cfg) t a (ml_daemon m) of
        (fx, s) \<Rightarrow> apply_fx fx (m\<lparr>ml_tasks := before @ after, ml_daemon := s\<rparr>))"

fun on_runtime_event :: "world \<Rightarrow> RuntimeEvent \<Rightarrow> daemon \<Rightarrow> daemon" where
  "on_runtime_event W (AutoUnlockedPin pin) s = snd (resolve_pending_sync W (try_restore_api_session W pin s))"
| "on_runtime_event W AutoUnlockedNative s = snd (resolve_pending_sync W s)"

fun on_hub_event :: "world \<Rightarrow> SyncEvent \<Rightarrow> daemon \<Rightarrow> daemon" where
  "on_hub_event W (ConnectionStatus st) s =
     s\<lparr>notification_state := apply_status (w_now W) st (notification_state s)\<rparr>"
| "on_hub_event W CipherChanged s =
     (if vault_locked s
      then s\<lparr>pending_sync := True, notification_state := record_event (w_now W) (notification_state s)\<rparr>
      else case do_sync W s of
             (Inr _, s') \<Rightarrow> s'\<lparr>notification_state := record_event (w_later W) (notification_state s')\<rparr>
           | (Inl _, s') \<Rightarrow> s'\<lparr>pending_sync := True\<rparr>)"
| "on_hub_event W LogOut s =
     snd (lock_vault True True (s\<lparr>notification_state := record_event (w_now W) (notification_state s)\<rparr>))"
| "on_hub_event W FallbackSyncDue s =
     (if vault_locked s then s\<lparr>pending_sync := True\<rparr>
      else case do_sync W s of
             (Inr _, s') \<Rightarrow> s'\<lparr>notification_state := record_fallback_sync (w_later W) (notification_state s')\<rparr>
           | (Inl _, s') \<Rightarrow> s'\<lparr>pending_sync := True\<rparr>)"

definition on_token_tick :: "world \<Rightarrow> daemon \<Rightarrow> daemon" where
  "on_token_tick W s =
     (case api_client s of
        None \<Rightarrow> s
      | Some client \<Rightarrow>
          if \<not> is_token_expiring_soon (w_now W) client then s
          else case refresh_access_token (w_net W) client of
                 (Inr _, client') \<Rightarrow> connect_hub W client' (save_device_session W client' None (s\<lparr>api_client := Some client'\<rparr>))
               | (Inl _, client') \<Rightarrow> s\<lparr>api_client := Some client'\<rparr>)"

definition on_lock_tick :: "config \<Rightarrow> instant \<Rightarrow> mainloop \<Rightarrow> mainloop" where
  "on_lock_tick cfg now m =
     (if 0 < cfg_lock_timeout cfg \<and> \<not> vault_locked (ml_daemon m) \<and> length (ml_tasks m) = 0
         \<and> cfg_lock_timeout cfg \<le> as_secs (now - ml_last_activity m)
      then m\<lparr>ml_daemon := snd (lock_vault True True (ml_daemon m))\<rparr> else m)"

section \<open>Runs\<close>

inductive daemon_step :: "config \<Rightarrow> mainloop \<Rightarrow> mainloop \<Rightarrow> bool" for cfg where
  control: "\<not> ml_stopped m \<Longrightarrow> daemon_step cfg m (snd (on_control cfg W stalled action m))"
| request: "\<not> ml_stopped m \<Longrightarrow> daemon_step cfg m (on_request cfg W mf nf req m)"
| answer: "ml_tasks m = before @ t # after \<Longrightarrow> answers a t \<Longrightarrow> daemon_step cfg m (on_answer cfg W before t after a m)"
| runtime_event: "\<not> ml_stopped m \<Longrightarrow> ml_events m = e # es \<Longrightarrow>
    daemon_step cfg m (m\<lparr>ml_events := es, ml_daemon := on_runtime_event W e (ml_daemon m)\<rparr>)"
| hub_event: "\<not> ml_stopped m \<Longrightarrow> daemon_step cfg m (m\<lparr>ml_daemon := on_hub_event W e (ml_daemon m)\<rparr>)"
| token_tick: "\<not> ml_stopped m \<Longrightarrow> daemon_step cfg m (m\<lparr>ml_daemon := on_token_tick W (ml_daemon m)\<rparr>)"
| lock_tick: "\<not> ml_stopped m \<Longrightarrow> daemon_step cfg m (on_lock_tick cfg now m)"
| serving_ends: "daemon_step cfg m (m\<lparr>ml_daemon := (ml_daemon m)\<lparr>d_agent := set_running False (d_agent (ml_daemon m))\<rparr>\<rparr>)"
| shutdown: "\<not> ml_stopped m \<Longrightarrow> daemon_step cfg m (shut_down m)"

inductive reachable :: "config \<Rightarrow> mainloop \<Rightarrow> bool" for cfg where
  start: "startup W tty (Inr (set_running True agent_new)) disk = Inr m \<Longrightarrow> reachable cfg m"
| step: "reachable cfg m \<Longrightarrow> daemon_step cfg m m' \<Longrightarrow> reachable cfg m'"

inductive_cases daemon_stepE: "daemon_step cfg m m'"

section \<open>The invariant of every run\<close>

definition loop_ok :: "config \<Rightarrow> mainloop \<Rightarrow> bool" where
  "loop_ok cfg m \<longleftrightarrow> locked_silent (ml_daemon m) \<and> (\<forall>t \<in> set (ml_tasks m). task_ok (cfg_prompt_behavior cfg) t)"

lemma lock_vault_quiet: "quiet s (snd (lock_vault k mem s))"
proof -
  have "is_running (d_agent s) \<Longrightarrow> signable (snd (agent_lock (d_agent s))) = {}" by (rule signable_lock)
  then show ?thesis by (auto simp: lock_vault_def agent_lock_def quiet_def split: if_splits)
qed

lemma signable_stop: "signable (agent_stop a) = {} \<or> agent_stop a = a"
  by (auto simp: agent_stop_def signable_def)

lemma signable_set_running [simp]: "signable (set_running b a) = signable a"
  by (simp add: set_running_def signable_def)

lemma shut_down_silent: "locked_silent (ml_daemon m) \<Longrightarrow> locked_silent (ml_daemon (shut_down m))"
  using signable_stop [of "d_agent (ml_daemon m)"] by (auto simp: shut_down_def locked_silent_def Let_def)

lemma on_runtime_event_quiet: "quiet s (on_runtime_event W e s)"
proof (cases e)
  case (AutoUnlockedPin pin)
  have "quiet s (try_restore_api_session W pin s)" by (intro quiet_same) simp_all
  from quiet_trans [OF this resolve_quiet] show ?thesis by (simp add: AutoUnlockedPin)
qed (simp add: resolve_quiet)

lemma do_sync_locked: "do_sync W s = (r, s') \<Longrightarrow> vault_locked s' = vault_locked s"
  using do_sync_frame(1) [of W s] by simp

lemma on_hub_event_quiet: "quiet s (on_hub_event W e s)"
proof (cases e)
  case LogOut
  have "quiet s t" if "quiet (s\<lparr>notification_state := x\<rparr>) t" for x t using that by (simp add: quiet_def)
  from this [OF lock_vault_quiet] show ?thesis by (simp add: LogOut)
qed (auto simp: quiet_def dest: do_sync_locked split: prod.splits sum.splits)

lemma on_token_tick_quiet: "quiet s (on_token_tick W s)"
  by (auto simp: on_token_tick_def intro!: quiet_same split: option.splits prod.splits sum.splits)

lemma apply_fx_ok:
  assumes "locked_silent (ml_daemon m)" and "\<forall>t \<in> set (ml_tasks m). task_ok (cfg_prompt_behavior cfg) t"
    and "fx_ok (cfg_prompt_behavior cfg) req fx"
  shows "loop_ok cfg (apply_fx fx m)"
  using assms by (auto simp: loop_ok_def apply_fx_def fx_ok_def)

lemma on_request_ok:
  assumes "loop_ok cfg m"
  shows "loop_ok cfg (on_request cfg W mf nf req m)"
proof -
  let ?r = "start_request W (cfg_prompt_behavior cfg) (cfg_auto_unlock cfg) mf nf req (ml_daemon m)"
  have "locked_silent (snd ?r)" using assms start_request_silent by (simp add: loop_ok_def)
  then have "loop_ok cfg (apply_fx (fst ?r) (m\<lparr>ml_last_activity := w_now W, ml_daemon := snd ?r\<rparr>))"
    using assms start_request_fx_ok by (intro apply_fx_ok) (simp_all add: loop_ok_def)
  then show ?thesis by (simp add: on_request_def split_beta)
qed

lemma on_answer_ok:
  assumes "loop_ok cfg m" and "ml_tasks m = before @ t # after"
  shows "loop_ok cfg (on_answer cfg W before t after a m)"
proof -
  obtain fx s where r: "resume W (cfg_prompt_behavior cfg) t a (ml_daemon m) = (fx, s)" by fastforce
  have t: "task_ok (cfg_prompt_behavior cfg) t" using assms by (simp add: loop_ok_def)
  have "locked_silent s"
    using locked_silent_step [OF _ resume_quiet [of "ml_daemon m" W "cfg_prompt_behavior cfg" t a]] assms(1) r
    by (simp add: loop_ok_def)
  moreover have "fx_ok (cfg_prompt_behavior cfg) (task_request t) fx" using resume_fx_ok [OF t] r by (metis fst_conv)
  ultimately have "loop_ok cfg (apply_fx fx (m\<lparr>ml_tasks := before @ after, ml_daemon := s\<rparr>))"
    using assms by (intro apply_fx_ok) (auto simp: loop_ok_def)
  then show ?thesis using r by (simp add: on_answer_def)
qed

lemma on_control_ok: "loop_ok cfg m \<Longrightarrow> loop_ok cfg (snd (on_control cfg W stalled a m))"
  using locked_silent_step [OF _ handle_control_quiet [of "ml_daemon m" W "cfg_auto_unlock cfg" a]]
    shut_down_silent [of "m\<lparr>ml_last_activity := w_now W\<rparr>"]
  by (auto simp: on_control_def loop_ok_def Let_def shut_down_def split: prod.splits)

lemma step_ok: "daemon_step cfg m m' \<Longrightarrow> loop_ok cfg m \<Longrightarrow> loop_ok cfg m'"
proof (induction rule: daemon_step.induct)
  case (runtime_event m e es W)
  then show ?case
    using locked_silent_step [OF _ on_runtime_event_quiet [of "ml_daemon m" W e]] by (simp add: loop_ok_def)
next
  case (hub_event m W e)
  then show ?case
    using locked_silent_step [OF _ on_hub_event_quiet [of "ml_daemon m" W e]] by (simp add: loop_ok_def)
next
  case (token_tick m W)
  then show ?case
    using locked_silent_step [OF _ on_token_tick_quiet [of "ml_daemon m" W]] by (simp add: loop_ok_def)
next
  case (lock_tick m now)
  then show ?case
    using locked_silent_step [OF _ lock_vault_quiet [of "ml_daemon m" True True]] by (simp add: on_lock_tick_def loop_ok_def)
next
  case (serving_ends m)
  then show ?case by (simp add: loop_ok_def locked_silent_def)
next
  case (shutdown m)
  then show ?case using shut_down_silent [of m] by (simp add: loop_ok_def shut_down_def Let_def)
qed (simp_all add: on_control_ok on_request_ok on_answer_ok)

section \<open>The start\<close>

lemma signable_new [simp]: "signable agent_new = {}"
  by (simp add: signable_def agent_new_def)

lemma load_first_identities_silent:
  assumes "signable (d_agent s) = {}"
  shows "signable (d_agent (load_first_identities W c s)) = {}"
  using assms signable_set_public_identities [of "d_agent s"]
  by (auto simp: load_first_identities_def Let_def set_public_identities_def)

lemma prompt_setup_pin_frame [simp]:
  "vault_locked (prompt_setup_pin W tty s) = vault_locked s"
  "d_agent (prompt_setup_pin W tty s) = d_agent s"
  unfolding prompt_setup_pin_def Let_def
  by (auto split: option.splits sum.splits prod.splits)

lemma load_first_keys_locked:
  "load_first_keys W tty keys s = Inr s' \<Longrightarrow> vault_locked s' = vault_locked s"
  by (auto simp: load_first_keys_def Let_def split: if_splits prod.splits sum.splits)

lemma startup_ok:
  assumes "startup W tty (Inr (set_running True agent_new)) disk = Inr m"
  shows "loop_ok cfg m"
proof -
  obtain cache d where c: "remembered_cache W disk = (cache, d)" by fastforce
  obtain email fetched where f: "(if cache \<noteq> None then Inr (w_email W, None) else first_login W tty) = Inr (email, fetched)"
    using assms c by (auto simp: startup_def bind_res_Inr_iff)
  let ?W = "W\<lparr>w_email := email\<rparr>"
    and ?s = "empty_daemon (set_running True agent_new) cache (map_option snd fetched) d"
  obtain s1 where s1: "(case fetched of Some (keys, _) \<Rightarrow> load_first_keys ?W tty keys ?s
      | None \<Rightarrow> (case cache of None \<Rightarrow> Inr ?s | Some c \<Rightarrow> Inr (load_first_identities ?W c ?s))) = Inr s1"
    and m: "ml_tasks m = []" "vault_locked (ml_daemon m) = vault_locked s1" "d_agent (ml_daemon m) = d_agent s1"
    using assms c f by (auto simp: startup_def bind_res_Inr_iff Let_def split: option.splits if_splits)
  have "locked_silent s1"
  proof (cases fetched)
    case None
    then show ?thesis
      using s1 load_first_identities_silent [of ?s ?W]
      by (auto simp: locked_silent_def empty_daemon_def split: option.splits)
  next
    case (Some kc)
    then have "cache = None" using f by (auto split: if_splits)
    then have "\<not> vault_locked s1"
      using s1 Some load_first_keys_locked by (fastforce simp: empty_daemon_def split: prod.splits)
    then show ?thesis by (simp add: locked_silent_def)
  qed
  then show ?thesis using m by (simp add: loop_ok_def locked_silent_def)
qed

lemma reachable_ok: "reachable cfg m \<Longrightarrow> loop_ok cfg m"
  by (induction rule: reachable.induct) (auto intro: startup_ok step_ok)

lemma on_hub_event_pending:
  assumes "e = CipherChanged \<or> e = FallbackSyncDue"
  shows "pending_sync (on_hub_event W e s) \<or> \<not> vault_locked s \<and> is_ok (fst (do_sync W s))
     \<and> cached_key_tuples (on_hub_event W e s) = cached_key_tuples (snd (do_sync W s))
     \<and> d_agent (on_hub_event W e s) = d_agent (snd (do_sync W s))"
  using assms by (cases "vault_locked s") (auto split: prod.splits sum.splits)

section \<open>Properties\<close>


text \<open>
  An idle vault locks. When the inactivity timeout is set and has passed and no request is in
  flight, a timer tick locks an unlocked vault with a serving agent: nothing can be signed, and the
  private keys, the cache key and the remembered authorizations are gone. Otherwise the tick
  changes nothing; a control command or an SSH request starts the period anew.
\<close>

theorem idle_vault_locks:
  "(0 < cfg_lock_timeout cfg \<and> cfg_lock_timeout cfg \<le> as_secs (now - ml_last_activity m) \<and> ml_tasks m = []
      \<and> \<not> vault_locked (ml_daemon m) \<and> is_running (d_agent (ml_daemon m)) \<longrightarrow>
      (let s = ml_daemon (on_lock_tick cfg now m)
       in vault_locked s \<and> signable (d_agent s) = {} \<and> listed (d_agent s) = listed (d_agent (ml_daemon m))
          \<and> cached_key_tuples s = [] \<and> local_cache_key_state s = None \<and> authorization_memory s = []))
   \<and> (cfg_lock_timeout cfg = 0 \<or> as_secs (now - ml_last_activity m) < cfg_lock_timeout cfg \<or> ml_tasks m \<noteq> [] \<longrightarrow>
        on_lock_tick cfg now m = m)
   \<and> ml_last_activity (snd (on_control cfg W stalled action m)) = w_now W
   \<and> ml_last_activity (on_request cfg W mf nf req m) = w_now W"
proof (intro conjI impI, goal_cases)
  case 1
  then show ?case
    using signable_lock [of "d_agent (ml_daemon m)"] listed_lock [of "d_agent (ml_daemon m)"]
    by (simp add: on_lock_tick_def lock_vault_def agent_lock_def Let_def)
next
  case 2
  then show ?case by (auto simp: on_lock_tick_def)
next
  case 3
  show ?case by (simp add: on_control_def shut_down_def Let_def split: prod.splits)
next
  case 4
  show ?case by (simp add: on_request_def apply_fx_def split: prod.splits)
qed

text \<open>
  C21: no change notification is lost. After a hub event that announces changed vault items, or asks
  for a fallback sync, either a sync is marked as pending or the vault was unlocked and a sync was
  done successfully, its keys being the loaded ones; a remote logout locks a serving agent's vault
  in the same step.
\<close>

theorem hub_events_not_lost:
  "(e = CipherChanged \<or> e = FallbackSyncDue \<longrightarrow>
      pending_sync (on_hub_event W e s) \<or> synced W (on_hub_event W e s))
   \<and> (is_running (d_agent s) \<longrightarrow> vault_locked (on_hub_event W LogOut s) \<and> signable (d_agent (on_hub_event W LogOut s)) = {}
        \<and> cached_key_tuples (on_hub_event W LogOut s) = [] \<and> authorization_memory (on_hub_event W LogOut s) = [])"
proof (intro conjI impI)
  assume e: "e = CipherChanged \<or> e = FallbackSyncDue"
  have "vault_locked (on_hub_event W e s) = vault_locked s"
    using e by (cases "vault_locked s") (auto dest: do_sync_locked split: prod.splits sum.splits)
  with on_hub_event_pending [OF e, of W s] show "pending_sync (on_hub_event W e s) \<or> synced W (on_hub_event W e s)"
    by (auto simp: synced_def)
next
  assume r: "is_running (d_agent s)"
  then show "vault_locked (on_hub_event W LogOut s)" "signable (d_agent (on_hub_event W LogOut s)) = {}"
    "cached_key_tuples (on_hub_event W LogOut s) = []" "authorization_memory (on_hub_event W LogOut s) = []"
    using signable_lock [OF r] by (simp_all add: lock_vault_def agent_lock_def)
qed

section \<open>A concrete run\<close>

definition demo_tty :: terminal where
  "demo_tty = \<lparr>tty_email = Inl ''closed'', tty_password = Inl ''closed'', tty_offer = None,
     tty_pin = Inl ''closed'', tty_pin_confirm = Inl ''closed''\<rparr>"

definition demo_config :: config where
  "demo_config = \<lparr>cfg_prompt_behavior = RememberUntilLock, cfg_auto_unlock = True, cfg_lock_timeout = 3600\<rparr>"

definition demo_start :: mainloop where
  "demo_start = \<lparr>ml_daemon = empty_daemon (set_running True agent_new) None None empty_disk, ml_tasks = [],
     ml_events = [], ml_sent = [], ml_last_activity = 10, ml_stopped = False\<rparr>"

lemma demo_startup: "startup demo_world demo_tty (Inr (set_running True agent_new)) empty_disk = Inr demo_start"
  by (simp add: startup_def remembered_cache_def load_cache_def empty_disk_def demo_world_def demo_host_def demo_os_def
      demo_tty_def first_login_def fetch_vault_keys_with_client_def demo_start_def empty_daemon_def Let_def)


theorem idle_vault_locks_witness:
  "vault_locked (ml_daemon (on_lock_tick demo_config (10 + secs 4000) demo_start))
   \<and> on_lock_tick demo_config (10 + secs 100) demo_start = demo_start"
proof -
  have s: "ml_last_activity demo_start = 10" "ml_tasks demo_start = []" "\<not> vault_locked (ml_daemon demo_start)"
    "is_running (d_agent (ml_daemon demo_start))" "cfg_lock_timeout demo_config = 3600"
    by (simp_all add: demo_start_def empty_daemon_def set_running_def demo_config_def)
  show ?thesis
    using idle_vault_locks [of demo_config "10 + secs 4000" demo_start] idle_vault_locks [of demo_config "10 + secs 100" demo_start] s
    by (simp add: as_secs_def secs_def Let_def)
qed

theorem hub_events_not_lost_witness:
  "pending_sync (on_hub_event demo_world CipherChanged demo_daemon)
   \<and> vault_locked (on_hub_event demo_world LogOut demo_daemon) \<and> signable (d_agent (on_hub_event demo_world LogOut demo_daemon)) = {}"
proof -
  have "\<not> synced demo_world (on_hub_event demo_world CipherChanged demo_daemon) \<or> pending_sync (on_hub_event demo_world CipherChanged demo_daemon)"
    by (simp add: demo_daemon_def do_sync_def)
  then show ?thesis
    using hub_events_not_lost [of CipherChanged demo_world demo_daemon] demo_daemon_running by blast
qed

end
