(* ===== verification/Paths.thy ===== *)
theory Paths
  imports Rust_Text
begin

text \<open>
  Rust's \<open>std::path\<close> on Unix, as far as the program uses it, and \<open>src/path_util.rs\<close>. A path is its
  byte string; Rust compares, strips and hashes paths by their components, so \<open>parent\<close>,
  \<open>strip_prefix\<close> and \<open>with_extension\<close> are given up to that equality: they return the path with
  single separators.
\<close>

section \<open>Components\<close>

datatype component = RootDir | CurDir | ParentDir | Normal string

abbreviation sep :: char where
  "sep \<equiv> CHR ''/''"

definition is_absolute :: "string \<Rightarrow> bool" where
  "is_absolute p = (case p of c # _ \<Rightarrow> c = sep | [] \<Rightarrow> False)"

definition segments :: "string \<Rightarrow> string list" where
  "segments p = filter (\<lambda>s. s \<noteq> []) (split_on sep p)"

definition component_of :: "string \<Rightarrow> component" where
  "component_of s = (if s = ''..'' then ParentDir else Normal s)"

definition body_components :: "string \<Rightarrow> component list" where
  "body_components p = map component_of (filter (\<lambda>s. s \<noteq> ''.'') (segments p))"

definition head_components :: "string \<Rightarrow> component list" where
  "head_components p =
     (if is_absolute p then [RootDir]
      else case segments p of s # _ \<Rightarrow> if s = ''.'' then [CurDir] else [] | [] \<Rightarrow> [])"

definition components :: "string \<Rightarrow> component list" where
  "components p = head_components p @ body_components p"

fun component_text :: "component \<Rightarrow> string" where
  "component_text RootDir = ''/''"
| "component_text CurDir = ''.''"
| "component_text ParentDir = ''..''"
| "component_text (Normal s) = s"

definition path_of :: "component list \<Rightarrow> string" where
  "path_of cs =
     (case cs of
        RootDir # r \<Rightarrow> ''/'' @ join ''/'' (map component_text r)
      | _ \<Rightarrow> join ''/'' (map component_text cs))"

definition path_eq :: "string \<Rightarrow> string \<Rightarrow> bool" where
  "path_eq p q \<longleftrightarrow> components p = components q"

section \<open>Operations\<close>

definition path_join :: "string \<Rightarrow> string \<Rightarrow> string" where
  "path_join p q =
     (if is_absolute q then q
      else if p = [] \<or> last p = sep then p @ q
      else p @ ''/'' @ q)"

definition parent :: "string \<Rightarrow> string option" where
  "parent p =
     (if components p = [] \<or> last (components p) = RootDir then None
      else Some (path_of (butlast (components p))))"

definition file_name :: "string \<Rightarrow> string option" where
  "file_name p =
     (if components p = [] then None
      else case last (components p) of Normal s \<Rightarrow> Some s | _ \<Rightarrow> None)"

definition split_at_dot :: "string \<Rightarrow> string \<times> string option" where
  "split_at_dot name =
     (case rsplit_once ''.'' name of
        Some (before, after) \<Rightarrow> if before = [] then (name, None) else (before, Some after)
      | None \<Rightarrow> (name, None))"

definition extension :: "string \<Rightarrow> string option" where
  "extension p = Option.bind (file_name p) (\<lambda>n. snd (split_at_dot n))"

definition with_extension :: "string \<Rightarrow> string \<Rightarrow> string" where
  "with_extension p ext =
     (case file_name p of
        None \<Rightarrow> p
      | Some n \<Rightarrow>
          path_join (path_of (butlast (components p)))
            (fst (split_at_dot n) @ (if ext = [] then [] else ''.'' @ ext)))"

definition strip_prefix_path :: "string \<Rightarrow> string \<Rightarrow> string option" where
  "strip_prefix_path base p =
     (let n = length (components base)
      in if take n (components p) = components base then Some (path_of (drop n (components p))) else None)"

section \<open>Laws\<close>

definition name_ok :: "string \<Rightarrow> bool" where
  "name_ok s \<longleftrightarrow> s \<noteq> [] \<and> sep \<notin> set s \<and> s \<noteq> ''.'' \<and> s \<noteq> ''..''"

fun body_ok :: "component \<Rightarrow> bool" where
  "body_ok (Normal s) = name_ok s"
| "body_ok ParentDir = True"
| "body_ok _ = False"

lemma split_on_seg: "s \<in> set (split_on c p) \<Longrightarrow> c \<notin> set s"
proof (induction p arbitrary: s)
  case (Cons x p)
  then show ?case by (cases "split_on c p") (auto split: if_splits)
qed simp

lemma segments_append: "segments (a @ sep # b) = segments a @ segments b"
  by (simp add: segments_def split_on_append)

lemma segments_Nil [simp]: "segments [] = []"
  by (simp add: segments_def)

lemma segments_sep_Cons [simp]: "segments (sep # b) = segments b"
  by (simp add: segments_def)

lemma segments_name: "sep \<notin> set s \<Longrightarrow> segments s = (if s = [] then [] else [s])"
  by (simp add: segments_def split_on_no_sep)

lemma segments_set: "s \<in> set (segments p) \<Longrightarrow> s \<noteq> [] \<and> sep \<notin> set s"
  by (auto simp: segments_def dest: split_on_seg)

lemma segments_join:
  "\<forall>s \<in> set ss. s \<noteq> [] \<and> sep \<notin> set s \<Longrightarrow> segments (join ''/'' ss) = ss"
  by (induction "''/'' :: string" ss rule: join.induct) (auto simp: segments_name segments_append)

lemma body_components_ok: "c \<in> set (body_components p) \<Longrightarrow> body_ok c"
  by (auto simp: body_components_def component_of_def name_ok_def dest: segments_set)

lemma body_components_append: "body_components (a @ sep # b) = body_components a @ body_components b"
  by (simp add: body_components_def segments_append)

lemma body_components_Nil [simp]: "body_components [] = []"
  by (simp add: body_components_def)

lemma component_of_text: "body_ok c \<Longrightarrow> component_of (component_text c) = c"
  by (cases c) (auto simp: component_of_def name_ok_def)

lemma component_text_seg: "body_ok c \<Longrightarrow> component_text c \<noteq> [] \<and> sep \<notin> set (component_text c) \<and> component_text c \<noteq> ''.''"
  by (cases c) (auto simp: name_ok_def)

lemma body_components_join:
  assumes "\<forall>c \<in> set cs. body_ok c"
  shows "body_components (join ''/'' (map component_text cs)) = cs"
proof -
  have "segments (join ''/'' (map component_text cs)) = map component_text cs"
    using assms component_text_seg by (intro segments_join) auto
  moreover have "filter (\<lambda>s. s \<noteq> ''.'') (map component_text cs) = map component_text cs"
    using assms component_text_seg by (intro filter_True) auto
  ultimately show ?thesis
    using assms component_of_text by (simp add: body_components_def map_idI)
qed

lemma is_absolute_simps [simp]:
  "\<not> is_absolute []"
  "is_absolute (c # p) \<longleftrightarrow> c = sep"
  by (simp_all add: is_absolute_def)

lemma not_absolute_join:
  "\<forall>s \<in> set ss. s \<noteq> [] \<and> sep \<notin> set s \<Longrightarrow> \<not> is_absolute (join ''/'' ss)"
proof (induction "''/'' :: string" ss rule: join.induct)
  case (2 s)
  then show ?case by (cases s) auto
next
  case (3 s t us)
  then show ?case by (cases s) auto
qed simp

lemma components_path_of_body:
  assumes "\<forall>c \<in> set cs. body_ok c"
  shows "components (path_of cs) = cs" and "\<not> is_absolute (path_of cs)"
proof -
  have segs: "\<forall>s \<in> set (map component_text cs). s \<noteq> [] \<and> sep \<notin> set s"
    using assms component_text_seg by auto
  have p: "path_of cs = join ''/'' (map component_text cs)"
    using assms by (cases cs rule: list.exhaust; cases "hd cs") (auto simp: path_of_def)
  show "\<not> is_absolute (path_of cs)" using not_absolute_join [OF segs] p by simp
  moreover have "segments (path_of cs) = map component_text cs" using segments_join [OF segs] p by simp
  then have "head_components (path_of cs) = []"
    using calculation assms component_text_seg by (cases cs) (auto simp: head_components_def)
  ultimately show "components (path_of cs) = cs"
    by (simp add: components_def p body_components_join [OF assms])
qed

lemma segments_nonempty: "p \<noteq> [] \<Longrightarrow> \<not> is_absolute p \<Longrightarrow> segments p \<noteq> []"
  by (cases p) (auto simp: segments_def split: list.splits)

lemma path_join_form:
  assumes "\<not> is_absolute q" and "p \<noteq> []"
  shows "\<exists>a. path_join p q = a @ sep # q \<and> segments a = segments p \<and> is_absolute (a @ sep # q) = is_absolute p"
proof (cases "last p = sep")
  case True
  then have p: "p = butlast p @ [sep]" using assms(2) by (metis append_butlast_last_id)
  have "segments p = segments (butlast p)" by (subst p) (simp add: segments_append)
  moreover have "is_absolute (butlast p @ sep # q) = is_absolute p"
    by (subst (2) p) (cases "butlast p"; simp)
  moreover have "path_join p q = butlast p @ sep # q"
    using True assms p by (metis append.assoc append_Cons append_Nil path_join_def)
  ultimately show ?thesis by metis
next
  case False
  then have "path_join p q = p @ sep # q" using assms by (simp add: path_join_def)
  moreover have "is_absolute (p @ sep # q) = is_absolute p" using assms(2) by (cases p) auto
  ultimately show ?thesis by metis
qed

lemma components_join:
  assumes "\<not> is_absolute q" and "p \<noteq> []"
  shows "components (path_join p q) = components p @ body_components q"
    and "is_absolute (path_join p q) = is_absolute p"
proof -
  obtain a where a: "path_join p q = a @ sep # q" "segments a = segments p"
    "is_absolute (a @ sep # q) = is_absolute p"
    using path_join_form [OF assms] by blast
  then show "is_absolute (path_join p q) = is_absolute p" by simp
  have "head_components (a @ sep # q) = head_components p"
  proof (cases "is_absolute p")
    case False
    then have "segments p \<noteq> []" using assms(2) by (rule segments_nonempty [rotated])
    with a False show ?thesis by (cases "segments p") (simp_all add: head_components_def segments_append)
  qed (use a in \<open>simp add: head_components_def\<close>)
  moreover have "body_components (a @ sep # q) = body_components p @ body_components q"
    using a(2) by (simp add: body_components_append) (simp add: body_components_def)
  ultimately show "components (path_join p q) = components p @ body_components q"
    using a(1) by (simp add: components_def)
qed

lemma body_components_name: "name_ok s \<Longrightarrow> body_components s = [Normal s]"
  by (simp add: body_components_def segments_name name_ok_def component_of_def)

lemma name_not_absolute: "name_ok s \<Longrightarrow> \<not> is_absolute s"
  by (cases s) (auto simp: name_ok_def)

lemma components_join_name:
  "name_ok s \<Longrightarrow> p \<noteq> [] \<Longrightarrow> components (path_join p s) = components p @ [Normal s]"
  by (simp add: components_join name_not_absolute body_components_name)

end
