(* ===== verification/Naming.thy ===== *)
theory Naming
  imports Rust_Text
begin

text \<open>
  \<open>src/naming.rs\<close>: file names of the public-key selector files, derived from a key's display name
  and its vault item id.
\<close>

section \<open>Slugs\<close>

text \<open>
  \<open>char::to_lowercase\<close> on one scalar value. A slug keeps ASCII only, so all that matters of a
  non-ASCII value is whether its lower case has ASCII in it: that holds of the Kelvin sign and of
  the capital I with dot above, and of no other.
\<close>

definition lower_scalar :: "string \<Rightarrow> string list" where
  "lower_scalar g =
     (case g of
        [c] \<Rightarrow> [[to_ascii_lower c]]
      | _ \<Rightarrow> if g = [CHR 0xE2, CHR 0x84, CHR 0xAA] then [''k'']
             else if g = [CHR 0xC4, CHR 0xB0] then [''i'', [CHR 0xCC, CHR 0x87]]
             else [g])"

definition slug_char :: "string \<Rightarrow> char option" where
  "slug_char g =
     (case g of
        [c] \<Rightarrow> if is_ascii_alphanumeric c \<or> c = CHR ''_'' \<or> c = CHR ''-'' then Some c else None
      | _ \<Rightarrow> None)"

fun slug_loop :: "string list \<Rightarrow> bool \<Rightarrow> string \<Rightarrow> string" where
  "slug_loop [] last_dash slug = slug"
| "slug_loop (g # gs) last_dash slug =
     (case slug_char g of
        Some c \<Rightarrow> slug_loop gs False (slug @ [c])
      | None \<Rightarrow> if \<not> last_dash then slug_loop gs True (slug @ ''-'') else slug_loop gs last_dash slug)"

definition trim_dashes :: "string \<Rightarrow> string" where
  "trim_dashes s = rev (dropWhile (\<lambda>c. c = CHR ''-'') (rev (dropWhile (\<lambda>c. c = CHR ''-'') s)))"

definition slugify_key_name :: "string \<Rightarrow> string" where
  "slugify_key_name name =
     (let slug = trim_dashes (slug_loop (concat (map lower_scalar (rust_chars name))) False [])
      in if slug = [] then ''ssh-key'' else slug)"

section \<open>File names\<close>

definition vault_item_id_prefix :: "string \<Rightarrow> string" where
  "vault_item_id_prefix cipher_id = take 8 (filter is_ascii_alphanumeric cipher_id)"

definition selector_file_name :: "string \<Rightarrow> string \<Rightarrow> string" where
  "selector_file_name key_name cipher_id =
     (let prefix = vault_item_id_prefix cipher_id
      in if prefix = [] then slugify_key_name key_name @ ''.pub''
         else slugify_key_name key_name @ ''--'' @ prefix @ ''.pub'')"

section \<open>What a slug looks like\<close>

definition slug_ok :: "char \<Rightarrow> bool" where
  "slug_ok c \<longleftrightarrow> is_ascii_alphanumeric c \<and> to_ascii_lower c = c \<or> c = CHR ''_'' \<or> c = CHR ''-''"

lemma to_ascii_lower_idem [simp]: "to_ascii_lower (to_ascii_lower c) = to_ascii_lower c"
  by (simp add: to_ascii_lower_def Let_def)

lemma alphanumeric_lower [simp]: "is_ascii_alphanumeric (to_ascii_lower c) = is_ascii_alphanumeric c"
  by (auto simp: to_ascii_lower_def is_ascii_alphanumeric_def Let_def)

definition lowered :: "string \<Rightarrow> bool" where
  "lowered g \<longleftrightarrow> (\<forall>c. g = [c] \<longrightarrow> to_ascii_lower c = c)"

lemma lower_scalar_lowered: "g \<noteq> [] \<Longrightarrow> h \<in> set (lower_scalar g) \<Longrightarrow> lowered h"
  by (auto simp: lower_scalar_def lowered_def split: list.splits if_splits) (simp_all add: to_ascii_lower_def)

lemma slug_char_ok: "lowered g \<Longrightarrow> slug_char g = Some c \<Longrightarrow> slug_ok c"
  by (auto simp: slug_char_def slug_ok_def lowered_def split: list.splits if_splits)

lemma slug_loop_ok:
  "\<forall>c \<in> set slug. slug_ok c \<Longrightarrow> \<forall>g \<in> set gs. lowered g \<Longrightarrow> \<forall>c \<in> set (slug_loop gs b slug). slug_ok c"
proof (induction gs b slug rule: slug_loop.induct)
  case (2 g gs b slug)
  have "slug_ok (CHR ''-'')" by (simp add: slug_ok_def)
  with 2 show ?case by (auto simp: slug_char_ok split: option.splits)
qed simp

lemma set_trim_dashes: "set (trim_dashes s) \<subseteq> set s"
  by (auto simp: trim_dashes_def dest!: set_dropWhileD)

lemma dropWhile_snoc: "\<not> P a \<Longrightarrow> dropWhile P (xs @ [a]) = dropWhile P xs @ [a]"
  by (induction xs) auto

lemma trim_dashes_ends:
  assumes "trim_dashes s \<noteq> []"
  shows "hd (trim_dashes s) \<noteq> CHR ''-'' \<and> last (trim_dashes s) \<noteq> CHR ''-''"
proof -
  let ?P = "\<lambda>c. c = CHR ''-''"
  obtain a m where m: "dropWhile ?P s = a # m" using assms by (cases "dropWhile ?P s") (auto simp: trim_dashes_def)
  have a: "a \<noteq> CHR ''-''" using hd_dropWhile [of ?P s] m by simp
  then have t: "trim_dashes s = a # rev (dropWhile ?P (rev m))"
    by (simp add: trim_dashes_def m dropWhile_snoc)
  moreover have "last (trim_dashes s) \<noteq> CHR ''-''"
  proof (cases "dropWhile ?P (rev m) = []")
    case False
    then have "last (trim_dashes s) = hd (dropWhile ?P (rev m))"
      unfolding t by (subst last_ConsR) (simp_all only: rev_is_Nil_conv last_rev not_False_eq_True)
    with hd_dropWhile [OF False] show ?thesis by argo
  qed (use t a in simp)
  ultimately show ?thesis using a by simp
qed

lemma trim_dashes_id:
  assumes "s \<noteq> []" and "hd s \<noteq> CHR ''-''" and "last s \<noteq> CHR ''-''"
  shows "trim_dashes s = s"
proof -
  have "dropWhile (\<lambda>c. c = CHR ''-'') s = s" using assms(1,2) by (cases s) auto
  moreover have "dropWhile (\<lambda>c. c = CHR ''-'') (rev s) = rev s"
    using assms(1,3) by (cases s rule: rev_cases) auto
  ultimately show ?thesis by (simp add: trim_dashes_def)
qed

definition slug_like :: "string \<Rightarrow> bool" where
  "slug_like s \<longleftrightarrow> s \<noteq> [] \<and> (\<forall>c \<in> set s. slug_ok c) \<and> hd s \<noteq> CHR ''-'' \<and> last s \<noteq> CHR ''-''"

lemma slugify_slug_like: "slug_like (slugify_key_name n)"
proof -
  let ?gs = "concat (map lower_scalar (rust_chars n))"
  let ?s = "trim_dashes (slug_loop ?gs False [])"
  have "\<forall>g \<in> set ?gs. lowered g" by (auto dest: rust_chars_nonempty lower_scalar_lowered)
  then have ok: "\<forall>c \<in> set ?s. slug_ok c"
    using slug_loop_ok [of "[]" ?gs False] set_trim_dashes [of "slug_loop ?gs False []"] by auto
  show ?thesis
  proof (cases "?s = []")
    case True
    have "slug_like ''ssh-key''"
      by (simp add: slug_like_def slug_ok_def is_ascii_alphanumeric_def to_ascii_lower_def)
    with True show ?thesis by (simp add: slugify_key_name_def)
  next
    case False
    then show ?thesis using ok trim_dashes_ends [OF False] by (simp add: slugify_key_name_def slug_like_def Let_def)
  qed
qed

lemma slug_ok_ascii: "slug_ok c \<Longrightarrow> \<not> is_cont c \<and> to_ascii_lower c = c \<and> slug_char [c] = Some c"
  by (auto simp: slug_ok_def is_cont_def is_ascii_alphanumeric_def slug_char_def to_ascii_lower_def Let_def)

lemma rust_chars_slug: "\<forall>c \<in> set s. slug_ok c \<Longrightarrow> rust_chars s = map (\<lambda>c. [c]) s"
proof (induction s)
  case (Cons c s)
  then show ?case using rust_chars_Cons_nocont [of s c] by (cases s) (auto simp: slug_ok_ascii)
qed simp

lemma slug_loop_slug: "\<forall>c \<in> set s. slug_ok c \<Longrightarrow> slug_loop (map (\<lambda>c. [c]) s) b acc = acc @ s"
  by (induction s arbitrary: b acc) (auto simp: slug_ok_ascii)

lemma slugify_slug:
  assumes "slug_like s"
  shows "slugify_key_name s = s"
proof -
  have ok: "\<forall>c \<in> set s. slug_ok c" using assms by (simp add: slug_like_def)
  then have "concat (map lower_scalar (rust_chars s)) = map (\<lambda>c. [c]) s"
    by (simp add: rust_chars_slug comp_def lower_scalar_def) (induction s; simp add: slug_ok_ascii)
  then show ?thesis
    using assms slug_loop_slug [OF ok, of False "[]"] by (simp add: slugify_key_name_def slug_like_def trim_dashes_id)
qed

lemma prefix_alphanumeric: "c \<in> set (vault_item_id_prefix i) \<Longrightarrow> is_ascii_alphanumeric c"
  using set_take_subset [of 8 "filter is_ascii_alphanumeric i"] by (auto simp: vault_item_id_prefix_def)

lemma alphanumeric_not_dash: "is_ascii_alphanumeric c \<Longrightarrow> c \<noteq> CHR ''-''"
  by (auto simp: is_ascii_alphanumeric_def)

lemma append_dash_cancel:
  assumes "a @ ''--'' @ p = b @ ''--'' @ q" and "CHR ''-'' \<notin> set p" and "CHR ''-'' \<notin> set q"
  shows "p = q"
proof -
  have "takeWhile (\<lambda>c. c \<noteq> CHR ''-'') (rev p @ rev (a @ ''--'')) = rev p"
    "takeWhile (\<lambda>c. c \<noteq> CHR ''-'') (rev q @ rev (b @ ''--'')) = rev q"
    using assms(2,3) by (auto simp: takeWhile_append)
  moreover have "rev p @ rev (a @ ''--'') = rev q @ rev (b @ ''--'')" using arg_cong [OF assms(1), of rev] by simp
  ultimately show ?thesis by (metis rev_rev_ident)
qed

lemma selector_file_name_prefixed:
  "vault_item_id_prefix i \<noteq> [] \<Longrightarrow>
     selector_file_name n i = (slugify_key_name n @ ''--'' @ vault_item_id_prefix i) @ ''.pub''"
  by (simp add: selector_file_name_def)

section \<open>Properties\<close>

text \<open>
  Selector files stay in their directory and are told apart by the vault item. A selector file
  name is a plain file name that ends in \<open>.pub\<close>, is not hidden and has no separator or other
  special character in it, whatever the vault item is called; naming is stable under its own
  output; and two items whose id prefixes differ never share a file, however similar their names.
\<close>

theorem selector_names_safe:
  "(\<exists>stem. selector_file_name n i = stem @ ''.pub'' \<and> stem \<noteq> []
      \<and> (\<forall>c \<in> set stem. is_ascii_alphanumeric c \<or> c = CHR ''_'' \<or> c = CHR ''-''))
   \<and> slugify_key_name (slugify_key_name n) = slugify_key_name n
   \<and> (vault_item_id_prefix i \<noteq> [] \<and> vault_item_id_prefix j \<noteq> [] \<and> selector_file_name n i = selector_file_name m j \<longrightarrow>
        vault_item_id_prefix i = vault_item_id_prefix j)"
proof (intro conjI impI)
  have s: "slugify_key_name n \<noteq> []" "\<forall>c \<in> set (slugify_key_name n). slug_ok c"
    using slugify_slug_like [of n] by (auto simp: slug_like_def)
  then have "\<forall>c \<in> set (slugify_key_name n). is_ascii_alphanumeric c \<or> c = CHR ''_'' \<or> c = CHR ''-''"
    by (auto simp: slug_ok_def)
  then show "\<exists>stem. selector_file_name n i = stem @ ''.pub'' \<and> stem \<noteq> []
      \<and> (\<forall>c \<in> set stem. is_ascii_alphanumeric c \<or> c = CHR ''_'' \<or> c = CHR ''-'')"
    using s(1) prefix_alphanumeric [of _ i]
    by (intro exI [of _ "if vault_item_id_prefix i = [] then slugify_key_name n
          else slugify_key_name n @ ''--'' @ vault_item_id_prefix i"])
      (auto simp: selector_file_name_def Let_def)
  show "slugify_key_name (slugify_key_name n) = slugify_key_name n" by (rule slugify_slug [OF slugify_slug_like])
next
  assume "vault_item_id_prefix i \<noteq> [] \<and> vault_item_id_prefix j \<noteq> [] \<and> selector_file_name n i = selector_file_name m j"
  then have "(slugify_key_name n @ ''--'' @ vault_item_id_prefix i) @ ''.pub''
      = (slugify_key_name m @ ''--'' @ vault_item_id_prefix j) @ ''.pub''"
    by (metis selector_file_name_prefixed)
  then have "slugify_key_name n @ ''--'' @ vault_item_id_prefix i = slugify_key_name m @ ''--'' @ vault_item_id_prefix j"
    by (rule append_same_eq [THEN iffD1])
  then show "vault_item_id_prefix i = vault_item_id_prefix j"
    by (rule append_dash_cancel) (auto dest: prefix_alphanumeric alphanumeric_not_dash)
qed

theorem selector_names_safe_witness:
  "slugify_key_name ''../My Key'' = ''my-key'' \<and> selector_file_name ''../My Key'' ''ab-1'' = ''my-key--ab1.pub''
   \<and> slugify_key_name (slugify_key_name ''../My Key'') = ''my-key''"
proof -
  have "slugify_key_name ''../My Key'' = ''my-key''"
    by code_simp
  moreover have "slugify_key_name (slugify_key_name ''../My Key'') = slugify_key_name ''../My Key''"
    using selector_names_safe [of "''../My Key''" "''ab-1''"] by blast
  ultimately show ?thesis
    by (simp add: selector_file_name_def vault_item_id_prefix_def is_ascii_alphanumeric_def)
qed

end
