(* ===== verification/Selectors.thy ===== *)
theory Selectors
  imports Paths Naming Client
begin

text \<open>
  The public-key selector files of \<open>src/sshconfig.rs\<close>, \<open>write_key_selector_files\<close>: one \<open>.pub\<close> file per
  key, names of earlier days kept as aliases of the same vault item, everything else with that
  extension removed. The directory is a map from file names to contents.
\<close>

type_synonym directory = "(string, string) amap"

text \<open>
  The operating system's answers: how a write of a file ends (fine, failing without a trace, failing
  with some content left), whether the directory can be made and listed, whether an entry can be
  examined and a file removed.
\<close>

datatype file_write = Fw_Ok | Fw_Failed "string option"

record selector_env =
  sel_dir :: "string result"
  sel_made :: bool
  sel_listed :: bool
  sel_write :: "string \<Rightarrow> file_write"
  sel_entry :: "string \<Rightarrow> unit result"
  sel_remove :: "string \<Rightarrow> bool"

definition selector_content :: "DecryptedSshKey \<Rightarrow> string" where
  "selector_content k = trim (public_key_openssh k) @ [CHR 0x0A]"

definition selector_name :: "DecryptedSshKey \<Rightarrow> string" where
  "selector_name k = selector_file_name (dk_name k) (dk_cipher_id k)"

definition write_selector :: "selector_env \<Rightarrow> string \<Rightarrow> DecryptedSshKey \<Rightarrow> directory \<Rightarrow> bool \<times> directory" where
  "write_selector S n k d =
     (case sel_write S n of
        Fw_Ok \<Rightarrow> (True, am_insert n (selector_content k) d)
      | Fw_Failed left \<Rightarrow> (False, (case left of None \<Rightarrow> d | Some s \<Rightarrow> am_insert n s d)))"

fun write_selectors :: "selector_env \<Rightarrow> string \<Rightarrow> DecryptedSshKey list \<Rightarrow> directory \<Rightarrow> unit result \<times> directory" where
  "write_selectors S dir [] d = (Inr (), d)"
| "write_selectors S dir (k # ks) d =
     (case write_selector S (selector_name k) k d of
        (True, d') \<Rightarrow> write_selectors S dir ks d'
      | (False, d') \<Rightarrow> (Inl (''Failed to write key selector file: '' @ path_join dir (selector_name k)), d'))"

definition is_pub :: "string \<Rightarrow> bool" where
  "is_pub n \<longleftrightarrow> snd (split_at_dot n) = Some ''pub''"

definition is_alias :: "string \<Rightarrow> DecryptedSshKey \<Rightarrow> bool" where
  "is_alias n k \<longleftrightarrow>
     (let prefix = vault_item_id_prefix (dk_cipher_id k)
      in prefix \<noteq> [] \<and> ends_with (''--'' @ prefix @ ''.pub'') n)"

fun clean_selectors ::
  "selector_env \<Rightarrow> string \<Rightarrow> DecryptedSshKey list \<Rightarrow> string set \<Rightarrow> string list \<Rightarrow> directory \<Rightarrow> unit result \<times> directory" where
  "clean_selectors S dir keys active [] d = (Inr (), d)"
| "clean_selectors S dir keys active (n # ns) d =
     (case sel_entry S n of
        Inl e \<Rightarrow> (Inl e, d)
      | Inr _ \<Rightarrow>
          if is_pub n \<and> n \<notin> active
          then (case find (is_alias n) keys of
             Some k \<Rightarrow>
               (case write_selector S n k d of
                  (True, d') \<Rightarrow> clean_selectors S dir keys active ns d'
                | (False, d') \<Rightarrow> (Inl (''Failed to update key selector alias: '' @ path_join dir n), d'))
           | None \<Rightarrow>
               if sel_remove S n then clean_selectors S dir keys active ns (am_remove n d)
               else (Inl (''Failed to remove stale key selector file: '' @ path_join dir n), d))
          else clean_selectors S dir keys active ns d)"

definition write_key_selector_files :: "selector_env \<Rightarrow> DecryptedSshKey list \<Rightarrow> directory \<Rightarrow> unit result \<times> directory" where
  "write_key_selector_files S keys d =
     (case sel_dir S of
        Inl e \<Rightarrow> (Inl e, d)
      | Inr dir \<Rightarrow>
          if \<not> sel_made S then (Inl (''Failed to create key selector directory: '' @ dir), d)
          else (case write_selectors S dir keys d of
             (Inl e, d1) \<Rightarrow> (Inl e, d1)
           | (Inr _, d1) \<Rightarrow>
               if \<not> sel_listed S then (Inl (''Failed to read key selector directory: '' @ dir), d1)
               else clean_selectors S dir keys (selector_name ` set keys) (map fst d1) d1))"

section \<open>What is in the directory afterwards\<close>

text \<open>What becomes of the file \<open>n\<close>: the last key of that name, a key it is an alias of, or nothing.\<close>

definition selector_after :: "DecryptedSshKey list \<Rightarrow> directory \<Rightarrow> string \<Rightarrow> string option" where
  "selector_after keys d n =
     (case find (\<lambda>k. selector_name k = n) (rev keys) of
        Some k \<Rightarrow> Some (selector_content k)
      | None \<Rightarrow>
          if is_pub n then (case am_get d n of
               None \<Rightarrow> None
             | Some _ \<Rightarrow> map_option selector_content (find (is_alias n) keys))
          else am_get d n)"

lemma find_append: "find P (xs @ ys) = (case find P xs of Some x \<Rightarrow> Some x | None \<Rightarrow> find P ys)"
  by (induction xs) auto

lemma write_selector_true:
  "write_selector S n k d = (True, d') \<Longrightarrow> d' = am_insert n (selector_content k) d"
  by (auto simp: write_selector_def split: file_write.splits)

lemma write_selectors_ok:
  assumes "write_selectors S dir ks d = (Inr (), d')" and "am_inv d"
  shows "am_inv d' \<and> am_get d' n =
    (case find (\<lambda>k. selector_name k = n) (rev ks) of Some k \<Rightarrow> Some (selector_content k) | None \<Rightarrow> am_get d n)"
  using assms
proof (induction ks arbitrary: d)
  case (Cons k ks)
  then have w: "write_selectors S dir ks (am_insert (selector_name k) (selector_content k) d) = (Inr (), d')"
    by (auto dest: write_selector_true split: prod.splits bool.splits)
  from Cons.IH [OF this am_inv_insert [OF Cons.prems(2)]] show ?case
    by (auto simp: find_append split: option.splits)
qed simp

lemma clean_selectors_ok:
  assumes "clean_selectors S dir keys active ns d = (Inr (), d')" and "am_inv d" and "distinct ns"
  shows "am_get d' n = (if n \<in> set ns \<and> is_pub n \<and> n \<notin> active then map_option selector_content (find (is_alias n) keys)
    else am_get d n)"
  using assms
proof (induction ns arbitrary: d)
  case (Cons m ns)
  define d1 where "d1 = (if is_pub m \<and> m \<notin> active
    then (case find (is_alias m) keys of Some k \<Rightarrow> am_insert m (selector_content k) d | None \<Rightarrow> am_remove m d) else d)"
  have c: "clean_selectors S dir keys active ns d1 = (Inr (), d')"
    using Cons.prems(1) unfolding d1_def
    by (auto dest: write_selector_true split: sum.splits if_splits option.splits prod.splits bool.splits)
  have inv: "am_inv d1" using Cons.prems(2) by (auto simp: d1_def am_inv_insert am.inv_del split: option.splits)
  have look: "am_get d1 n = (if n = m \<and> is_pub m \<and> m \<notin> active then map_option selector_content (find (is_alias m) keys) else am_get d n)"
    using Cons.prems(2) by (auto simp: d1_def am.get_del split: option.splits)
  have "distinct ns" "m \<notin> set ns" using Cons.prems(3) by simp_all
  with Cons.IH [OF c inv] look show ?case by auto
qed simp

lemma active_names: "find (\<lambda>k. selector_name k = n) (rev keys) = None \<longleftrightarrow> n \<notin> selector_name ` set keys"
  by (auto simp: find_None_iff)

lemma write_selectors_works:
  "(\<And>n. sel_write S n = Fw_Ok) \<Longrightarrow> fst (write_selectors S dir ks d) = Inr ()"
  by (induction ks arbitrary: d) (auto simp: write_selector_def)

lemma clean_selectors_works:
  "(\<And>n. sel_write S n = Fw_Ok \<and> sel_entry S n = Inr () \<and> sel_remove S n) \<Longrightarrow>
   fst (clean_selectors S dir keys active ns d) = Inr ()"
  by (induction ns arbitrary: d) (auto simp: write_selector_def split: option.splits)

section \<open>Property\<close>

text \<open>
  After a sync the selector directory shows exactly the current keys. When writing the selector
  files succeeds, every key's file holds its public key (the last one's, should two keys share the
  name), every other \<open>.pub\<close> file either holds the public key of the current key whose vault item its
  name carries or is gone, and no other file is touched. When every call works, it succeeds.
\<close>

theorem selector_files_match_keys:
  assumes "am_inv d" and "write_key_selector_files S keys d = (r, d')"
  shows "(r = Inr () \<longrightarrow> (\<forall>n. am_get d' n = selector_after keys d n))
    \<and> (is_ok (sel_dir S) \<and> sel_made S \<and> sel_listed S
        \<and> (\<forall>n. sel_write S n = Fw_Ok \<and> sel_entry S n = Inr () \<and> sel_remove S n) \<longrightarrow> r = Inr ())"
proof (intro conjI impI allI)
  fix n
  assume "r = Inr ()"
  then obtain dir d1 where w: "write_selectors S dir keys d = (Inr (), d1)"
    and c: "clean_selectors S dir keys (selector_name ` set keys) (map fst d1) d1 = (Inr (), d')"
    using assms(2) by (auto simp: write_key_selector_files_def split: sum.splits if_splits prod.splits)
  note d1 = write_selectors_ok [OF w assms(1)]
  have "distinct (map fst d1)" using d1 [of n] by (simp add: am_inv_def)
  note e = clean_selectors_ok [OF c _ this, of n]
  have "n \<in> set (map fst d1) \<longleftrightarrow> am_get d1 n \<noteq> None" by (auto simp: map_of_eq_None_iff)
  then show "am_get d' n = selector_after keys d n"
    using d1 [of n] e active_names [of n keys]
    by (auto simp: selector_after_def split: option.splits)
next
  assume a: "is_ok (sel_dir S) \<and> sel_made S \<and> sel_listed S
        \<and> (\<forall>n. sel_write S n = Fw_Ok \<and> sel_entry S n = Inr () \<and> sel_remove S n)"
  then obtain dir where dir: "sel_dir S = Inr dir" by (auto simp: is_ok_iff)
  obtain d1 where d1: "write_selectors S dir keys d = (Inr (), d1)"
    using write_selectors_works [of S dir keys d] a by (metis prod.collapse)
  have "fst (clean_selectors S dir keys (selector_name ` set keys) (map fst d1) d1) = Inr ()"
    using a by (intro clean_selectors_works) blast
  then show "r = Inr ()" using assms(2) a dir d1 by (auto simp: write_key_selector_files_def)
qed

definition demo_selector_env :: selector_env where
  "demo_selector_env = \<lparr>sel_dir = Inr ''/k'', sel_made = True, sel_listed = True, sel_write = (\<lambda>_. Fw_Ok),
     sel_entry = (\<lambda>_. Inr ()), sel_remove = (\<lambda>_. True)\<rparr>"

definition demo_decrypted :: DecryptedSshKey where
  "demo_decrypted = \<lparr>private_key_pem = [], public_key_openssh = ''ssh-ed25519 A'', dk_name = ''web'', dk_cipher_id = ''id1''\<rparr>"

theorem selector_files_match_keys_witness:
  "\<exists>d'. write_key_selector_files demo_selector_env [demo_decrypted]
       [(''old--id1.pub'', ''x''), (''gone.pub'', ''y''), (''notes'', ''z'')] = (Inr (), d')
     \<and> am_get d' ''web--id1.pub'' = Some (''ssh-ed25519 A'' @ [CHR 0x0A])
     \<and> am_get d' ''old--id1.pub'' = Some (''ssh-ed25519 A'' @ [CHR 0x0A])
     \<and> am_get d' ''gone.pub'' = None \<and> am_get d' ''notes'' = Some ''z''"
proof -
  let ?d = "[(''old--id1.pub'', ''x''), (''gone.pub'', ''y''), (''notes'', ''z'')] :: directory"
  have inv: "am_inv ?d" by (simp add: am_inv_def)
  obtain r d' where run: "write_key_selector_files demo_selector_env [demo_decrypted] ?d = (r, d')" by fastforce
  have r: "r = Inr ()"
    using selector_files_match_keys [OF inv run] by (simp add: demo_selector_env_def)
  have after: "am_get d' n = selector_after [demo_decrypted] ?d n" for n
    using selector_files_match_keys [OF inv run] r by blast
  have "selector_after [demo_decrypted] ?d ''web--id1.pub'' = Some (''ssh-ed25519 A'' @ [CHR 0x0A])"
    "selector_after [demo_decrypted] ?d ''old--id1.pub'' = Some (''ssh-ed25519 A'' @ [CHR 0x0A])"
    "selector_after [demo_decrypted] ?d ''gone.pub'' = None" "selector_after [demo_decrypted] ?d ''notes'' = Some ''z''"
    by code_simp+
  then show ?thesis using run r after by auto
qed

end
