(* ===== verification/Path_Safety.thy ===== *)
theory Path_Safety
  imports Paths
begin

text \<open>
  The path comparison of \<open>src/path_util.rs\<close> that keeps SSHWarden from overwriting the user's own
  \<open>~/.ssh/config\<close>. A \<open>PathBuf\<close> under construction is its component list; canonicalisation and the
  working directory are the operating system's, the parameter \<open>path_env\<close>.
\<close>

record path_env =
  canonicalize :: "string \<Rightarrow> string option"
  current_dir :: "string option"

fun is_normal :: "component \<Rightarrow> bool" where
  "is_normal (Normal _) = True"
| "is_normal _ = False"

fun normalize_step :: "bool \<Rightarrow> component \<Rightarrow> component list \<Rightarrow> component list" where
  "normalize_step absolute RootDir acc = [RootDir]"
| "normalize_step absolute CurDir acc = acc"
| "normalize_step absolute ParentDir acc =
     (if acc \<noteq> [] \<and> is_normal (last acc) then butlast acc
      else if \<not> absolute then acc @ [ParentDir]
      else acc)"
| "normalize_step absolute (Normal part) acc = acc @ [Normal part]"

definition normalize_path_components_for_safety :: "string \<Rightarrow> component list" where
  "normalize_path_components_for_safety path =
     fold (normalize_step (is_absolute path)) (components path) []"

definition normalized_absolute_path_for_safety :: "path_env \<Rightarrow> string \<Rightarrow> component list" where
  "normalized_absolute_path_for_safety E path =
     normalize_path_components_for_safety
       (if is_absolute path then path
        else case current_dir E of Some cwd \<Rightarrow> path_join cwd path | None \<Rightarrow> path)"

definition paths_equivalent_for_safety :: "path_env \<Rightarrow> string \<Rightarrow> string \<Rightarrow> bool" where
  "paths_equivalent_for_safety E a b \<longleftrightarrow>
     (case (canonicalize E a, canonicalize E b) of
        (Some a', Some b') \<Rightarrow> path_eq a' b'
      | _ \<Rightarrow> normalized_absolute_path_for_safety E a = normalized_absolute_path_for_safety E b)"

definition ensure_managed_ssh_config_path_is_safe :: "path_env \<Rightarrow> string \<Rightarrow> string \<Rightarrow> unit result" where
  "ensure_managed_ssh_config_path_is_safe E managed_path user_config_path =
     (if paths_equivalent_for_safety E managed_path user_config_path
      then Inl (''managed SSH config path must not be the user'' @ [CHR 0x27] @ ''s main SSH config: '' @ managed_path)
      else Inr ())"

section \<open>Reference: walking the directory tree\<close>

text \<open>Where a path leads in a tree without symbolic links, as the names from the root.\<close>

fun walk :: "string list \<Rightarrow> component list \<Rightarrow> string list" where
  "walk d [] = d"
| "walk d (RootDir # cs) = walk [] cs"
| "walk d (CurDir # cs) = walk d cs"
| "walk d (ParentDir # cs) = walk (butlast d) cs"
| "walk d (Normal s # cs) = walk (d @ [s]) cs"

definition location :: "string \<Rightarrow> string \<Rightarrow> string list" where
  "location cwd p = walk (walk [] (components cwd)) (components p)"

lemma walk_append: "walk d (cs @ ds) = walk (walk d cs) ds"
  by (induction d cs rule: walk.induct) auto

lemma walk_head: "walk d (head_components p @ cs) = walk (if is_absolute p then [] else d) cs"
  by (auto simp: head_components_def split: list.splits)

lemma fold_normalize_body:
  "\<forall>c \<in> set cs. body_ok c \<Longrightarrow>
     fold (normalize_step True) cs (RootDir # map Normal d) = RootDir # map Normal (walk d cs)"
proof (induction d cs rule: walk.induct)
  case (4 d cs)
  then show ?case by (cases d rule: rev_cases) auto
qed auto

lemma normalize_absolute:
  assumes "is_absolute p"
  shows "normalize_path_components_for_safety p = RootDir # map Normal (walk [] (components p))"
proof -
  have "components p = RootDir # body_components p"
    using assms by (simp add: components_def head_components_def)
  then show ?thesis
    using fold_normalize_body [of "body_components p" "[]"] body_components_ok assms
    by (simp add: normalize_path_components_for_safety_def)
qed

lemma normalized_location:
  assumes "current_dir E = Some cwd" and "is_absolute cwd"
  shows "normalized_absolute_path_for_safety E p = RootDir # map Normal (location cwd p)"
proof (cases "is_absolute p")
  case True
  then show ?thesis
    by (simp add: normalized_absolute_path_for_safety_def normalize_absolute location_def components_def walk_head)
next
  case False
  have "cwd \<noteq> []" using assms(2) by auto
  note j = components_join [OF False this]
  then have "normalize_path_components_for_safety (path_join cwd p)
      = RootDir # map Normal (walk [] (components cwd @ body_components p))"
    using assms(2) by (simp add: normalize_absolute)
  also have "walk [] (components cwd @ body_components p) = location cwd p"
    using False walk_head [of _ p "[]"] by (simp add: walk_append location_def components_def [of p])
  finally show ?thesis using False assms(1) by (simp add: normalized_absolute_path_for_safety_def)
qed

text \<open>
  C22: the guard against overwriting the user's SSH configuration is exact. When both paths
  resolve, it refuses exactly equal canonical paths; otherwise it refuses the managed path exactly
  when both paths lead to the same place from the working directory, however they are spelled.
\<close>

theorem managed_path_guard_exact:
  assumes "current_dir E = Some cwd" and "is_absolute cwd"
  shows "is_ok (ensure_managed_ssh_config_path_is_safe E managed user_config) \<longleftrightarrow>
           (case (canonicalize E managed, canonicalize E user_config) of
              (Some m, Some u) \<Rightarrow> components m \<noteq> components u
            | _ \<Rightarrow> location cwd managed \<noteq> location cwd user_config)"
proof -
  have inj: "map Normal xs = map Normal ys \<longleftrightarrow> xs = ys" for xs ys
    by (rule inj_map_eq_map) (simp add: inj_on_def)
  show ?thesis
    by (auto simp: ensure_managed_ssh_config_path_is_safe_def paths_equivalent_for_safety_def path_eq_def
        normalized_location [OF assms] inj split: option.splits)
qed

definition demo_path_env :: path_env where
  "demo_path_env = \<lparr>canonicalize = (\<lambda>_. None), current_dir = Some ''/home/u/work''\<rparr>"

theorem managed_path_guard_exact_witness:
  "\<not> is_ok (ensure_managed_ssh_config_path_is_safe demo_path_env ''../.ssh/./x/..//config'' ''/home/u/.ssh/config'')
   \<and> is_ok (ensure_managed_ssh_config_path_is_safe demo_path_env ''sshwarden_config'' ''/home/u/.ssh/config'')"
proof -
  have "location ''/home/u/work'' ''../.ssh/./x/..//config'' = location ''/home/u/work'' ''/home/u/.ssh/config''"
    and "location ''/home/u/work'' ''sshwarden_config'' \<noteq> location ''/home/u/work'' ''/home/u/.ssh/config''"
    by code_simp+
  then show ?thesis
    using managed_path_guard_exact [of demo_path_env "''/home/u/work''"] by (simp add: demo_path_env_def)
qed

end
