(* ===== verification/Ssh_Config.thy ===== *)
theory Ssh_Config
  imports Path_Safety
begin

text \<open>
  Arguments and \<open>Include\<close> lines of OpenSSH configuration files,
  \<open>crates/sshwarden-config/src/ssh_config.rs\<close>, private files of \<open>src/path_util.rs\<close>, and the edits of the
  user's \<open>~/.ssh/config\<close> in \<open>src/sshconfig.rs\<close>. The home directory, as read from \<open>HOME\<close> or
  \<open>USERPROFILE\<close>, is an argument.
\<close>

section \<open>Arguments\<close>

datatype SshConfigPathStyle = Absolute | HomeRelative

definition escape_char :: "char \<Rightarrow> string" where
  "escape_char ch =
     (if ch = CHR 0x22 then [CHR 0x5C, CHR 0x22]
      else if ch = CHR 0x5C then [CHR 0x5C, CHR 0x5C]
      else [ch])"

definition quote_ssh_config_arg :: "string \<Rightarrow> string" where
  "quote_ssh_config_arg val = [CHR 0x22] @ concat (map escape_char val) @ [CHR 0x22]"

definition path_arg :: "string \<Rightarrow> string" where
  "path_arg path = quote_ssh_config_arg path"

definition tilde_join :: "string \<Rightarrow> string" where
  "tilde_join relative = (if relative = [] then ''~'' else path_join ''~'' relative)"

definition home_relative_path_with_home :: "string \<Rightarrow> string \<Rightarrow> string option" where
  "home_relative_path_with_home path home = map_option tilde_join (strip_prefix_path home path)"

definition home_relative_path :: "string option \<Rightarrow> string \<Rightarrow> string option" where
  "home_relative_path home path = Option.bind home (home_relative_path_with_home path)"

definition path_arg_with_style :: "string option \<Rightarrow> string \<Rightarrow> SshConfigPathStyle \<Rightarrow> string" where
  "path_arg_with_style home path style =
     quote_ssh_config_arg
       (case style of
          Absolute \<Rightarrow> path
        | HomeRelative \<Rightarrow> unwrap_or path (home_relative_path home path))"

definition include_line :: "string \<Rightarrow> string" where
  "include_line path = ''Include '' @ path_arg path"

definition include_line_with_style :: "string option \<Rightarrow> string \<Rightarrow> SshConfigPathStyle \<Rightarrow> string" where
  "include_line_with_style home path style = ''Include '' @ path_arg_with_style home path style"

definition legacy_unquoted_include_line :: "string \<Rightarrow> string" where
  "legacy_unquoted_include_line path = ''Include '' @ path"

definition line_matches_sshwarden_include :: "string option \<Rightarrow> string \<Rightarrow> string \<Rightarrow> bool" where
  "line_matches_sshwarden_include home line path \<longleftrightarrow>
     (let trimmed = trim line
      in trimmed = include_line path
         \<or> trimmed = include_line_with_style home path HomeRelative
         \<or> trimmed = legacy_unquoted_include_line path)"

definition SSHWARDEN_INCLUDE_MARKER :: string where
  "SSHWARDEN_INCLUDE_MARKER = ''# SSHWarden managed key selector snippets''"

section \<open>Private files\<close>

text \<open>A file as \<open>read_to_string\<close> sees it: absent, there but not readable as text, or text.\<close>

datatype text_file = No_File | Not_Text | Text string

text \<open>
  How a private write goes: it works, the directory cannot be made, the write fails before or after
  so many bytes, or the file's mode cannot be set.
\<close>

datatype private_outcome =
    Pw_Ok
  | Pw_No_Dir string
  | Pw_Failed string "nat option"
  | Pw_No_Mode string

definition partial_text :: "nat \<Rightarrow> string \<Rightarrow> text_file" where
  "partial_text n c = (if utf8_valid (as_bytes (take n c)) then Text (take n c) else Not_Text)"

definition write_private_file :: "private_outcome \<Rightarrow> string \<Rightarrow> text_file \<Rightarrow> unit result \<times> text_file" where
  "write_private_file w c old =
     (case w of
        Pw_Ok \<Rightarrow> (Inr (), Text c)
      | Pw_No_Dir e \<Rightarrow> (Inl e, old)
      | Pw_Failed e n \<Rightarrow> (Inl e, (case n of None \<Rightarrow> old | Some k \<Rightarrow> partial_text k c))
      | Pw_No_Mode e \<Rightarrow> (Inl e, Text c))"

definition read_or_default :: "text_file \<Rightarrow> string" where
  "read_or_default f = (case f of Text s \<Rightarrow> s | _ \<Rightarrow> [])"

section \<open>The Include line\<close>

definition is_ssh_include_directive :: "string \<Rightarrow> bool" where
  "is_ssh_include_directive line =
     (case split_whitespace line of
        directive # _ \<Rightarrow> eq_ignore_ascii_case directive ''Include''
      | [] \<Rightarrow> False)"

definition line_matches_current_or_legacy_sshwarden_include ::
  "string option \<Rightarrow> string \<Rightarrow> string \<Rightarrow> bool" where
  "line_matches_current_or_legacy_sshwarden_include home line path \<longleftrightarrow>
     line_matches_sshwarden_include home line path
     \<or> (case home of
          Some h \<Rightarrow> line_matches_sshwarden_include home line (path_join (path_join h ''.ssh'') ''sshwarden_config'')
        | None \<Rightarrow> False)"

text \<open>
  The pass over the lines: the new lines, whether a marked Include was replaced, and whether an
  unmarked one was dropped. \<open>waiting\<close> says that the marker was seen and its Include not yet.
\<close>

fun rewrite_includes :: "(string \<Rightarrow> bool) \<Rightarrow> string \<Rightarrow> bool \<Rightarrow> string list \<Rightarrow> string list \<times> bool \<times> bool" where
  "rewrite_includes matches il waiting [] = ([], False, False)"
| "rewrite_includes matches il waiting (line # ls) =
     (let trimmed = trim line
      in if trimmed = SSHWARDEN_INCLUDE_MARKER
         then (case rewrite_includes matches il True ls of (out, replaced, dropped) \<Rightarrow> (line # out, replaced, dropped))
         else if waiting \<and> trimmed = []
         then (case rewrite_includes matches il True ls of (out, replaced, dropped) \<Rightarrow> (line # out, replaced, dropped))
         else if waiting \<and> (is_ssh_include_directive trimmed \<or> matches trimmed)
         then (case rewrite_includes matches il False ls of (out, replaced, dropped) \<Rightarrow> (il # out, True, dropped))
         else if matches trimmed
         then (case rewrite_includes matches il False ls of (out, replaced, dropped) \<Rightarrow> (out, replaced, True))
         else (case rewrite_includes matches il False ls of (out, replaced, dropped) \<Rightarrow> (line # out, replaced, dropped)))"

definition end_line :: "string \<Rightarrow> string" where
  "end_line s = (if s \<noteq> [] \<and> \<not> ends_with [CHR 0x0A] s then s @ [CHR 0x0A] else s)"

definition has_line :: "string \<Rightarrow> string \<Rightarrow> bool" where
  "has_line il s \<longleftrightarrow> list_ex (\<lambda>l. trim l = il) (lines s)"

text \<open>The new text of the configuration; nothing when the line is already there.\<close>

definition include_added :: "(string \<Rightarrow> bool) \<Rightarrow> string \<Rightarrow> string \<Rightarrow> string option" where
  "include_added matches il existing =
     (if has_line il existing then None
      else case rewrite_includes matches il False (lines existing) of
        (rewritten, replaced, dropped) \<Rightarrow>
          if replaced then Some (end_line (join [CHR 0x0A] rewritten))
          else Some (end_line (if dropped then join [CHR 0x0A] rewritten else existing)
                 @ [CHR 0x0A] @ SSHWARDEN_INCLUDE_MARKER @ [CHR 0x0A] @ il @ [CHR 0x0A]))"

definition write_sshwarden_include_line ::
  "string option \<Rightarrow> SshConfigPathStyle result \<Rightarrow> unit result \<Rightarrow> private_outcome \<Rightarrow> string \<Rightarrow> string \<Rightarrow>
     text_file \<Rightarrow> unit result \<times> text_file" where
  "write_sshwarden_include_line home style made w config_path include_path config =
     (case made of
        Inl _ \<Rightarrow> (Inl (''Failed to create SSH config directory: '' @ unwrap_or [] (parent config_path)), config)
      | Inr _ \<Rightarrow>
          (case style of
             Inl e \<Rightarrow> (Inl e, config)
           | Inr st \<Rightarrow>
               (case include_added (\<lambda>l. line_matches_current_or_legacy_sshwarden_include home l include_path)
                       (include_line_with_style home include_path st) (read_or_default config) of
                  None \<Rightarrow> (Inr (), config)
                | Some new_config \<Rightarrow>
                    (case write_private_file w new_config config of
                       (r, config') \<Rightarrow> (context_msg (''Failed to update SSH config: '' @ config_path) r, config')))))"

text \<open>Removal. The lines kept so far are a stack, the last one on top.\<close>

fun pop_marker :: "string list \<Rightarrow> string list" where
  "pop_marker [] = []"
| "pop_marker (l # kept) =
     (if trim l = [] then pop_marker kept
      else if trim l = SSHWARDEN_INCLUDE_MARKER then kept
      else l # kept)"

fun remove_includes :: "(string \<Rightarrow> bool) \<Rightarrow> string list \<Rightarrow> bool \<Rightarrow> bool \<Rightarrow> string list \<Rightarrow> bool \<times> string list" where
  "remove_includes matches [] skip removed kept = (removed, rev kept)"
| "remove_includes matches (line # ls) skip removed kept =
     (let trimmed = trim line
      in if trimmed = SSHWARDEN_INCLUDE_MARKER then remove_includes matches ls True removed (line # kept)
         else if matches trimmed \<or> skip \<and> is_ssh_include_directive trimmed
         then remove_includes matches ls False True (if skip then pop_marker kept else kept)
         else remove_includes matches ls (skip \<and> trimmed = []) removed (line # kept))"

definition include_removed :: "(string \<Rightarrow> bool) \<Rightarrow> string \<Rightarrow> string option" where
  "include_removed matches existing =
     (case remove_includes matches (lines existing) False False [] of
        (removed, kept) \<Rightarrow> if removed then Some (end_line (join [CHR 0x0A] kept)) else None)"

definition remove_sshwarden_include_line ::
  "string option \<Rightarrow> unit result \<Rightarrow> private_outcome \<Rightarrow> string \<Rightarrow> string \<Rightarrow> text_file \<Rightarrow> bool result \<times> text_file" where
  "remove_sshwarden_include_line home made w config_path include_path config =
     (case config of
        No_File \<Rightarrow> (Inr False, config)
      | Not_Text \<Rightarrow> (Inl (''Failed to read SSH config: '' @ config_path), config)
      | Text existing \<Rightarrow>
          (case include_removed (\<lambda>l. line_matches_current_or_legacy_sshwarden_include home l include_path) existing of
             None \<Rightarrow> (Inr False, config)
           | Some new_config \<Rightarrow>
               (case made of
                  Inl _ \<Rightarrow> (Inl (''Failed to prepare SSH config directory: '' @ unwrap_or [] (parent config_path)), config)
                | Inr _ \<Rightarrow>
                    (case write_private_file w new_config config of
                       (r, config') \<Rightarrow>
                         (map_sum (\<lambda>_. ''Failed to update SSH config: '' @ config_path) (\<lambda>_. True) r, config')))))"

section \<open>Lines of the rewritten text\<close>

abbreviation LF :: char where
  "LF \<equiv> CHR 0x0A"

abbreviation CR :: char where
  "CR \<equiv> CHR 0x0D"

lemma lines_snoc: "lines (s @ LF # t) = map strip_cr (split_on LF s) @ lines t"
  by (simp add: lines_def Let_def split_on_append butlast_append)

lemma lines_Nil [simp]: "lines [] = []"
  by (simp add: lines_def)

lemma strip_cr_id: "CR \<notin> set l \<Longrightarrow> strip_cr l = l"
  by (metis last_in_set strip_cr_def)

lemma set_strip_cr: "set (strip_cr l) \<subseteq> set l"
  by (auto simp: strip_cr_def dest: in_set_butlastD)

lemma lines_no_lf: "l \<in> set (lines s) \<Longrightarrow> LF \<notin> set l"
  using set_strip_cr split_on_seg [of _ LF s] last_in_set [OF split_on_nonempty, of LF s]
  by (fastforce simp: lines_def Let_def split: if_splits dest: in_set_butlastD)

lemma ends_with_snoc: "ends_with [c] s \<longleftrightarrow> (\<exists>t. s = t @ [c])"
  by (simp add: ends_with_iff)

text \<open>Text whose lines have no carriage return in them, whatever its line ends.\<close>

definition clean :: "string \<Rightarrow> bool" where
  "clean s \<longleftrightarrow> (\<forall>l \<in> set (lines s). CR \<notin> set l)"

lemma last_split_LF: "last (split_on c s) = [] \<longleftrightarrow> s = [] \<or> (\<exists>t. s = t @ [c])"
proof (cases s rule: rev_cases)
  case (snoc t x)
  show ?thesis
  proof (cases "x = c")
    case True
    then show ?thesis using snoc by (simp add: split_on_append)
  next
    case False
    have "last (split_on c (t @ [x])) \<noteq> []"
    proof (induction t)
      case (Cons y t)
      then show ?case by (cases "split_on c (t @ [x])") (auto split: if_splits)
    qed (use False in simp)
    with False snoc show ?thesis by simp
  qed
qed simp

lemma lines_end_line: "clean s \<Longrightarrow> lines (end_line s) = lines s"
proof (cases "s \<noteq> [] \<and> \<not> ends_with [LF] s")
  case True
  assume c: "clean s"
  let ?ps = "split_on LF s"
  have l: "last ?ps \<noteq> []" using True by (simp add: last_split_LF ends_with_snoc)
  then have ls: "lines s = map strip_cr (butlast ?ps) @ [last ?ps]" by (simp add: lines_def Let_def)
  then have "strip_cr (last ?ps) = last ?ps" using c by (intro strip_cr_id) (simp add: clean_def)
  moreover have "map strip_cr ?ps = map strip_cr (butlast ?ps @ [last ?ps])" by simp
  ultimately have "map strip_cr ?ps = lines s" unfolding ls by (simp del: append_butlast_last_id)
  then show ?thesis using True lines_snoc [of s "[]"] by (simp add: end_line_def)
qed (auto simp: end_line_def)

lemma split_on_end_line: "map strip_cr (split_on LF (end_line s)) = lines (end_line s) @ [[]]"
proof (cases "end_line s = []")
  case False
  then obtain t where t: "end_line s = t @ [LF]"
    by (auto simp: end_line_def ends_with_snoc split: if_splits)
  then show ?thesis using lines_snoc [of t "[]"] by (simp add: split_on_append strip_cr_def)
qed (simp add: strip_cr_def)

definition terminated :: "string list \<Rightarrow> string" where
  "terminated ls = concat (map (\<lambda>l. l @ [LF]) ls)"

lemma lines_terminated:
  "\<forall>l \<in> set ls. LF \<notin> set l \<and> CR \<notin> set l \<Longrightarrow> lines (terminated ls @ t) = ls @ lines t"
  by (induction ls) (auto simp: terminated_def lines_snoc split_on_no_sep strip_cr_id)

lemma join_terminated: "ls \<noteq> [] \<Longrightarrow> join [LF] ls @ [LF] = terminated ls"
  by (induction "[LF]" ls rule: join.induct) (auto simp: terminated_def)

lemma join_snoc_Nil: "join [LF] (ls @ [[]]) = terminated ls"
  by (induction ls rule: induct_list012) (auto simp: terminated_def)

lemma end_line_join:
  assumes "\<forall>l \<in> set ls. LF \<notin> set l"
  shows "\<exists>ls'. end_line (join [LF] ls) = terminated ls' \<and> (ls = ls' \<or> ls = ls' @ [[]])"
proof (cases ls rule: rev_cases)
  case Nil
  then show ?thesis by (simp add: end_line_def terminated_def)
next
  case (snoc ks l)
  show ?thesis
  proof (cases "l = []")
    case True
    have "end_line (terminated ks) = terminated ks"
      by (cases ks rule: rev_cases) (auto simp: end_line_def terminated_def ends_with_snoc)
    then show ?thesis using snoc True by (auto simp: join_snoc_Nil)
  next
    case False
    have ls: "ls \<noteq> []" using snoc by simp
    have "split_on LF (join [LF] ls) = ls" using assms ls by (intro split_on_join) auto
    then have "\<not> ends_with [LF] (join [LF] ls)" "join [LF] ls \<noteq> []"
      using last_split_LF [of LF "join [LF] ls"] snoc False by (auto simp: ends_with_snoc)
    then show ?thesis using join_terminated [OF ls] by (auto simp: end_line_def)
  qed
qed

lemma terminated_single: "terminated [l] = l @ [LF]"
  by (simp add: terminated_def)

lemma terminated_append: "terminated (a @ b) = terminated a @ terminated b"
  by (simp add: terminated_def)

text \<open>The lines after the marker and the Include line were appended.\<close>

lemma lines_appended:
  assumes "clean s" and "LF \<notin> set il" and "CR \<notin> set il"
  shows "lines (end_line s @ [LF] @ SSHWARDEN_INCLUDE_MARKER @ [LF] @ il @ [LF])
    = lines s @ [[], SSHWARDEN_INCLUDE_MARKER, il]"
proof -
  have m: "LF \<notin> set SSHWARDEN_INCLUDE_MARKER" "CR \<notin> set SSHWARDEN_INCLUDE_MARKER"
    by (simp_all add: SSHWARDEN_INCLUDE_MARKER_def)
  have "lines (end_line s @ LF # terminated [SSHWARDEN_INCLUDE_MARKER, il] @ [])
      = lines s @ [[], SSHWARDEN_INCLUDE_MARKER, il]"
    unfolding lines_snoc split_on_end_line
    by (subst lines_terminated) (use assms m in \<open>auto simp: lines_end_line\<close>)
  then show ?thesis by (simp add: terminated_def)
qed

section \<open>What the edits keep\<close>

definition user_line :: "(string \<Rightarrow> bool) \<Rightarrow> string \<Rightarrow> bool" where
  "user_line matches l \<longleftrightarrow>
     trim l \<noteq> [] \<and> trim l \<noteq> SSHWARDEN_INCLUDE_MARKER \<and> \<not> is_ssh_include_directive (trim l) \<and> \<not> matches (trim l)"

lemma rewrite_keeps_user:
  assumes "\<not> user_line matches il"
  shows "filter (user_line matches) (fst (rewrite_includes matches il w ls)) = filter (user_line matches) ls"
  using assms
proof (induction matches il w ls rule: rewrite_includes.induct)
  case (2 matches il w line ls)
  let ?t = "trim line"
  consider "?t = SSHWARDEN_INCLUDE_MARKER" | "?t \<noteq> SSHWARDEN_INCLUDE_MARKER" "w" "?t = []"
    | "?t \<noteq> SSHWARDEN_INCLUDE_MARKER" "\<not> (w \<and> ?t = [])" "w" "is_ssh_include_directive ?t \<or> matches ?t"
    | "?t \<noteq> SSHWARDEN_INCLUDE_MARKER" "\<not> (w \<and> ?t = [])" "\<not> w" "matches ?t"
    | "?t \<noteq> SSHWARDEN_INCLUDE_MARKER" "\<not> (w \<and> ?t = [])" "\<not> (w \<and> (is_ssh_include_directive ?t \<or> matches ?t))" "\<not> matches ?t"
    by blast
  then show ?case
  proof cases
    case 1
    with "2.IH"(1) [OF refl 1 "2.prems"] show ?thesis by (simp add: case_prod_unfold user_line_def)
  next
    case c: 2
    with "2.IH"(2) [OF refl c(1) _ "2.prems"] show ?thesis by (simp add: case_prod_unfold)
  next
    case c: 3
    then have "\<not> user_line matches line" by (auto simp: user_line_def)
    with c "2.IH"(3) [OF refl c(1,2) _ "2.prems"] "2.prems" show ?thesis by (simp add: case_prod_unfold)
  next
    case c: 4
    then have "\<not> user_line matches line" by (auto simp: user_line_def)
    with c "2.IH"(4) [OF refl c(1,2) _ c(4) "2.prems"] show ?thesis by (simp add: case_prod_unfold)
  next
    case c: 5
    with "2.IH"(5) [OF refl c "2.prems"] show ?thesis by (cases w) (simp_all add: case_prod_unfold Let_def)
  qed
qed simp

lemma rewrite_lines_from: "l \<in> set (fst (rewrite_includes matches il w ls)) \<Longrightarrow> l = il \<or> l \<in> set ls"
  by (induction matches il w ls rule: rewrite_includes.induct) (auto simp: Let_def split: prod.splits if_splits)

lemma rewrite_replaced: "fst (snd (rewrite_includes matches il w ls)) \<Longrightarrow> il \<in> set (fst (rewrite_includes matches il w ls))"
  by (induction matches il w ls rule: rewrite_includes.induct) (auto simp: Let_def split: prod.splits if_splits)

lemma rewrite_id:
  "\<forall>l \<in> set ls. trim l \<noteq> SSHWARDEN_INCLUDE_MARKER \<and> \<not> matches (trim l) \<Longrightarrow> rewrite_includes matches il False ls = (ls, False, False)"
  by (induction ls) (auto simp: Let_def)

lemma user_line_Nil: "\<not> user_line matches []"
  by (simp add: user_line_def)

lemma marker_not_user: "\<not> user_line matches SSHWARDEN_INCLUDE_MARKER"
proof -
  have "trim SSHWARDEN_INCLUDE_MARKER = SSHWARDEN_INCLUDE_MARKER" unfolding SSHWARDEN_INCLUDE_MARKER_def by code_simp
  then show ?thesis by (simp add: user_line_def)
qed

lemma filter_user_join:
  assumes "\<forall>l \<in> set ls. LF \<notin> set l \<and> CR \<notin> set l"
  shows "filter (user_line matches) (lines (end_line (join [LF] ls))) = filter (user_line matches) ls"
    and "x \<in> set ls \<Longrightarrow> x \<noteq> [] \<Longrightarrow> x \<in> set (lines (end_line (join [LF] ls)))"
    and "clean (end_line (join [LF] ls))"
proof -
  obtain ls' where e: "end_line (join [LF] ls) = terminated ls'" and ls: "ls = ls' \<or> ls = ls' @ [[]]"
    using end_line_join assms by blast
  have l: "lines (end_line (join [LF] ls)) = ls'"
    unfolding e using lines_terminated [of ls' "[]"] assms ls by auto
  show "filter (user_line matches) (lines (end_line (join [LF] ls))) = filter (user_line matches) ls"
    "x \<in> set ls \<Longrightarrow> x \<noteq> [] \<Longrightarrow> x \<in> set (lines (end_line (join [LF] ls)))"
    unfolding l using ls by (auto simp: user_line_Nil)
  show "clean (end_line (join [LF] ls))" unfolding clean_def l using ls assms by auto
qed

lemma end_line_idem: "end_line (end_line s) = end_line s"
  by (auto simp: end_line_def ends_with_snoc)

lemma include_added_spec:
  assumes "clean s" and il: "LF \<notin> set il" "CR \<notin> set il" "il \<noteq> []" and t: "trim il = il" and u: "\<not> user_line matches il"
    and new: "include_added matches il s = Some s'"
  shows "il \<in> set (lines s') \<and> filter (user_line matches) (lines s') = filter (user_line matches) (lines s)"
proof -
  obtain out rep drp where rw: "rewrite_includes matches il False (lines s) = (out, rep, drp)"
    by (cases "rewrite_includes matches il False (lines s)") auto
  have out: "\<forall>l \<in> set out. LF \<notin> set l \<and> CR \<notin> set l"
    using rewrite_lines_from [of _ matches il False "lines s"] rw il assms(1) lines_no_lf by (force simp: clean_def)
  note fo = filter_user_join(1) [OF out, of matches] filter_user_join(2,3) [OF out]
  have ko: "filter (user_line matches) out = filter (user_line matches) (lines s)"
    using rewrite_keeps_user [OF u, of False "lines s"] rw by simp
  show ?thesis
  proof (cases rep)
    case True
    then have "il \<in> set out" using rewrite_replaced [of matches il False "lines s"] rw by simp
    then show ?thesis using True new rw fo(1) fo(2) [OF _ il(3)] ko by (auto simp: include_added_def split: if_splits)
  next
    case False
    define base where "base = (if drp then join [LF] out else s)"
    have s': "s' = end_line base @ [LF] @ SSHWARDEN_INCLUDE_MARKER @ [LF] @ il @ [LF]"
      using False new rw by (simp add: include_added_def base_def split: if_splits)
    have base: "clean (end_line base)" "filter (user_line matches) (lines (end_line base)) = filter (user_line matches) (lines s)"
      using fo ko assms(1) lines_end_line [OF assms(1)] by (auto simp: base_def clean_def)
    then show ?thesis
      using lines_appended [OF base(1) il(1,2)] u
      unfolding s' end_line_idem by (simp add: user_line_Nil marker_not_user)
  qed
qed

lemma include_added_twice:
  assumes "il \<in> set (lines s)" and "trim il = il"
  shows "include_added matches il s = None"
  using assms by (auto simp: include_added_def has_line_def list_ex_iff)

lemma pop_marker_user: "filter (user_line matches) (pop_marker kept) = filter (user_line matches) kept"
  by (induction kept rule: pop_marker.induct) (auto simp: user_line_def)

lemma set_pop_marker: "set (pop_marker kept) \<subseteq> set kept"
  by (induction kept rule: pop_marker.induct) auto

lemma remove_keeps_user:
  "filter (user_line matches) (snd (remove_includes matches ls skip rm kept))
     = filter (user_line matches) (rev kept) @ filter (user_line matches) ls"
proof (induction matches ls skip rm kept rule: remove_includes.induct)
  case (2 matches line ls skip rm kept)
  have p: "filter (user_line matches) (rev (pop_marker kept)) = filter (user_line matches) (rev kept)"
    using pop_marker_user [of matches kept] by (simp flip: rev_filter)
  show ?case
  proof (cases "trim line = SSHWARDEN_INCLUDE_MARKER")
    case True
    then show ?thesis using 2(1) by (simp add: user_line_def)
  next
    case False
    show ?thesis
    proof (cases "matches (trim line) \<or> skip \<and> is_ssh_include_directive (trim line)")
      case True
      then have "\<not> user_line matches line" by (auto simp: user_line_def)
      then show ?thesis using 2(2) [OF refl False True] False True p by (cases skip) (simp_all add: Let_def)
    next
      case no: False
      then show ?thesis using 2(3) [OF refl False no] False by (auto simp: Let_def)
    qed
  qed
qed simp

lemma remove_lines_from: "l \<in> set (snd (remove_includes matches ls skip rm kept)) \<Longrightarrow> l \<in> set ls \<union> set kept"
proof (induction matches ls skip rm kept rule: remove_includes.induct)
  case (2 matches line ls skip rm kept)
  then show ?case using set_pop_marker [of kept] by (auto simp: Let_def split: if_splits)
qed simp

lemma include_removed_keeps_user:
  assumes "clean s" and "include_removed matches s = Some s'"
  shows "filter (user_line matches) (lines s') = filter (user_line matches) (lines s)"
proof -
  let ?kept = "snd (remove_includes matches (lines s) False False [])"
  have s': "s' = end_line (join [LF] ?kept)"
    using assms(2) by (auto simp: include_removed_def split: prod.splits if_splits)
  have "\<forall>l \<in> set ?kept. LF \<notin> set l \<and> CR \<notin> set l"
    using remove_lines_from [of _ matches "lines s" False False "[]"] assms(1) lines_no_lf by (force simp: clean_def)
  from filter_user_join(1) [OF this, of matches] show ?thesis
    using remove_keeps_user [of matches "lines s" False False "[]"] s' by simp
qed

lemma remove_plain:
  "\<forall>l \<in> set ls. trim l \<noteq> SSHWARDEN_INCLUDE_MARKER \<and> \<not> matches (trim l) \<Longrightarrow>
     remove_includes matches (ls @ ks) False rm kept = remove_includes matches ks False rm (rev ls @ kept)"
  by (induction ls arbitrary: kept) (auto simp: Let_def)

section \<open>The line itself\<close>

lemma quote_form: "\<exists>m. ''Include '' @ quote_ssh_config_arg v = ''Include '' @ CHR 0x22 # m @ [CHR 0x22]"
  by (simp add: quote_ssh_config_arg_def)

lemma not_cont_ascii: "(of_char c :: nat) < 128 \<Longrightarrow> \<not> is_cont c"
  by (simp add: is_cont_def)

lemma include_line_trimmed: "trim (''Include '' @ quote_ssh_config_arg v) = ''Include '' @ quote_ssh_config_arg v"
proof -
  let ?q = "''nclude '' @ CHR 0x22 # concat (map escape_char v)"
  have e: "''Include '' @ quote_ssh_config_arg v = (CHR ''I'' # ?q) @ [CHR 0x22]"
    by (simp add: quote_ssh_config_arg_def)
  have "rust_chars ((CHR ''I'' # ?q) @ [CHR 0x22]) = rust_chars (CHR ''I'' # ?q) @ rust_chars [CHR 0x22]"
    by (rule rust_chars_append) (simp add: not_cont_ascii)
  moreover have "rust_chars (CHR ''I'' # ?q) = ''I'' # rust_chars ?q"
    by (rule rust_chars_Cons_nocont) (simp add: not_cont_ascii)
  ultimately show ?thesis
    unfolding e by (intro trim_trimmed) (simp add: is_whitespace_def unicode_spaces_def)
qed

lemma include_line_directive: "is_ssh_include_directive (''Include '' @ quote_ssh_config_arg v)"
proof -
  let ?q = "quote_ssh_config_arg v"
  have e: "rust_chars (''Include'' @ CHR '' '' # ?q) = rust_chars ''Include'' @ '' '' # rust_chars ?q"
    using rust_chars_append [of "CHR '' '' # ?q" "''Include''"] rust_chars_Cons_nocont [of ?q "CHR '' ''"]
    by (simp add: quote_ssh_config_arg_def not_cont_ascii)
  have w: "split_ws (rust_chars ''Include'') = [''Include'']" by code_simp
  have "split_ws (rust_chars (''Include'' @ CHR '' '' # ?q)) = ''Include'' # split_ws (rust_chars ?q)"
    unfolding e split_ws_append_space [OF is_whitespace_space] w by simp
  then show ?thesis by (simp add: is_ssh_include_directive_def split_whitespace_def)
qed

lemma include_line_facts:
  fixes home path st
  defines "il \<equiv> include_line_with_style home path st"
  shows "trim il = il" and "il \<noteq> []" and "\<not> user_line matches il"
    and "line_matches_current_or_legacy_sshwarden_include home il path"
proof -
  obtain v where v: "il = ''Include '' @ quote_ssh_config_arg v"
    unfolding il_def include_line_with_style_def path_arg_with_style_def by blast
  show t: "trim il = il" unfolding v by (rule include_line_trimmed)
  show "il \<noteq> []" by (simp add: v)
  show "\<not> user_line matches il" using include_line_directive [of v] t v by (simp add: user_line_def)
  have "il = include_line path \<or> il = include_line_with_style home path HomeRelative"
    by (cases st) (auto simp: il_def include_line_def include_line_with_style_def path_arg_with_style_def path_arg_def)
  with t show "line_matches_current_or_legacy_sshwarden_include home il path"
    by (auto simp: line_matches_current_or_legacy_sshwarden_include_def line_matches_sshwarden_include_def Let_def)
qed

lemma blank_not_match: "\<not> line_matches_current_or_legacy_sshwarden_include home [] path"
  by (auto simp: line_matches_current_or_legacy_sshwarden_include_def line_matches_sshwarden_include_def Let_def
      include_line_def include_line_with_style_def legacy_unquoted_include_line_def split: option.splits)

definition sshwarden_include :: "string option \<Rightarrow> string \<Rightarrow> string \<Rightarrow> bool" where
  "sshwarden_include home path = (\<lambda>l. line_matches_current_or_legacy_sshwarden_include home l path)"

text \<open>A configuration that SSHWarden has not touched.\<close>

definition untouched :: "(string \<Rightarrow> bool) \<Rightarrow> string \<Rightarrow> bool" where
  "untouched matches s \<longleftrightarrow> (\<forall>l \<in> set (lines s). trim l \<noteq> SSHWARDEN_INCLUDE_MARKER \<and> \<not> matches (trim l))"

lemma marker_trimmed: "trim SSHWARDEN_INCLUDE_MARKER = SSHWARDEN_INCLUDE_MARKER"
  unfolding SSHWARDEN_INCLUDE_MARKER_def by code_simp

lemma install_uninstall:
  assumes c: "clean s" and u: "untouched matches s" and il: "LF \<notin> set il" "CR \<notin> set il" "il \<noteq> []"
    and t: "trim il = il" "matches il" "\<not> matches []" "il \<noteq> SSHWARDEN_INCLUDE_MARKER"
  shows "\<exists>s1. include_added matches il s = Some s1 \<and> include_removed matches s1 = Some (terminated (lines s))"
proof -
  define s1 where "s1 = end_line s @ [LF] @ SSHWARDEN_INCLUDE_MARKER @ [LF] @ il @ [LF]"
  have "\<not> has_line il s" using u t(2) by (auto simp: has_line_def list_ex_iff untouched_def)
  moreover have "rewrite_includes matches il False (lines s) = (lines s, False, False)"
    using u by (intro rewrite_id) (simp add: untouched_def)
  ultimately have a: "include_added matches il s = Some s1" by (simp add: include_added_def s1_def)
  have l1: "lines s1 = lines s @ [[], SSHWARDEN_INCLUDE_MARKER, il]"
    unfolding s1_def by (rule lines_appended [OF c il(1,2)])
  have mk: "SSHWARDEN_INCLUDE_MARKER \<noteq> []" by (simp add: SSHWARDEN_INCLUDE_MARKER_def)
  have "remove_includes matches (lines s1) False False []
      = remove_includes matches [[], SSHWARDEN_INCLUDE_MARKER, il] False False (rev (lines s))"
    unfolding l1 using remove_plain [of "lines s" matches] u by (simp add: untouched_def)
  also have "\<dots> = (True, lines s @ [[]])"
    using t mk by (simp add: Let_def marker_trimmed)
  finally have "include_removed matches s1 = Some (end_line (terminated (lines s)))"
    by (simp add: include_removed_def join_snoc_Nil)
  moreover have "end_line (terminated (lines s)) = terminated (lines s)"
    by (cases "lines s" rule: rev_cases) (auto simp: end_line_def terminated_def ends_with_snoc)
  ultimately show ?thesis using a by simp
qed

lemma join_Cons_hd: "join sp ((a # x) # xs) = a # join sp (x # xs)"
  by (cases xs) auto

lemma terminated_lines: "s = [] \<or> ends_with [LF] s \<Longrightarrow> CR \<notin> set s \<Longrightarrow> terminated (lines s) = s"
proof (cases "s = []")
  case False
  assume "s = [] \<or> ends_with [LF] s" and cr: "CR \<notin> set s"
  then obtain t where s: "s = t @ [LF]" using False by (auto simp: ends_with_snoc)
  have j: "join [LF] (split_on LF t) = t"
    by (induction t) (auto simp: join_Cons_hd split: list.splits)
  have "\<forall>l \<in> set (split_on LF t). CR \<notin> set l" 
    using cr s by (induction t arbitrary: s) (auto split: list.splits if_splits)
  then have "lines s = split_on LF t" using s lines_snoc [of t "[]"] by (simp add: map_idI strip_cr_id)
  then show ?thesis using join_terminated [OF split_on_nonempty, of LF t] j s by simp
qed (simp add: terminated_def)

section \<open>Properties\<close>


definition demo_config_text :: string where
  "demo_config_text = ''Host a'' @ [LF] @ ''  Port 1'' @ [LF]"

lemma demo_config_lines: "lines demo_config_text = [''Host a'', ''  Port 1'']"
  by code_simp


text \<open>
  Uninstalling undoes an install. On a configuration with no trace of SSHWarden, an install
  followed by an uninstall gives back its lines; a configuration that ends in a line feed and has no
  carriage return comes back unchanged.
\<close>

theorem uninstall_undoes_install:
  assumes "clean s" and "untouched (sshwarden_include home include_path) s"
    and "LF \<notin> set (include_line_with_style home include_path st)"
    and "CR \<notin> set (include_line_with_style home include_path st)"
  shows "\<exists>s1. write_sshwarden_include_line home (Inr st) (Inr ()) Pw_Ok config_path include_path (Text s) = (Inr (), Text s1)
      \<and> remove_sshwarden_include_line home (Inr ()) Pw_Ok config_path include_path (Text s1)
          = (Inr True, Text (terminated (lines s)))
      \<and> ((s = [] \<or> ends_with [LF] s) \<and> CR \<notin> set s \<longrightarrow> terminated (lines s) = s)"
proof -
  let ?il = "include_line_with_style home include_path st" and ?m = "sshwarden_include home include_path"
  note il = include_line_facts [where home = home and path = include_path and st = st]
  have "?il \<noteq> SSHWARDEN_INCLUDE_MARKER"
    by (simp add: include_line_with_style_def SSHWARDEN_INCLUDE_MARKER_def)
  then obtain s1 where "include_added ?m ?il s = Some s1" "include_removed ?m s1 = Some (terminated (lines s))"
    using install_uninstall [OF assms(1,2,3,4) il(2,1)] il(4) blank_not_match by (auto simp: sshwarden_include_def)
  then show ?thesis
    using terminated_lines [of s]
    by (intro exI [of _ s1]) (simp add: write_sshwarden_include_line_def remove_sshwarden_include_line_def
        write_private_file_def sshwarden_include_def read_or_default_def)
qed

theorem uninstall_undoes_install_witness:
  "\<exists>s1. write_sshwarden_include_line None (Inr Absolute) (Inr ()) Pw_Ok ''/h/.ssh/config'' ''/h/sw'' (Text demo_config_text)
     = (Inr (), Text s1)
   \<and> remove_sshwarden_include_line None (Inr ()) Pw_Ok ''/h/.ssh/config'' ''/h/sw'' (Text s1) = (Inr True, Text demo_config_text)"
proof -
  have "clean demo_config_text" by (simp add: clean_def demo_config_lines)
  moreover have "untouched (sshwarden_include None ''/h/sw'') demo_config_text"
    unfolding untouched_def demo_config_lines by code_simp
  moreover have "LF \<notin> set (include_line_with_style None ''/h/sw'' Absolute)" "CR \<notin> set (include_line_with_style None ''/h/sw'' Absolute)"
    by code_simp+
  moreover have "ends_with [LF] demo_config_text" "CR \<notin> set demo_config_text"
    by (simp_all add: demo_config_text_def ends_with_snoc)
  ultimately show ?thesis
    using uninstall_undoes_install [of demo_config_text None "''/h/sw''" Absolute "''/h/.ssh/config''"] by auto
qed

text \<open>
  A configuration that is there but cannot be read as text counts as empty, so that an install
  replaces it: the user's lines are gone.
\<close>

lemma unreadable_config_replaced:
  "write_sshwarden_include_line home (Inr st) (Inr ()) Pw_Ok config_path include_path Not_Text
     = (Inr (), Text ([LF] @ SSHWARDEN_INCLUDE_MARKER @ [LF] @ include_line_with_style home include_path st @ [LF]))"
  by (simp add: write_sshwarden_include_line_def read_or_default_def include_added_def has_line_def end_line_def
      write_private_file_def)

end
