(* ===== verification/Storage_Layout.thy ===== *)
theory Storage_Layout
  imports Stores Path_Safety Ssh_Config Naming
begin

text \<open>
  Where SSHWarden keeps its files, \<open>crates/sshwarden-config/src/lib.rs\<close>: the shared data directory, the
  directory of this device, the machine-local state directory, the device id, and the paths derived
  from them, on Linux. The environment (its variables, valid UTF-8 where they are set), the file
  system, the output of the command \<open>hostname\<close> and the debug rendering of a string in an error
  message are the parameter \<open>sys_env\<close>; the process-wide \<open>OnceLock\<close> cells are the state
  \<open>resolved\<close>.
\<close>

section \<open>Configuration\<close>

record StorageConfig =
  portable :: bool
  portable_dir :: "string option"
  multi_device :: bool
  cfg_device_id :: string
  local_dir :: "string option"

record SshConfigConfig =
  managed_path :: "string option"
  path_style :: SshConfigPathStyle

record Config =
  ssh_config :: SshConfigConfig
  storage :: StorageConfig
  max_file_bytes :: u64

definition default_log_max_file_bytes :: u64 where
  "default_log_max_file_bytes = 5 * 1024 * 1024"

definition config_default :: Config where
  "config_default =
     \<lparr>ssh_config = \<lparr>managed_path = None, path_style = Absolute\<rparr>,
      storage = \<lparr>portable = False, portable_dir = None, multi_device = False, cfg_device_id = [], local_dir = None\<rparr>,
      max_file_bytes = default_log_max_file_bytes\<rparr>"

record sys_env =
  env_var :: "string \<Rightarrow> string option"
  exe_dir :: "string result"
  config_at :: "string \<Rightarrow> Config stored"
  hostname_output :: "string option"
  str_debug :: "string \<Rightarrow> string"

record resolved =
  r_shared :: "string option"
  r_device :: "string option"
  r_local :: "string option"
  r_multi :: "bool option"
  r_id :: "string option"

definition nothing_resolved :: resolved where
  "nothing_resolved = \<lparr>r_shared = None, r_device = None, r_local = None, r_multi = None, r_id = None\<rparr>"

text \<open>\<open>OnceLock::set\<close> on a cell: the first value stays.\<close>

definition set_once :: "'a option \<Rightarrow> 'a \<Rightarrow> 'a option" where
  "set_once cell x = option_or cell (Some x)"

type_synonym 'a resolver = "resolved \<Rightarrow> 'a result \<times> resolved"

definition pure_r :: "'a result \<Rightarrow> 'a resolver" where
  "pure_r x st = (x, st)"

definition then_r :: "'a resolver \<Rightarrow> ('a \<Rightarrow> 'b resolver) \<Rightarrow> 'b resolver" where
  "then_r f g st = (case f st of (Inl e, st') \<Rightarrow> (Inl e, st') | (Inr x, st') \<Rightarrow> g x st')"

section \<open>Environment\<close>

definition env_path :: "sys_env \<Rightarrow> string \<Rightarrow> string option" where
  "env_path E name = option_filter (\<lambda>v. v \<noteq> []) (env_var E name)"

definition env_bool :: "sys_env \<Rightarrow> string \<Rightarrow> bool" where
  "env_bool E name =
     (case env_var E name of Some v \<Rightarrow> v \<in> {''1'', ''true'', ''TRUE'', ''yes'', ''YES''} | None \<Rightarrow> False)"

definition home_dir :: "sys_env \<Rightarrow> string result" where
  "home_dir E = ok_or ''HOME environment variable not set'' (env_var E ''HOME'')"

definition home_dir_any :: "sys_env \<Rightarrow> string result" where
  "home_dir_any E =
     ok_or ''HOME or USERPROFILE environment variable not set''
       (option_or (env_var E ''HOME'') (env_var E ''USERPROFILE''))"

definition platform_config_dir :: "sys_env \<Rightarrow> string result" where
  "platform_config_dir E =
     (case env_path E ''XDG_CONFIG_HOME'' of
        Some dir \<Rightarrow> Inr (path_join dir ''sshwarden'')
      | None \<Rightarrow> bind_res (home_dir E) (\<lambda>home. Inr (path_join (path_join home ''.config'') ''sshwarden'')))"

definition platform_local_dir :: "sys_env \<Rightarrow> string result" where
  "platform_local_dir E =
     (case env_path E ''XDG_STATE_HOME'' of
        Some dir \<Rightarrow> Inr (path_join dir ''sshwarden'')
      | None \<Rightarrow> bind_res (home_dir E) (\<lambda>home.
          Inr (path_join (path_join (path_join home ''.local'') ''state'') ''sshwarden'')))"

section \<open>Device ids\<close>

definition segment_char :: "string \<Rightarrow> char option" where
  "segment_char g =
     (case g of
        [c] \<Rightarrow> if is_ascii_alphanumeric c \<or> c = CHR ''_'' \<or> c = CHR ''.'' then Some c else None
      | _ \<Rightarrow> None)"

fun segment_loop :: "string list \<Rightarrow> bool \<Rightarrow> string \<Rightarrow> string" where
  "segment_loop [] last_dash out = out"
| "segment_loop (g # gs) last_dash out =
     (case segment_char g of
        Some c \<Rightarrow> segment_loop gs False (out @ [c])
      | None \<Rightarrow> if \<not> last_dash then segment_loop gs True (out @ ''-'') else segment_loop gs last_dash out)"

definition sanitize_path_segment :: "string \<Rightarrow> bool \<Rightarrow> string" where
  "sanitize_path_segment val lower_case =
     (let chars = (if lower_case then concat (map lower_scalar (rust_chars (trim val))) else rust_chars (trim val));
          sanitized = trim_dashes (segment_loop chars False [])
      in if sanitized = [] \<or> list_all (\<lambda>c. c = CHR ''.'') sanitized then ''device'' else sanitized)"

definition sanitize_device_id :: "string \<Rightarrow> string" where
  "sanitize_device_id val = sanitize_path_segment val True"

definition sanitize_instance_name :: "string \<Rightarrow> string" where
  "sanitize_instance_name val = sanitize_path_segment val False"

definition hostname_for_device_id :: "sys_env \<Rightarrow> string" where
  "hostname_for_device_id E =
     unwrap_or
       (unwrap_or ''device'' (option_filter (\<lambda>s. s \<noteq> []) (map_option trim (hostname_output E))))
       (option_filter (\<lambda>s. trim s \<noteq> []) (option_or (env_var E ''COMPUTERNAME'') (env_var E ''HOSTNAME'')))"

definition auto_device_id :: "sys_env \<Rightarrow> string" where
  "auto_device_id E =
     (let user = unwrap_or ''user'' (option_or (env_var E ''USERNAME'') (env_var E ''USER''))
      in sanitize_device_id (hostname_for_device_id E @ ''-'' @ user))"

definition current_device_id_from_config :: "sys_env \<Rightarrow> Config \<Rightarrow> string result" where
  "current_device_id_from_config E config =
     (case option_filter (\<lambda>v. v \<noteq> []) (map_option trim (env_var E ''SSHWARDEN_DEVICE_ID'')) of
        Some i \<Rightarrow> Inr (sanitize_device_id i)
      | None \<Rightarrow>
          let configured = trim (cfg_device_id (storage config))
          in if configured \<noteq> [] \<and> \<not> eq_ignore_ascii_case configured ''auto''
             then Inr (sanitize_device_id configured)
             else Inr (auto_device_id E))"

section \<open>Directories\<close>

definition probe_portable_from_exe :: "sys_env \<Rightarrow> string option" where
  "probe_portable_from_exe E =
     Option.bind (res_ok (exe_dir E)) (\<lambda>exe.
       case config_at E (path_join exe ''config.toml'') of
         Present cfg \<Rightarrow>
           if \<not> portable (storage cfg) then None
           else (case option_filter (\<lambda>s. s \<noteq> []) (map_option trim (portable_dir (storage cfg))) of
                   Some dir \<Rightarrow> Some dir
                 | None \<Rightarrow> Some exe)
       | _ \<Rightarrow> None)"

definition resolve_shared_data_dir :: "sys_env \<Rightarrow> string result" where
  "resolve_shared_data_dir E =
     (case env_path E ''SSHWARDEN_HOME'' of
        Some dir \<Rightarrow> Inr dir
      | None \<Rightarrow>
          if env_bool E ''SSHWARDEN_PORTABLE'' then exe_dir E
          else (case probe_portable_from_exe E of
                  Some dir \<Rightarrow> Inr dir
                | None \<Rightarrow> platform_config_dir E))"

definition shared_data_dir :: "sys_env \<Rightarrow> string resolver" where
  "shared_data_dir E st =
     (case r_shared st of
        Some dir \<Rightarrow> (Inr dir, st)
      | None \<Rightarrow>
          (case resolve_shared_data_dir E of
             Inl e \<Rightarrow> (Inl e, st)
           | Inr dir \<Rightarrow> (Inr dir, st\<lparr>r_shared := set_once (r_shared st) dir\<rparr>)))"

definition config_path :: "sys_env \<Rightarrow> string resolver" where
  "config_path E = then_r (shared_data_dir E) (\<lambda>dir. pure_r (Inr (path_join dir ''config.toml'')))"

definition load_config :: "sys_env \<Rightarrow> Config resolver" where
  "load_config E =
     then_r (config_path E) (\<lambda>path. pure_r
       (case config_at E path of
          Absent \<Rightarrow> Inr config_default
        | Unreadable \<Rightarrow> Inl (''Failed to read config file: '' @ path)
        | Malformed \<Rightarrow> Inl (''Failed to parse config file: '' @ path)
        | Present config \<Rightarrow> Inr config))"

definition current_device_id :: "sys_env \<Rightarrow> string resolver" where
  "current_device_id E st =
     (case r_id st of
        Some i \<Rightarrow> (Inr i, st)
      | None \<Rightarrow>
          then_r (load_config E) (\<lambda>config.
          then_r (pure_r (current_device_id_from_config E config)) (\<lambda>i st'.
            (Inr i, st'\<lparr>r_id := set_once (r_id st') i\<rparr>))) st)"

definition multi_device_enabled :: "sys_env \<Rightarrow> bool resolver" where
  "multi_device_enabled E st =
     (case r_multi st of
        Some v \<Rightarrow> (Inr v, st)
      | None \<Rightarrow>
          then_r (load_config E) (\<lambda>config st'.
            (Inr (multi_device (storage config)), st'\<lparr>r_multi := set_once (r_multi st') (multi_device (storage config))\<rparr>)) st)"

definition single_segment :: "string \<Rightarrow> bool" where
  "single_segment i = (case components i of [Normal _] \<Rightarrow> True | _ \<Rightarrow> False)"

definition invalid_device_id :: "sys_env \<Rightarrow> string \<Rightarrow> string" where
  "invalid_device_id E i =
     ''Invalid device id '' @ str_debug E i @ '': must be a single path segment without separators or ''
     @ [CHR 0x27] @ ''.'' @ [CHR 0x27] @ ''/'' @ [CHR 0x27] @ ''..'' @ [CHR 0x27]"

definition device_data_dir :: "sys_env \<Rightarrow> string resolver" where
  "device_data_dir E st =
     (case r_device st of
        Some dir \<Rightarrow> (Inr dir, st)
      | None \<Rightarrow>
          then_r (shared_data_dir E) (\<lambda>shared.
          then_r (multi_device_enabled E) (\<lambda>multi.
          then_r (if multi
                  then then_r (current_device_id E) (\<lambda>i. pure_r
                         (if \<not> single_segment i then Inl (invalid_device_id E i)
                          else Inr (path_join (path_join shared ''devices'') i)))
                  else pure_r (Inr shared)) (\<lambda>dir st'.
            (Inr dir, st'\<lparr>r_device := set_once (r_device st') dir\<rparr>)))) st)"

definition instance_key_with :: "string \<Rightarrow> string option \<Rightarrow> string" where
  "instance_key_with shared dev =
     (case dev of
        Some i \<Rightarrow> sanitize_device_id i
      | None \<Rightarrow>
          (case file_name shared of
             None \<Rightarrow> ''default''
           | Some name \<Rightarrow> if trim name = [] then ''default'' else sanitize_instance_name name))"

definition expand_home_path_with_home :: "sys_env \<Rightarrow> string \<Rightarrow> string \<Rightarrow> string result" where
  "expand_home_path_with_home E path home =
     (let trimmed = trim path
      in if trimmed = [] then Inl ''configured path is empty''
         else if trimmed = ''~'' then Inr home
         else (case option_or (strip_prefix ''~/'' trimmed) (strip_prefix [CHR ''~'', CHR 0x5C] trimmed) of
                 Some rest \<Rightarrow> Inr (path_join home rest)
               | None \<Rightarrow>
                   if starts_with ''~'' trimmed then Inl (''only '' @ [CHR 0x27] @ ''~'' @ [CHR 0x27] @ '' and '' @ [CHR 0x27] @ ''~/...'' @ [CHR 0x27] @ '' are supported in configured paths: '' @ str_debug E trimmed)
                   else Inr trimmed))"

definition resolve_local_state_dir_with ::
  "sys_env \<Rightarrow> string option \<Rightarrow> Config \<Rightarrow> string \<Rightarrow> string \<Rightarrow> string option \<Rightarrow> string \<Rightarrow> string result" where
  "resolve_local_state_dir_with E env_local_home config shared platform_local dev home =
     (case env_local_home of
        Some dir \<Rightarrow> Inr dir
      | None \<Rightarrow>
          (case option_filter (\<lambda>v. v \<noteq> []) (map_option trim (local_dir (storage config))) of
             Some configured \<Rightarrow>
               bind_res (expand_home_path_with_home E configured home) (\<lambda>expanded.
                 Inr (if is_absolute expanded then expanded else path_join shared expanded))
           | None \<Rightarrow> Inr (path_join platform_local (instance_key_with shared dev))))"

definition local_state_dir :: "sys_env \<Rightarrow> string resolver" where
  "local_state_dir E st =
     (case r_local st of
        Some dir \<Rightarrow> (Inr dir, st)
      | None \<Rightarrow>
          then_r (load_config E) (\<lambda>config.
          then_r (shared_data_dir E) (\<lambda>shared.
          then_r (pure_r (platform_local_dir E)) (\<lambda>platform_local.
          then_r (if multi_device (storage config)
                  then then_r (current_device_id E) (\<lambda>i. pure_r (Inr (Some i)))
                  else pure_r (Inr None)) (\<lambda>dev.
          then_r (pure_r (bind_res (home_dir_any E) (\<lambda>home.
                    resolve_local_state_dir_with E (env_path E ''SSHWARDEN_LOCAL_HOME'') config shared platform_local dev home)))
            (\<lambda>dir st'. (Inr dir, st'\<lparr>r_local := set_once (r_local st') dir\<rparr>)))))) st)"

section \<open>Derived paths\<close>

definition expand_config_path :: "sys_env \<Rightarrow> string \<Rightarrow> string resolver" where
  "expand_config_path E path =
     then_r (pure_r (bind_res (home_dir_any E) (expand_home_path_with_home E path))) (\<lambda>expanded.
       if is_absolute expanded then pure_r (Inr expanded)
       else then_r (shared_data_dir E) (\<lambda>dir. pure_r (Inr (path_join dir expanded))))"

definition managed_ssh_config_path :: "sys_env \<Rightarrow> Config \<Rightarrow> string resolver" where
  "managed_ssh_config_path E config =
     (case map_option trim (managed_path (ssh_config config)) of
        Some p \<Rightarrow>
          if p = [] then pure_r (Inl ''ssh_config.managed_path is present but empty'')
          else expand_config_path E p
      | None \<Rightarrow>
          if multi_device (storage config)
          then then_r (shared_data_dir E) (\<lambda>dir. pure_r (Inr (path_join dir ''sshwarden_config'')))
          else pure_r (bind_res (exe_dir E) (\<lambda>dir. Inr (path_join dir ''sshwarden_config''))))"

definition legacy_home_managed_ssh_config_path :: "sys_env \<Rightarrow> string result" where
  "legacy_home_managed_ssh_config_path E =
     bind_res (home_dir_any E) (\<lambda>home. Inr (path_join (path_join home ''.ssh'') ''sshwarden_config''))"

definition user_ssh_config_path :: "sys_env \<Rightarrow> string result" where
  "user_ssh_config_path E =
     bind_res (home_dir_any E) (\<lambda>home. Inr (path_join (path_join home ''.ssh'') ''config''))"

definition runtime_dir :: "sys_env \<Rightarrow> string resolver" where
  "runtime_dir E =
     (case env_path E ''SSHWARDEN_RUNTIME_DIR'' of
        Some dir \<Rightarrow> pure_r (Inr dir)
      | None \<Rightarrow>
          (case env_path E ''XDG_RUNTIME_DIR'' of
             Some dir \<Rightarrow> pure_r (Inr (path_join dir ''sshwarden''))
           | None \<Rightarrow> then_r (local_state_dir E) (\<lambda>dir. pure_r (Inr (path_join dir ''run'')))))"

definition default_agent_socket_path :: "sys_env \<Rightarrow> string resolver" where
  "default_agent_socket_path E = then_r (runtime_dir E) (\<lambda>dir. pure_r (Inr (path_join dir ''agent.sock'')))"

definition default_control_socket_path :: "sys_env \<Rightarrow> string resolver" where
  "default_control_socket_path E = then_r (runtime_dir E) (\<lambda>dir. pure_r (Inr (path_join dir ''control.sock'')))"

definition log_max_file_bytes :: "sys_env \<Rightarrow> resolved \<Rightarrow> u64 \<times> resolved" where
  "log_max_file_bytes E st =
     (case Option.bind (option_filter (\<lambda>v. v \<noteq> []) (map_option trim (env_var E ''SSHWARDEN_LOG_MAX_BYTES''))) (parse_unsigned 64) of
        Some n \<Rightarrow> (word_of_nat n, st)
      | None \<Rightarrow>
          (case load_config E st of
             (Inl _, st') \<Rightarrow> (default_log_max_file_bytes, st')
           | (Inr config, st') \<Rightarrow> (max_file_bytes config, st')))"

section \<open>Device ids are names\<close>

definition segment_ok :: "char \<Rightarrow> bool" where
  "segment_ok c \<longleftrightarrow> is_ascii_alphanumeric c \<or> c = CHR ''_'' \<or> c = CHR ''.'' \<or> c = CHR ''-''"

lemma segment_loop_ok:
  "\<forall>c \<in> set out. segment_ok c \<Longrightarrow> \<forall>c \<in> set (segment_loop gs b out). segment_ok c"
proof (induction gs b out rule: segment_loop.induct)
  case (2 g gs b out)
  have c: "segment_ok c" if "segment_char g = Some c" for c
    using that by (auto simp: segment_char_def segment_ok_def split: list.splits if_splits)
  have dash: "segment_ok (CHR ''-'')" by (simp add: segment_ok_def)
  show ?case
  proof (cases "segment_char g")
    case None
    have "\<forall>c \<in> set (out @ ''-''). segment_ok c" using 2(4) dash by auto
    then show ?thesis using 2(1) [OF None] 2(2) [OF None _ 2(4)] None
      by (cases b) (simp_all only: segment_loop.simps option.case not_True_eq_False not_False_eq_True if_True if_False True_implies_equals)
  next
    case (Some x)
    then show ?thesis using 2(3) [OF Some] 2(4) c [OF Some] by simp
  qed
qed simp

lemma sanitize_name_ok: "name_ok (sanitize_path_segment v b)"
proof -
  let ?gs = "if b then concat (map lower_scalar (rust_chars (trim v))) else rust_chars (trim v)"
  let ?s = "trim_dashes (segment_loop ?gs False [])"
  have "\<forall>c \<in> set ?s. segment_ok c"
    using segment_loop_ok [of "[]" ?gs False] set_trim_dashes [of "segment_loop ?gs False []"] by auto
  moreover have "\<not> segment_ok sep" by (simp add: segment_ok_def is_ascii_alphanumeric_def)
  ultimately have "sep \<notin> set ?s" by auto
  moreover have "name_ok ''device''" by (simp add: name_ok_def)
  ultimately show ?thesis
    by (auto simp: sanitize_path_segment_def Let_def name_ok_def)
qed

lemma components_name: "name_ok s \<Longrightarrow> components s = [Normal s]"
  using name_not_absolute [of s] body_components_name [of s]
  by (auto simp: components_def head_components_def segments_name name_ok_def)

lemma device_id_ok: "current_device_id_from_config E c = Inr i \<Longrightarrow> name_ok i"
  using sanitize_name_ok
  by (auto simp: current_device_id_from_config_def sanitize_device_id_def auto_device_id_def Let_def split: option.splits if_splits)

section \<open>What a resolution leaves behind\<close>

lemma then_r_Inr: "then_r f g st = (Inr y, st') \<longleftrightarrow> (\<exists>x st1. f st = (Inr x, st1) \<and> g x st1 = (Inr y, st'))"
  by (auto simp: then_r_def split: prod.splits sum.splits)

lemma then_r_Inl:
  "then_r f g st = (Inl e, st') \<longleftrightarrow> f st = (Inl e, st') \<or> (\<exists>x st1. f st = (Inr x, st1) \<and> g x st1 = (Inl e, st'))"
  by (auto simp: then_r_def split: prod.splits sum.splits)

lemma pure_r_iff [simp]: "pure_r x st = (y, st') \<longleftrightarrow> y = x \<and> st' = st"
  by (auto simp: pure_r_def)

lemma set_once_simps [simp]: "set_once None x = Some x" "set_once (Some y) x = Some y"
  by (simp_all add: set_once_def)

definition keeps :: "resolved \<Rightarrow> resolved \<Rightarrow> bool" where
  "keeps st st' \<longleftrightarrow>
     (\<forall>v. r_shared st = Some v \<longrightarrow> r_shared st' = Some v) \<and> (\<forall>v. r_device st = Some v \<longrightarrow> r_device st' = Some v)
     \<and> (\<forall>v. r_local st = Some v \<longrightarrow> r_local st' = Some v) \<and> (\<forall>v. r_multi st = Some v \<longrightarrow> r_multi st' = Some v)
     \<and> (\<forall>v. r_id st = Some v \<longrightarrow> r_id st' = Some v)"

definition grows :: "'a resolver \<Rightarrow> bool" where
  "grows f \<longleftrightarrow> (\<forall>st. keeps st (snd (f st)))"

lemma keeps_refl [simp]: "keeps st st"
  by (simp add: keeps_def)

lemma keeps_trans: "keeps a b \<Longrightarrow> keeps b c \<Longrightarrow> keeps a c"
  by (simp add: keeps_def)

lemma grows_pure [simp]: "grows (pure_r x)"
  by (simp add: grows_def pure_r_def)

lemma grows_then:
  assumes "grows f" and "\<And>x. grows (g x)"
  shows "grows (then_r f g)"
  unfolding grows_def
proof
  fix st
  obtain x st1 where f: "f st = (x, st1)" by (cases "f st")
  then have 1: "keeps st st1" using assms(1) unfolding grows_def by (metis snd_conv)
  show "keeps st (snd (then_r f g st))"
  proof (cases x)
    case (Inl e)
    then show ?thesis using f 1 by (simp add: then_r_def)
  next
    case (Inr y)
    then have "snd (then_r f g st) = snd (g y st1)" using f by (simp add: then_r_def)
    then show ?thesis using 1 assms(2) keeps_trans unfolding grows_def by metis
  qed
qed

lemma grows_shared [simp]: "grows (shared_data_dir E)"
  by (auto simp: grows_def shared_data_dir_def keeps_def split: option.splits sum.splits)

lemma grows_load [simp]: "grows (load_config E)"
  by (simp add: load_config_def config_path_def grows_then)

lemma grows_set_id: "grows (\<lambda>st. (Inr i, st\<lparr>r_id := set_once (r_id st) i\<rparr>))"
  by (auto simp: grows_def keeps_def)

lemma grows_set_multi: "grows (\<lambda>st. (Inr i, st\<lparr>r_multi := set_once (r_multi st) i\<rparr>))"
  by (auto simp: grows_def keeps_def)

lemma grows_set_device: "grows (\<lambda>st. (Inr i, st\<lparr>r_device := set_once (r_device st) i\<rparr>))"
  by (auto simp: grows_def keeps_def)

lemma grows_set_local: "grows (\<lambda>st. (Inr i, st\<lparr>r_local := set_once (r_local st) i\<rparr>))"
  by (auto simp: grows_def keeps_def)

lemma grows_cached:
  assumes "grows f"
  shows "grows (\<lambda>st. case cell st of Some v \<Rightarrow> (Inr v, st) | None \<Rightarrow> f st)"
  using assms by (simp add: grows_def split: option.split)

lemma grows_id [simp]: "grows (current_device_id E)"
  unfolding current_device_id_def by (intro grows_cached grows_then grows_load grows_pure grows_set_id)

lemma grows_multi [simp]: "grows (multi_device_enabled E)"
  unfolding multi_device_enabled_def by (intro grows_cached grows_then grows_load grows_set_multi)

lemma grows_device [simp]: "grows (device_data_dir E)"
  unfolding device_data_dir_def
  by (intro grows_cached grows_then grows_shared grows_multi grows_set_device)
     (simp add: grows_then)

lemma grows_local [simp]: "grows (local_state_dir E)"
  unfolding local_state_dir_def
  by (intro grows_cached grows_then grows_load grows_shared grows_pure grows_set_local)
     (simp add: grows_then)

section \<open>The cells\<close>

datatype layout_call = SharedDir | DeviceDir | LocalDir | DeviceId | MultiDevice

definition show_flag :: "bool \<Rightarrow> string" where
  "show_flag v = (if v then ''true'' else ''false'')"

fun resolve_call :: "layout_call \<Rightarrow> sys_env \<Rightarrow> string resolver" where
  "resolve_call SharedDir E = shared_data_dir E"
| "resolve_call DeviceDir E = device_data_dir E"
| "resolve_call LocalDir E = local_state_dir E"
| "resolve_call DeviceId E = current_device_id E"
| "resolve_call MultiDevice E = then_r (multi_device_enabled E) (\<lambda>v. pure_r (Inr (show_flag v)))"

fun cell :: "layout_call \<Rightarrow> resolved \<Rightarrow> string option" where
  "cell SharedDir st = r_shared st"
| "cell DeviceDir st = r_device st"
| "cell LocalDir st = r_local st"
| "cell DeviceId st = r_id st"
| "cell MultiDevice st = map_option show_flag (r_multi st)"

fun resolve_all :: "(sys_env \<times> layout_call) list \<Rightarrow> resolved \<Rightarrow> (layout_call \<times> string result) list \<times> resolved" where
  "resolve_all [] st = ([], st)"
| "resolve_all ((E, c) # ops) st =
     (let (r, st1) = resolve_call c E st; (rs, st2) = resolve_all ops st1 in ((c, r) # rs, st2))"

lemma grows_call: "grows (resolve_call c E)"
  by (cases c) (simp_all add: grows_then)

lemma grows_all: "keeps st (snd (resolve_all ops st))"
proof (induction ops arbitrary: st)
  case (Cons op ops)
  obtain E c where op: "op = (E, c)" by (cases op)
  obtain r st1 where r: "resolve_call c E st = (r, st1)" by (cases "resolve_call c E st")
  then have "keeps st st1" using grows_call [of c E] unfolding grows_def by (metis snd_conv)
  moreover have "keeps st1 (snd (resolve_all ops st1))" by (rule Cons.IH)
  ultimately show ?case using op r keeps_trans by (simp add: split_beta Let_def)
qed simp

lemma keeps_cell: "keeps st st' \<Longrightarrow> cell c st = Some v \<Longrightarrow> cell c st' = Some v"
  by (cases c) (auto simp: keeps_def)

lemma filled_answers: "cell c st = Some v \<Longrightarrow> resolve_call c E st = (Inr v, st)"
  by (cases c)
     (auto simp: shared_data_dir_def device_data_dir_def local_state_dir_def current_device_id_def
       multi_device_enabled_def then_r_def pure_r_def)

text \<open>A resolution touches only the cells of the values it asks for.\<close>

lemma shared_frame:
  "shared_data_dir E st = (r, st') \<Longrightarrow> r_device st' = r_device st \<and> r_local st' = r_local st \<and> r_multi st' = r_multi st \<and> r_id st' = r_id st"
  by (auto simp: shared_data_dir_def split: option.splits sum.splits)

lemma load_frame:
  "load_config E st = (r, st') \<Longrightarrow> r_device st' = r_device st \<and> r_local st' = r_local st \<and> r_multi st' = r_multi st \<and> r_id st' = r_id st"
  using shared_frame [of E st]
  by (auto simp: load_config_def config_path_def then_r_def pure_r_def split: prod.splits sum.splits)

lemma id_frame:
  "current_device_id E st = (r, st') \<Longrightarrow> r_device st' = r_device st \<and> r_local st' = r_local st \<and> r_multi st' = r_multi st"
  using load_frame [of E st]
  by (auto simp: current_device_id_def then_r_def pure_r_def split: prod.splits sum.splits option.splits)

lemma multi_frame:
  "multi_device_enabled E st = (r, st') \<Longrightarrow> r_device st' = r_device st \<and> r_local st' = r_local st \<and> r_id st' = r_id st"
  using load_frame [of E st]
  by (auto simp: multi_device_enabled_def then_r_def pure_r_def split: prod.splits sum.splits option.splits)

lemma shared_fills: "shared_data_dir E st = (Inr v, st') \<Longrightarrow> r_shared st' = Some v"
  by (auto simp: shared_data_dir_def split: option.splits sum.splits)

lemma id_fills: "current_device_id E st = (Inr v, st') \<Longrightarrow> r_id st' = Some v"
  using load_frame [of E st]
  by (auto simp: current_device_id_def then_r_Inr split: option.splits)

lemma multi_fills: "multi_device_enabled E st = (Inr v, st') \<Longrightarrow> r_multi st' = Some v"
  using load_frame [of E st]
  by (auto simp: multi_device_enabled_def then_r_Inr split: option.splits)

definition device_choice :: "sys_env \<Rightarrow> string \<Rightarrow> bool \<Rightarrow> string resolver" where
  "device_choice E shared multi =
     (if multi
      then then_r (current_device_id E) (\<lambda>i. pure_r
             (if \<not> single_segment i then Inl (invalid_device_id E i)
              else Inr (path_join (path_join shared ''devices'') i)))
      else pure_r (Inr shared))"

lemma device_unfold:
  assumes "r_device st = None" and "device_data_dir E st = (Inr d, st')"
  obtains sh st1 m st2 st3 where "shared_data_dir E st = (Inr sh, st1)" and "multi_device_enabled E st1 = (Inr m, st2)"
    and "device_choice E sh m st2 = (Inr d, st3)" and "st' = st3\<lparr>r_device := set_once (r_device st3) d\<rparr>"
  using assms unfolding device_data_dir_def device_choice_def [symmetric] by (auto simp: then_r_Inr)

lemma choice_frame: "device_choice E sh m st = (Inr d, st') \<Longrightarrow> r_device st' = r_device st"
  using id_frame [of E st] by (auto simp: device_choice_def then_r_Inr split: if_splits)

lemma device_fills:
  assumes "device_data_dir E st = (Inr d, st')"
  shows "r_device st' = Some d"
proof (cases "r_device st")
  case None
  from None assms obtain sh st1 m st2 st3 where *: "shared_data_dir E st = (Inr sh, st1)"
    "multi_device_enabled E st1 = (Inr m, st2)" "device_choice E sh m st2 = (Inr d, st3)"
    "st' = st3\<lparr>r_device := set_once (r_device st3) d\<rparr>" by (rule device_unfold)
  have "r_device st3 = None" using choice_frame [OF *(3)] multi_frame [OF *(2)] shared_frame [OF *(1)] None by simp
  then show ?thesis using *(4) by simp
next
  case (Some v)
  then show ?thesis using assms by (simp add: device_data_dir_def)
qed

lemma local_fills:
  assumes "local_state_dir E st = (Inr d, st')"
  shows "r_local st' = Some d"
proof (cases "r_local st")
  case None
  obtain c st1 sh st2 pl st3 dev st4 st5 where *: "load_config E st = (Inr c, st1)" "shared_data_dir E st1 = (Inr sh, st2)"
    "st3 = st2" "(if multi_device (storage c) then then_r (current_device_id E) (\<lambda>i. pure_r (Inr (Some i))) else pure_r (Inr None)) st3 = (Inr dev, st4)"
    "st5 = st4" "st' = st5\<lparr>r_local := set_once (r_local st5) d\<rparr>"
    using assms None unfolding local_state_dir_def by (auto simp: then_r_Inr)
  have "r_local st4 = r_local st3"
    using *(4) id_frame [of E st3] by (auto simp: then_r_Inr split: if_splits)
  then have "r_local st5 = None" using * load_frame [OF *(1)] shared_frame [OF *(2)] None by simp
  then show ?thesis using *(6) by simp
next
  case (Some v)
  then show ?thesis using assms by (simp add: local_state_dir_def)
qed

lemma success_fills: "resolve_call c E st = (Inr v, st') \<Longrightarrow> cell c st' = Some v"
  using shared_fills device_fills local_fills id_fills multi_fills
  by (cases c) (auto simp: then_r_Inr)

lemma answer_fills:
  "(c, Inr v) \<in> set (fst (resolve_all ops st)) \<Longrightarrow> cell c (snd (resolve_all ops st)) = Some v"
proof (induction ops arbitrary: st)
  case (Cons op ops)
  obtain E k where op: "op = (E, k)" by (cases op)
  obtain r st1 where r: "resolve_call k E st = (r, st1)" by (cases "resolve_call k E st")
  have tl: "snd (resolve_all (op # ops) st) = snd (resolve_all ops st1)"
    and hd: "fst (resolve_all (op # ops) st) = (k, r) # fst (resolve_all ops st1)"
    using op r by (simp_all add: split_beta Let_def)
  show ?case
  proof (cases "(c, Inr v) \<in> set (fst (resolve_all ops st1))")
    case True
    then show ?thesis using Cons.IH tl by simp
  next
    case False
    then have "k = c" and "r = Inr v" using Cons.prems hd by auto
    then have "cell c st1 = Some v" using success_fills r by simp
    then show ?thesis using keeps_cell [OF grows_all] tl by simp
  qed
qed simp

lemma filled_answers_all:
  "cell c st = Some v \<Longrightarrow> (c, r) \<in> set (fst (resolve_all ops st)) \<Longrightarrow> r = Inr v"
proof (induction ops arbitrary: st)
  case (Cons op ops)
  obtain E k where op: "op = (E, k)" by (cases op)
  obtain q st1 where q: "resolve_call k E st = (q, st1)" by (cases "resolve_call k E st")
  have "keeps st st1" using grows_call [of k E] q unfolding grows_def by (metis snd_conv)
  then have 1: "cell c st1 = Some v" using Cons.prems(1) keeps_cell by blast
  have "(c, r) = (k, q) \<or> (c, r) \<in> set (fst (resolve_all ops st1))"
    using Cons.prems(2) op q by (auto simp: split_beta Let_def)
  then show ?case using Cons.IH [OF 1] filled_answers [OF Cons.prems(1)] q by auto
qed simp

section \<open>Agreement of the cells\<close>

definition layout_ok :: "resolved \<Rightarrow> bool" where
  "layout_ok st \<longleftrightarrow>
     (\<forall>i. r_id st = Some i \<longrightarrow> name_ok i)
     \<and> (\<forall>d. r_device st = Some d \<longrightarrow>
          (\<exists>sh m. r_shared st = Some sh \<and> r_multi st = Some m
             \<and> (if m then \<exists>i. r_id st = Some i \<and> d = path_join (path_join sh ''devices'') i else d = sh)))"

lemma layout_keeps:
  assumes "layout_ok st" and "keeps st st'" and "r_device st' = r_device st"
    and "r_id st' = r_id st \<or> (\<exists>i. r_id st' = Some i \<and> name_ok i)"
  shows "layout_ok st'"
  unfolding layout_ok_def
proof (intro conjI allI impI)
  fix i assume "r_id st' = Some i"
  then show "name_ok i" using assms(1,4) unfolding layout_ok_def by auto
next
  fix d assume "r_device st' = Some d"
  then obtain sh m where "r_shared st = Some sh" "r_multi st = Some m"
    "if m then \<exists>i. r_id st = Some i \<and> d = path_join (path_join sh ''devices'') i else d = sh"
    using assms(1,3) unfolding layout_ok_def by auto
  then show "\<exists>sh m. r_shared st' = Some sh \<and> r_multi st' = Some m
      \<and> (if m then \<exists>i. r_id st' = Some i \<and> d = path_join (path_join sh ''devices'') i else d = sh)"
    using assms(2) unfolding keeps_def by (cases m) auto
qed

lemma growsD: "grows f \<Longrightarrow> f st = (r, st') \<Longrightarrow> keeps st st'"
  unfolding grows_def by (metis snd_conv)

lemma id_cell:
  "current_device_id E st = (r, st') \<Longrightarrow> r_id st' = r_id st \<or> (\<exists>i. r_id st' = Some i \<and> name_ok i)"
  using load_frame [of E st] device_id_ok [of E]
  by (auto simp: current_device_id_def then_r_def pure_r_def split: prod.splits sum.splits option.splits)

lemma layout_shared:
  "layout_ok st \<Longrightarrow> shared_data_dir E st = (r, st') \<Longrightarrow> layout_ok st'"
  using layout_keeps growsD [OF grows_shared] shared_frame by metis

lemma layout_load: "layout_ok st \<Longrightarrow> load_config E st = (r, st') \<Longrightarrow> layout_ok st'"
  using layout_keeps growsD [OF grows_load] load_frame by metis

lemma layout_id: "layout_ok st \<Longrightarrow> current_device_id E st = (r, st') \<Longrightarrow> layout_ok st'"
  using layout_keeps growsD [OF grows_id] id_frame id_cell by metis

lemma layout_multi: "layout_ok st \<Longrightarrow> multi_device_enabled E st = (r, st') \<Longrightarrow> layout_ok st'"
  using layout_keeps growsD [OF grows_multi] multi_frame by metis

definition safe_r :: "'a resolver \<Rightarrow> bool" where
  "safe_r f \<longleftrightarrow> (\<forall>st. layout_ok st \<longrightarrow> layout_ok (snd (f st)))"

lemma safe_rI: "(\<And>st r st'. layout_ok st \<Longrightarrow> f st = (r, st') \<Longrightarrow> layout_ok st') \<Longrightarrow> safe_r f"
  unfolding safe_r_def by (metis prod.collapse)

lemma safe_rD: "safe_r f \<Longrightarrow> layout_ok st \<Longrightarrow> f st = (r, st') \<Longrightarrow> layout_ok st'"
  unfolding safe_r_def by (metis snd_conv)

lemma safe_pure: "safe_r (pure_r x)"
  by (simp add: safe_r_def pure_r_def)

lemma safe_then:
  assumes "safe_r f" and "\<And>x. safe_r (g x)"
  shows "safe_r (then_r f g)"
proof (rule safe_rI)
  fix st r st' assume st: "layout_ok st" and *: "then_r f g st = (r, st')"
  obtain x st1 where f: "f st = (x, st1)" by (cases "f st")
  then have 1: "layout_ok st1" using safe_rD [OF assms(1) st] by blast
  show "layout_ok st'"
  proof (cases x)
    case (Inl e)
    then show ?thesis using * f 1 by (simp add: then_r_def)
  next
    case (Inr y)
    then have "g y st1 = (r, st')" using * f by (simp add: then_r_def)
    then show ?thesis using safe_rD [OF assms(2) 1] by blast
  qed
qed

lemma safe_cached:
  assumes "safe_r f"
  shows "safe_r (\<lambda>st. case kept st of Some v \<Rightarrow> (Inr v, st) | None \<Rightarrow> f st)"
  using assms by (simp add: safe_r_def split: option.split)

lemma safe_cells:
  "safe_r (shared_data_dir E)" "safe_r (load_config E)" "safe_r (current_device_id E)" "safe_r (multi_device_enabled E)"
  using layout_shared layout_load layout_id layout_multi by (blast intro: safe_rI)+

lemma layout_set_local: "layout_ok (st\<lparr>r_local := v\<rparr>) = layout_ok st"
  unfolding layout_ok_def by (cases st) (simp only: resolved.select_convs resolved.update_convs)

lemma safe_set_local: "safe_r (\<lambda>st. (Inr d, st\<lparr>r_local := set_once (r_local st) d\<rparr>))"
  by (simp add: safe_r_def layout_set_local)

lemma safe_local: "safe_r (local_state_dir E)"
  unfolding local_state_dir_def
  by (intro safe_cached safe_then safe_cells safe_pure safe_set_local)
     (simp add: safe_then safe_cells safe_pure)

lemma single_segment_name: "name_ok i \<Longrightarrow> single_segment i"
  by (simp add: single_segment_def components_name)

lemma choice_result:
  assumes "device_choice E sh m st = (r, st')" and "layout_ok st"
  shows "layout_ok st' \<and> (case r of Inr d \<Rightarrow> if m then \<exists>i. r_id st' = Some i \<and> d = path_join (path_join sh ''devices'') i else d = sh
    | Inl e \<Rightarrow> m \<and> fst (current_device_id E st) = Inl e)"
proof (cases m)
  case True
  obtain q st1 where q: "current_device_id E st = (q, st1)" by (cases "current_device_id E st")
  then have 1: "layout_ok st1" using layout_id assms(2) by blast
  show ?thesis
  proof (cases q)
    case (Inl e)
    then show ?thesis using assms(1) True q 1 by (auto simp: device_choice_def then_r_def)
  next
    case (Inr i)
    then have "r_id st1 = Some i" using id_fills q by simp
    then have "name_ok i" using 1 unfolding layout_ok_def by simp
    then show ?thesis using assms(1) True q Inr 1 id_fills [of E st i st1] single_segment_name [of i]
      by (auto simp: device_choice_def then_r_def pure_r_def)
  qed
next
  case False
  then show ?thesis using assms by (auto simp: device_choice_def)
qed

lemma layout_set_device:
  assumes "layout_ok st" and "r_shared st = Some sh" and "r_multi st = Some m"
    and "if m then \<exists>i. r_id st = Some i \<and> d = path_join (path_join sh ''devices'') i else d = sh"
    and "r_device st = None"
  shows "layout_ok (st\<lparr>r_device := set_once (r_device st) d\<rparr>)"
  using assms unfolding layout_ok_def by (cases m) auto

lemma layout_device:
  assumes "layout_ok st" and "device_data_dir E st = (r, st')"
  shows "layout_ok st'"
proof (cases "r_device st")
  case None
  obtain q1 st1 where 1: "shared_data_dir E st = (q1, st1)" by (cases "shared_data_dir E st")
  have l1: "layout_ok st1" using layout_shared assms(1) 1 by blast
  show ?thesis
  proof (cases q1)
    case (Inl e)
    then show ?thesis using assms(2) None 1 l1 by (simp add: device_data_dir_def then_r_def)
  next
    case sh: (Inr sh)
    obtain q2 st2 where 2: "multi_device_enabled E st1 = (q2, st2)" by (cases "multi_device_enabled E st1")
    have l2: "layout_ok st2" using layout_multi l1 2 by blast
    show ?thesis
    proof (cases q2)
      case (Inl e)
      then show ?thesis using assms(2) None 1 2 sh l2 by (simp add: device_data_dir_def then_r_def)
    next
      case m: (Inr m)
      obtain q3 st3 where 3: "device_choice E sh m st2 = (q3, st3)" by (cases "device_choice E sh m st2")
      note c = choice_result [OF 3 l2]
      have dd: "device_data_dir E st = (case q3 of Inl e \<Rightarrow> (Inl e, st3) | Inr d \<Rightarrow> (Inr d, st3\<lparr>r_device := set_once (r_device st3) d\<rparr>))"
        using None 1 2 3 sh m unfolding device_data_dir_def device_choice_def [symmetric] by (simp add: then_r_def split: sum.split)
      show ?thesis
      proof (cases q3)
        case (Inl e)
        then show ?thesis using dd assms(2) c by simp
      next
        case (Inr d)
        have k: "keeps st1 st2" "keeps st2 st3"
          using growsD [OF grows_multi 2] 3 growsD [OF grows_then [OF grows_id grows_pure]]
          by (auto simp: device_choice_def split: if_splits)
        have "r_shared st3 = Some sh" using shared_fills 1 sh k unfolding keeps_def by blast
        moreover have "r_multi st3 = Some m" using multi_fills 2 m k unfolding keeps_def by blast
        moreover have "r_device st3 = None"
          using choice_frame [of E sh m st2 d st3] 3 Inr multi_frame [OF 2] shared_frame [OF 1] None by simp
        ultimately show ?thesis using layout_set_device [of st3 sh m d] c dd assms(2) Inr by simp
      qed
    qed
  qed
next
  case (Some v)
  then show ?thesis using assms by (simp add: device_data_dir_def)
qed

lemma safe_device: "safe_r (device_data_dir E)"
  using layout_device by (blast intro: safe_rI)

lemma safe_call: "safe_r (resolve_call c E)"
  by (cases c) (simp_all add: safe_cells safe_local safe_device safe_then safe_pure)

lemma layout_all: "layout_ok st \<Longrightarrow> layout_ok (snd (resolve_all ops st))"
proof (induction ops arbitrary: st)
  case (Cons op ops)
  obtain E c where op: "op = (E, c)" by (cases op)
  obtain r st1 where r: "resolve_call c E st = (r, st1)" by (cases "resolve_call c E st")
  then have "layout_ok st1" using safe_rD [OF safe_call Cons.prems] by blast
  then show ?case using Cons.IH op r by (simp add: split_beta Let_def)
qed simp

lemma layout_start: "layout_ok nothing_resolved"
  by (simp add: layout_ok_def nothing_resolved_def)

section \<open>An example machine\<close>

definition demo_config :: Config where
  "demo_config = config_default\<lparr>storage := (storage config_default)\<lparr>multi_device := True, cfg_device_id := ''../Work Laptop''\<rparr>\<rparr>"

definition demo_env :: sys_env where
  "demo_env =
     \<lparr>env_var = (\<lambda>n. if n = ''HOME'' then Some ''/home/u'' else None), exe_dir = Inl ''no exe'',
      config_at = (\<lambda>p. if p = ''/home/u/.config/sshwarden/config.toml'' then Present demo_config else Absent),
      hostname_output = None, str_debug = (\<lambda>s. [CHR 0x22] @ s @ [CHR 0x22])\<rparr>"

definition moved_env :: sys_env where
  "moved_env = demo_env\<lparr>env_var := (\<lambda>n. if n = ''SSHWARDEN_HOME'' then Some ''/elsewhere'' else None), config_at := (\<lambda>_. Malformed)\<rparr>"

section \<open>Properties\<close>

text \<open>
  The layout is fixed once it is resolved. As soon as the shared directory, the device directory,
  the local state directory, the device id or the multi-device flag has been resolved, every later
  question for it gets the same answer, whatever has become of the environment and of the
  configuration file in the meantime, so that no file moves while the process runs.
\<close>

theorem layout_stable:
  assumes "(c, Inr v) \<in> set (fst (resolve_all ops st))"
    and "(c, r) \<in> set (fst (resolve_all later (snd (resolve_all ops st))))"
  shows "r = Inr v"
  using filled_answers_all [OF answer_fills [OF assms(1)] assms(2)] .

theorem layout_stable_witness:
  "fst (resolve_call DeviceDir moved_env (snd (resolve_all [(demo_env, DeviceDir)] nothing_resolved)))
     = Inr ''/home/u/.config/sshwarden/devices/..-work-laptop''
   \<and> fst (resolve_call DeviceDir moved_env nothing_resolved) = Inl ''Failed to parse config file: /elsewhere/config.toml''"
proof -
  let ?st = "snd (resolve_all [(demo_env, DeviceDir)] nothing_resolved)"
  let ?d = "''/home/u/.config/sshwarden/devices/..-work-laptop''"
  have 1: "fst (resolve_all [(demo_env, DeviceDir)] nothing_resolved) = [(DeviceDir, Inr ?d)]" by code_simp
  have 2: "(DeviceDir, fst (resolve_call DeviceDir moved_env ?st)) \<in> set (fst (resolve_all [(moved_env, DeviceDir)] ?st))"
    by (simp add: split_beta Let_def)
  have "fst (resolve_call DeviceDir moved_env ?st) = Inr ?d"
    by (rule layout_stable [OF _ 2, where v = ?d]) (simp only: 1 list.set insertI1)
  moreover have "fst (resolve_call DeviceDir moved_env nothing_resolved) = Inl ''Failed to parse config file: /elsewhere/config.toml''"
    by code_simp
  ultimately show ?thesis by (rule conjI)
qed

text \<open>
  C28: The device directory is a proper place. Whatever calls the process has made before, in whatever
  environments, a device directory that is handed out is the shared directory itself, or, with several
  devices, the directory \<open>devices/<id>\<close> below it where the id is the device id the process
  uses everywhere and is one path component: not empty, not \<open>.\<close> or \<open>..\<close>, without a
  separator. The shared directory and the flag are the ones every other caller sees.
\<close>

theorem device_dir_confined:
  assumes "st = snd (resolve_all ops nothing_resolved)" and "device_data_dir E st = (Inr dir, st')"
  shows "\<exists>shared. shared_data_dir E' st' = (Inr shared, st')
    \<and> (multi_device_enabled E' st' = (Inr False, st') \<and> dir = shared
       \<or> multi_device_enabled E' st' = (Inr True, st')
         \<and> (\<exists>i. current_device_id E' st' = (Inr i, st') \<and> dir = path_join (path_join shared ''devices'') i
              \<and> components i = [Normal i] \<and> i \<noteq> [] \<and> i \<noteq> ''.'' \<and> i \<noteq> ''..'' \<and> sep \<notin> set i))"
proof -
  have ok: "layout_ok st'"
    using layout_device [OF layout_all [OF layout_start, of ops]] assms by simp
  have d: "r_device st' = Some dir" using device_fills assms(2) .
  obtain sh m where "r_shared st' = Some sh" "r_multi st' = Some m"
    and c: "if m then \<exists>i. r_id st' = Some i \<and> dir = path_join (path_join sh ''devices'') i else dir = sh"
    using ok d unfolding layout_ok_def by blast
  then have s: "shared_data_dir E' st' = (Inr sh, st')" and m: "multi_device_enabled E' st' = (Inr m, st')"
    by (simp_all add: shared_data_dir_def multi_device_enabled_def)
  show ?thesis
  proof (cases m)
    case False
    then show ?thesis using s m c by simp
  next
    case True
    then obtain i where i: "r_id st' = Some i" "dir = path_join (path_join sh ''devices'') i" using c by auto
    then have n: "name_ok i" using ok unfolding layout_ok_def by simp
    have "current_device_id E' st' = (Inr i, st')" using i by (simp add: current_device_id_def)
    then show ?thesis using s m True i n components_name [OF n] unfolding name_ok_def by auto
  qed
qed

theorem device_dir_confined_witness:
  "fst (device_data_dir demo_env nothing_resolved) = Inr ''/home/u/.config/sshwarden/devices/..-work-laptop''
   \<and> (\<exists>shared. fst (shared_data_dir moved_env (snd (device_data_dir demo_env nothing_resolved))) = Inr shared)"
proof -
  let ?r = "device_data_dir demo_env nothing_resolved"
  let ?d = "''/home/u/.config/sshwarden/devices/..-work-laptop''"
  have 1: "fst ?r = Inr ?d" by code_simp
  have 0: "nothing_resolved = snd (resolve_all [] nothing_resolved)" by simp
  have 2: "?r = (Inr ?d, snd ?r)" by (simp only: 1 [symmetric] prod.collapse)
  show ?thesis using device_dir_confined [OF 0 2, of moved_env] 1 by (metis fst_conv)
qed

end
