(* ===== verification/Pid_File.thy ===== *)
theory Pid_File
  imports Storage_Layout
begin

text \<open>
  The single-instance guard of \<open>src/process.rs\<close>: the PID file, the check that its owner is alive,
  claiming it, the clean-up of files of older layouts, and the queries made by the commands. Several
  processes run the code at once. A claim is a sequence of system calls, and one step of the model is one
  call of one process, so that every interleaving is a sequence of steps. A file that is removed and
  created anew is a new file: a process that still has the old one open writes to the old one.
  The process table (crate \<open>sysinfo\<close>) is part of the state; what the operating system answers is an
  argument of each step.
\<close>

section \<open>Paths\<close>

definition pid_file_path :: "sys_env \<Rightarrow> string resolver" where
  "pid_file_path L = then_r (local_state_dir L) (\<lambda>dir. pure_r (Inr (path_join dir ''sshwarden.pid'')))"

definition log_file_path :: "sys_env \<Rightarrow> string resolver" where
  "log_file_path L = then_r (local_state_dir L) (\<lambda>dir. pure_r (Inr (path_join dir ''sshwarden.log'')))"

definition add_candidate :: "string option \<Rightarrow> string \<Rightarrow> string list \<Rightarrow> string list" where
  "add_candidate current candidate paths =
     (if (case current of Some c \<Rightarrow> path_eq candidate c | None \<Rightarrow> False) \<or> list_ex (path_eq candidate) paths
      then paths else paths @ [candidate])"

definition legacy_state_paths :: "sys_env \<Rightarrow> string \<Rightarrow> resolved \<Rightarrow> string list \<times> resolved" where
  "legacy_state_paths L name st =
     (let (own, st1) = local_state_dir L st;
          current = map_option (\<lambda>dir. path_join dir name) (res_ok own);
          (device, st2) = device_data_dir L st1;
          (shared, st3) = shared_data_dir L st2;
          dirs = (case res_ok device of Some d \<Rightarrow> [d] | None \<Rightarrow> []) @ (case res_ok shared of Some d \<Rightarrow> [d] | None \<Rightarrow> [])
      in (fold (\<lambda>dir. add_candidate current (path_join dir name)) dirs [], st3))"

section \<open>State\<close>

record process =
  proc_exe :: "string option"
  proc_name :: string

datatype answer = Works | Fails nat

datatype claim_phase =
    Gone
  | Starting
  | Opening
  | Created nat
  | Yielding
  | Checked nat
  | Cleaning
  | Exists
  | Stale
  | Finished bool
  | Failed string

record pid_world =
  at_path :: "nat option"
  contents :: "nat \<Rightarrow> string"
  fresh :: nat
  legacy_pids :: "(string, string) amap"
  legacy_dirs :: "(string, nat) amap"
  procs :: "nat \<Rightarrow> process option"
  ph :: "nat \<Rightarrow> claim_phase"

record pid_ctx =
  pid_path :: "string result"
  pid_legacy :: "string list"
  pid_dirs :: "string list"
  own_run :: string
  removable :: "string \<Rightarrow> bool"
  self_exe :: "string option"

definition pid_context :: "sys_env \<Rightarrow> string option \<Rightarrow> (string \<Rightarrow> bool) \<Rightarrow> resolved \<Rightarrow> pid_ctx \<times> resolved" where
  "pid_context L exe rm st =
     (let (path, st1) = pid_file_path L st;
          (legacy, st2) = legacy_state_paths L ''sshwarden.pid'' st1;
          (device, st3) = device_data_dir L st2;
          (shared, st4) = shared_data_dir L st3;
          (own, st5) = local_state_dir L st4;
          run = (\<lambda>r. case res_ok r of Some d \<Rightarrow> [path_join d ''run''] | None \<Rightarrow> [])
      in (\<lparr>pid_path = path, pid_legacy = legacy, pid_dirs = run device @ run shared,
           own_run = path_join (unwrap_or [] (res_ok own)) ''run'', removable = rm, self_exe = exe\<rparr>, st5))"

section \<open>Is the owner alive?\<close>

definition process_is_sshwarden :: "pid_ctx \<Rightarrow> process \<Rightarrow> bool" where
  "process_is_sshwarden C p \<longleftrightarrow>
     (case (proc_exe p, self_exe C) of (Some pe, Some se) \<Rightarrow> path_eq pe se | _ \<Rightarrow> False)
     \<or> (case Option.bind (self_exe C) file_name of Some name \<Rightarrow> proc_name p = name | None \<Rightarrow> False)"

definition owner_pid :: "string \<Rightarrow> nat option" where
  "owner_pid s = parse_unsigned 32 (trim s)"

definition pid_file_owner_alive :: "pid_ctx \<Rightarrow> pid_world \<Rightarrow> string option \<Rightarrow> bool" where
  "pid_file_owner_alive C w txt =
     (case Option.bind txt owner_pid of
        None \<Rightarrow> False
      | Some pid \<Rightarrow> (case procs w pid of Some p \<Rightarrow> process_is_sshwarden C p | None \<Rightarrow> False))"

definition own_text :: "pid_ctx \<Rightarrow> pid_world \<Rightarrow> string option" where
  "own_text C w = (case pid_path C of Inl _ \<Rightarrow> None | Inr _ \<Rightarrow> map_option (contents w) (at_path w))"

definition legacy_alive :: "pid_ctx \<Rightarrow> pid_world \<Rightarrow> bool" where
  "legacy_alive C w \<longleftrightarrow> list_ex (\<lambda>path. pid_file_owner_alive C w (am_get (legacy_pids w) path)) (pid_legacy C)"

definition is_daemon_running :: "pid_ctx \<Rightarrow> pid_world \<Rightarrow> bool" where
  "is_daemon_running C w \<longleftrightarrow> pid_file_owner_alive C w (own_text C w) \<or> legacy_alive C w"

fun first_live :: "pid_ctx \<Rightarrow> pid_world \<Rightarrow> string option list \<Rightarrow> nat option" where
  "first_live C w [] = None"
| "first_live C w (txt # txts) =
     (if \<not> pid_file_owner_alive C w txt then first_live C w txts
      else case Option.bind txt owner_pid of Some pid \<Rightarrow> Some pid | None \<Rightarrow> first_live C w txts)"

definition running_agent_pid :: "pid_ctx \<Rightarrow> pid_world \<Rightarrow> nat option" where
  "running_agent_pid C w =
     first_live C w ((case pid_path C of Inl _ \<Rightarrow> [] | Inr _ \<Rightarrow> [own_text C w]) @ map (am_get (legacy_pids w)) (pid_legacy C))"

section \<open>Claiming the file\<close>

definition cleanup_pid :: "pid_ctx \<Rightarrow> string \<Rightarrow> pid_world \<Rightarrow> pid_world" where
  "cleanup_pid C path w =
     (if pid_file_owner_alive C w (am_get (legacy_pids w) path) then w
      else if removable C path then w\<lparr>legacy_pids := am_remove path (legacy_pids w)\<rparr> else w)"

definition cleanup_dir :: "pid_ctx \<Rightarrow> string \<Rightarrow> pid_world \<Rightarrow> pid_world" where
  "cleanup_dir C dir w =
     (if path_eq dir (own_run C) then w
      else if am_get (legacy_dirs w) dir = Some 0 \<and> removable C dir then w\<lparr>legacy_dirs := am_remove dir (legacy_dirs w)\<rparr>
      else w)"

definition cleanup_legacy_runtime_files :: "pid_ctx \<Rightarrow> pid_world \<Rightarrow> pid_world" where
  "cleanup_legacy_runtime_files C w = fold (cleanup_dir C) (pid_dirs C) (fold (cleanup_pid C) (pid_legacy C) w)"

definition set_phase :: "nat \<Rightarrow> claim_phase \<Rightarrow> pid_world \<Rightarrow> pid_world" where
  "set_phase p x w = w\<lparr>ph := (ph w)(p := x)\<rparr>"

definition remove_pid_file :: "pid_ctx \<Rightarrow> answer \<Rightarrow> pid_world \<Rightarrow> pid_world" where
  "remove_pid_file C a w =
     (case pid_path C of Inl _ \<Rightarrow> w | Inr _ \<Rightarrow> if a = Works then w\<lparr>at_path := None\<rparr> else w)"

definition claim_step :: "pid_ctx \<Rightarrow> answer \<Rightarrow> nat \<Rightarrow> pid_world \<Rightarrow> pid_world" where
  "claim_step C a p w =
     (case pid_path C of
        Inl e \<Rightarrow> (if ph w p = Starting then set_phase p (Failed e) w else w)
      | Inr path \<Rightarrow>
          (case ph w p of
             Starting \<Rightarrow>
               set_phase p (if a = Works \<or> parent path = None then Opening
                            else Failed (''Failed to create PID file directory: '' @ unwrap_or [] (parent path))) w
           | Opening \<Rightarrow>
               if a \<noteq> Works then set_phase p (Failed (''Failed to create PID file: '' @ path)) w
               else (case at_path w of
                       None \<Rightarrow> set_phase p (Created (fresh w))
                                (w\<lparr>at_path := Some (fresh w), contents := (contents w)(fresh w := []), fresh := fresh w + 1\<rparr>)
                     | Some _ \<Rightarrow> set_phase p Exists w)
           | Created n \<Rightarrow> set_phase p (if legacy_alive C w then Yielding else Checked n) w
           | Yielding \<Rightarrow> set_phase p (Finished False) (if a = Works then w\<lparr>at_path := None\<rparr> else w)
           | Checked n \<Rightarrow>
               (case a of
                  Works \<Rightarrow> set_phase p Cleaning (w\<lparr>contents := (contents w)(n := contents w n @ show_nat p)\<rparr>)
                | Fails k \<Rightarrow> set_phase p (Failed (''Failed to write PID file: '' @ path))
                              (w\<lparr>contents := (contents w)(n := contents w n @ take k (show_nat p))\<rparr>))
           | Cleaning \<Rightarrow> set_phase p (Finished True) (cleanup_legacy_runtime_files C w)
           | Exists \<Rightarrow>
               set_phase p (if a = Works \<and> pid_file_owner_alive C w (own_text C w) then Finished False else Stale) w
           | Stale \<Rightarrow>
               if a = Works then set_phase p Opening (w\<lparr>at_path := None\<rparr>)
               else set_phase p (Failed (''Failed to remove stale PID file: '' @ path)) w
           | _ \<Rightarrow> w))"

section \<open>Processes\<close>

datatype pid_event =
    Step nat answer
  | Exit nat answer
  | Crash nat
  | Spawn nat process

definition leave :: "nat \<Rightarrow> pid_world \<Rightarrow> pid_world" where
  "leave p w = w\<lparr>procs := (procs w)(p := None), ph := (ph w)(p := Gone)\<rparr>"

fun pid_do :: "pid_ctx \<Rightarrow> pid_event \<Rightarrow> pid_world \<Rightarrow> pid_world" where
  "pid_do C (Step p a) w = claim_step C a p w"
| "pid_do C (Exit p a) w = leave p (if ph w p = Finished True then remove_pid_file C a w else w)"
| "pid_do C (Crash p) w = leave p w"
| "pid_do C (Spawn p q) w =
     (if procs w p \<noteq> None then w
      else w\<lparr>procs := (procs w)(p := Some q), ph := (ph w)(p := if process_is_sshwarden C q then Starting else Gone)\<rparr>)"

text \<open>What other processes may do beside a running daemon \<open>d\<close>: anything, as long as reading the PID file works.\<close>

fun beside :: "nat \<Rightarrow> pid_world \<Rightarrow> pid_event \<Rightarrow> bool" where
  "beside d w (Step p a) \<longleftrightarrow> p \<noteq> d \<and> (ph w p = Exists \<longrightarrow> a = Works)"
| "beside d w (Exit p a) \<longleftrightarrow> p \<noteq> d"
| "beside d w (Crash p) \<longleftrightarrow> p \<noteq> d"
| "beside d w (Spawn p q) \<longleftrightarrow> p \<noteq> d"

inductive pid_run :: "pid_ctx \<Rightarrow> nat \<Rightarrow> pid_world \<Rightarrow> pid_world \<Rightarrow> bool" where
  pid_run_refl: "pid_run C d w w"
| pid_run_step: "pid_run C d w w1 \<Longrightarrow> beside d w1 e \<Longrightarrow> pid_run C d w (pid_do C e w1)"

section \<open>The text of a PID\<close>

lemma digit_not_space: "is_digit c \<Longrightarrow> \<not> is_whitespace [c] \<and> \<not> is_cont c"
  by (auto simp: is_digit_def is_whitespace_def unicode_spaces_def is_cont_def)

lemma rust_chars_digits: "\<forall>c \<in> set s. is_digit c \<Longrightarrow> rust_chars s = map (\<lambda>c. [c]) s"
proof (induction s)
  case (Cons c s)
  have "s = [] \<or> \<not> is_cont (hd s)" using Cons.prems digit_not_space by (cases s) auto
  then show ?case using Cons rust_chars_Cons_nocont [of s c] by simp
qed simp

lemma owner_pid_show:
  assumes "p < 2 ^ 32"
  shows "owner_pid (show_nat p) = Some p"
proof -
  have "\<forall>c \<in> set (show_nat p). is_digit c" using show_nat_digits by blast
  then have "rust_chars (show_nat p) = map (\<lambda>c. [c]) (show_nat p)" and "\<forall>c \<in> set (show_nat p). \<not> is_whitespace [c]"
    using rust_chars_digits digit_not_space by blast+
  then have "trim (show_nat p) = show_nat p" by (intro trim_no_space) auto
  then show ?thesis using parse_show assms by (simp add: owner_pid_def)
qed

section \<open>A running daemon stays the only one\<close>

text \<open>Phases in which a starter has nothing of its own at the PID path and has not decided to remove what is there.\<close>

fun idle_phase :: "claim_phase \<Rightarrow> bool" where
  "idle_phase Gone = True"
| "idle_phase Starting = True"
| "idle_phase Opening = True"
| "idle_phase Exists = True"
| "idle_phase (Finished b) = (\<not> b)"
| "idle_phase (Failed e) = True"
| "idle_phase x = False"

definition owned :: "pid_ctx \<Rightarrow> nat \<Rightarrow> pid_world \<Rightarrow> bool" where
  "owned C d w \<longleftrightarrow>
     d < 2 ^ 32 \<and> (\<exists>path. pid_path C = Inr path) \<and> (\<exists>q. procs w d = Some q \<and> process_is_sshwarden C q)
     \<and> ph w d = Finished True
     \<and> (\<exists>n. at_path w = Some n \<and> contents w n = show_nat d)
     \<and> (\<forall>p. p \<noteq> d \<longrightarrow> idle_phase (ph w p))"

lemma owned_text: "owned C d w \<Longrightarrow> own_text C w = Some (show_nat d)"
  by (auto simp: owned_def own_text_def)

lemma owned_alive: "owned C d w \<Longrightarrow> pid_file_owner_alive C w (own_text C w)"
  using owned_text [of C d w] owner_pid_show [of d] by (auto simp: owned_def pid_file_owner_alive_def)

lemma owned_set_phase:
  assumes "owned C d w" and "p \<noteq> d"
    and "idle_phase x"
  shows "owned C d (set_phase p x w)"
  using assms by (simp add: owned_def set_phase_def)

lemma owned_step:
  assumes "owned C d w" and "p \<noteq> d" and "ph w p = Exists \<longrightarrow> a = Works"
  shows "owned C d (claim_step C a p w)"
proof -
  obtain path where path: "pid_path C = Inr path" using assms(1) by (auto simp: owned_def)
  obtain n where n: "at_path w = Some n" using assms(1) by (auto simp: owned_def)
  have p: "idle_phase (ph w p)"
    using assms(1,2) by (simp add: owned_def)
  show ?thesis
    using p assms(3) path n owned_alive [OF assms(1)] owned_set_phase [OF assms(1,2)] assms(1)
    by (cases "ph w p") (simp_all add: claim_step_def)
qed

lemma owned_event:
  assumes "owned C d w" and "beside d w e"
  shows "owned C d (pid_do C e w)"
proof (cases e)
  case (Step p a)
  then show ?thesis using owned_step assms by simp
next
  case (Exit p a)
  have "ph w p \<noteq> Finished True" using assms Exit unfolding owned_def by force
  then show ?thesis using assms Exit by (simp add: owned_def leave_def)
next
  case (Crash p)
  then show ?thesis using assms by (simp add: owned_def leave_def)
next
  case (Spawn p q)
  then show ?thesis using assms by (auto simp: owned_def)
qed

lemma owned_run: "pid_run C d w w' \<Longrightarrow> owned C d w \<Longrightarrow> owned C d w'"
  by (induction rule: pid_run.induct) (auto intro: owned_event)

lemma owned_found: "owned C d w \<Longrightarrow> is_daemon_running C w \<and> running_agent_pid C w = Some d"
  using owned_alive [of C d w] owned_text [of C d w] owner_pid_show [of d]
  by (auto simp: is_daemon_running_def running_agent_pid_def owned_def)

section \<open>A claim that runs alone\<close>

definition claims :: "pid_ctx \<Rightarrow> nat \<Rightarrow> answer list \<Rightarrow> pid_world \<Rightarrow> pid_world" where
  "claims C p as w = fold (\<lambda>a. claim_step C a p) as w"

fun settled :: "claim_phase \<Rightarrow> bool" where
  "settled (Finished b) = True"
| "settled (Failed e) = True"
| "settled x = False"

definition calls_left :: "nat \<Rightarrow> pid_world \<Rightarrow> nat" where
  "calls_left p w =
     (case ph w p of
        Starting \<Rightarrow> 8 | Opening \<Rightarrow> (if at_path w = None then 4 else 7) | Exists \<Rightarrow> 6 | Stale \<Rightarrow> 5
      | Created _ \<Rightarrow> 3 | Checked _ \<Rightarrow> 2 | Cleaning \<Rightarrow> 1 | Yielding \<Rightarrow> 1 | _ \<Rightarrow> 0)"

lemma ph_set_phase [simp]: "ph (set_phase p x w) q = (if q = p then x else ph w q)"
  by (simp add: set_phase_def)

lemma set_phase_frame [simp]:
  "at_path (set_phase p x w) = at_path w" "contents (set_phase p x w) = contents w" "fresh (set_phase p x w) = fresh w"
  "legacy_pids (set_phase p x w) = legacy_pids w" "legacy_dirs (set_phase p x w) = legacy_dirs w" "procs (set_phase p x w) = procs w"
  by (simp_all add: set_phase_def)

lemma cleanup_frame [simp]:
  "at_path (cleanup_legacy_runtime_files C w) = at_path w" "contents (cleanup_legacy_runtime_files C w) = contents w"
  "procs (cleanup_legacy_runtime_files C w) = procs w" "ph (cleanup_legacy_runtime_files C w) = ph w"
proof -
  have pid: "at_path (fold (cleanup_pid C) xs v) = at_path v \<and> contents (fold (cleanup_pid C) xs v) = contents v
      \<and> procs (fold (cleanup_pid C) xs v) = procs v \<and> ph (fold (cleanup_pid C) xs v) = ph v" for xs v
    by (induction xs arbitrary: v) (auto simp: cleanup_pid_def)
  have dir: "at_path (fold (cleanup_dir C) xs v) = at_path v \<and> contents (fold (cleanup_dir C) xs v) = contents v
      \<and> procs (fold (cleanup_dir C) xs v) = procs v \<and> ph (fold (cleanup_dir C) xs v) = ph v" for xs v
    by (induction xs arbitrary: v) (auto simp: cleanup_dir_def)
  show "at_path (cleanup_legacy_runtime_files C w) = at_path w" "contents (cleanup_legacy_runtime_files C w) = contents w"
    "procs (cleanup_legacy_runtime_files C w) = procs w" "ph (cleanup_legacy_runtime_files C w) = ph w"
    using pid dir by (simp_all add: cleanup_legacy_runtime_files_def)
qed

lemma calls_left_step: "pid_path C = Inr path \<Longrightarrow> calls_left p (claim_step C a p w) \<le> calls_left p w - 1"
  by (cases "ph w p"; cases a) (auto simp: claim_step_def calls_left_def split: option.split)

lemma step_not_gone: "ph w p \<noteq> Gone \<Longrightarrow> ph (claim_step C a p w) p \<noteq> Gone"
  by (cases "ph w p"; cases a) (auto simp: claim_step_def split: option.split sum.split)

lemma calls_left_settled: "calls_left p w = 0 \<Longrightarrow> ph w p \<noteq> Gone \<Longrightarrow> settled (ph w p)"
  by (cases "ph w p") (auto simp: calls_left_def split: if_splits)

lemma claims_settle:
  assumes "pid_path C = Inr path" and "ph w p \<noteq> Gone" and "calls_left p w \<le> length as"
  shows "settled (ph (claims C p as w) p)"
  using assms(2,3)
proof (induction as arbitrary: w)
  case Nil
  then show ?case by (simp add: claims_def calls_left_settled)
next
  case (Cons a as)
  have "calls_left p (claim_step C a p w) \<le> length as"
    using calls_left_step [OF assms(1), of p a w] Cons.prems(2) by simp
  then show ?case using Cons.IH [OF step_not_gone [OF Cons.prems(1)]] by (simp add: claims_def)
qed

lemma alive_cong: "procs v = procs w \<Longrightarrow> pid_file_owner_alive C v txt = pid_file_owner_alive C w txt"
  by (cases "Option.bind txt owner_pid") (simp_all add: pid_file_owner_alive_def)

lemma legacy_alive_cong: "procs v = procs w \<Longrightarrow> legacy_pids v = legacy_pids w \<Longrightarrow> legacy_alive C v = legacy_alive C w"
  using alive_cong [of v w] by (simp add: legacy_alive_def)

lemma claims_Cons: "claims C p (a # as) w = claims C p as (claim_step C a p w)"
  by (simp add: claims_def)

lemma step_settled: "settled (ph w p) \<Longrightarrow> claim_step C a p w = w"
  by (cases "ph w p"; cases "pid_path C") (simp_all add: claim_step_def)

lemma claims_settled: "settled (ph w p) \<Longrightarrow> claims C p as w = w"
  by (induction as) (simp_all add: claims_def step_settled)

lemma own_text_set_phase [simp]: "own_text C (set_phase p x w) = own_text C w"
  by (cases "pid_path C") (simp_all add: own_text_def)

text \<open>The claim from a free path: created, compared with the older layouts, written.\<close>

lemma claim_free:
  fixes m :: nat
  assumes "pid_path C = Inr path" and "ph w p = Opening" and "at_path w = None"
  defines "w' \<equiv> claims C p (replicate (Suc (Suc (Suc (Suc m)))) Works) w"
  shows "ph w' p = Finished (\<not> legacy_alive C w) \<and> (\<forall>q. q \<noteq> p \<longrightarrow> ph w' q = ph w q) \<and> procs w' = procs w
    \<and> (if legacy_alive C w then at_path w' = None
       else at_path w' = Some (fresh w) \<and> contents w' = (contents w)(fresh w := show_nat p))"
proof -
  define w1 where "w1 = claim_step C Works p w"
  have 1: "ph w1 p = Created (fresh w)" "at_path w1 = Some (fresh w)" "contents w1 = (contents w)(fresh w := [])"
    "procs w1 = procs w" "legacy_pids w1 = legacy_pids w" "\<forall>q. q \<noteq> p \<longrightarrow> ph w1 q = ph w q"
    using assms(1-3) by (simp_all add: w1_def claim_step_def)
  have la: "legacy_alive C w1 = legacy_alive C w" using 1 legacy_alive_cong [of w1 w C] by simp
  show ?thesis
  proof (cases "legacy_alive C w")
    case True
    define w2 where "w2 = claim_step C Works p (claim_step C Works p w1)"
    have 2: "ph w2 p = Finished False" "at_path w2 = None" "procs w2 = procs w" "\<forall>q. q \<noteq> p \<longrightarrow> ph w2 q = ph w q"
      using 1 la True assms(1) by (simp_all add: w2_def claim_step_def)
    have "w' = w2" using claims_settled [of w2 p C] step_settled [of w2 p C] 2 by (simp add: w'_def claims_Cons w1_def [symmetric] w2_def [symmetric])
    then show ?thesis using 2 True by simp
  next
    case False
    define w2 where "w2 = claim_step C Works p (claim_step C Works p (claim_step C Works p w1))"
    have 2: "ph w2 p = Finished True" "at_path w2 = Some (fresh w)" "contents w2 = (contents w)(fresh w := show_nat p)"
      "procs w2 = procs w" "\<forall>q. q \<noteq> p \<longrightarrow> ph w2 q = ph w q"
      using 1 la False assms(1) by (simp_all add: w2_def claim_step_def)
    have "w' = w2" using claims_settled [of w2 p C] step_settled [of w2 p C] 2 by (simp add: w'_def claims_Cons w1_def [symmetric] w2_def [symmetric])
    then show ?thesis using 2 False by simp
  qed
qed

text \<open>The claim from any path: a live owner wins, anything else is removed first.\<close>

lemma claim_any:
  assumes "pid_path C = Inr path" and "ph w p = Starting"
  defines "w' \<equiv> claims C p (replicate 8 Works) w"
  shows "ph w' p = Finished (\<not> is_daemon_running C w) \<and> (\<forall>q. q \<noteq> p \<longrightarrow> ph w' q = ph w q) \<and> procs w' = procs w
    \<and> (if pid_file_owner_alive C w (own_text C w) then at_path w' = at_path w \<and> contents w' = contents w
       else if legacy_alive C w then at_path w' = None
       else \<exists>n. at_path w' = Some n \<and> contents w' n = show_nat p)"
proof -
  define w1 where "w1 = claim_step C Works p w"
  have 1: "w1 = set_phase p Opening w" using assms(1,2) by (simp add: w1_def claim_step_def)
  have w': "w' = claims C p (replicate (Suc (Suc (Suc (Suc 3)))) Works) w1"
    by (simp add: w'_def numeral_eq_Suc claims_Cons w1_def)
  show ?thesis
  proof (cases "at_path w")
    case None
    have "own_text C w = None" using None assms(1) by (simp add: own_text_def)
    then have dead: "\<not> pid_file_owner_alive C w (own_text C w)" by (simp add: pid_file_owner_alive_def)
    have la: "legacy_alive C w1 = legacy_alive C w" using 1 legacy_alive_cong [of w1 w C] by simp
    show ?thesis using claim_free [OF assms(1), of w1 p 3, folded w'] None 1 dead la
      by (cases "legacy_alive C w") (auto simp: is_daemon_running_def)
  next
    case (Some n)
    define w2 where "w2 = claim_step C Works p w1"
    have 2: "w2 = set_phase p Exists w" using 1 Some assms(1) by (simp add: w2_def claim_step_def set_phase_def)
    have t: "pid_file_owner_alive C w2 (own_text C w2) = pid_file_owner_alive C w (own_text C w)"
      using 2 alive_cong [of w2 w C] by simp
    define w3 where "w3 = claim_step C Works p w2"
    have w'3: "w' = claims C p (replicate (Suc (Suc (Suc (Suc (Suc 0))))) Works) w3"
      by (simp add: w' numeral_eq_Suc claims_Cons w2_def w3_def)
    show ?thesis
    proof (cases "pid_file_owner_alive C w (own_text C w)")
      case True
      then have 3: "w3 = set_phase p (Finished False) w"
        using 2 t assms(1) by (simp add: w3_def claim_step_def set_phase_def)
      then have "w' = w3" using w'3 claims_settled [of w3 p C] by simp
      then show ?thesis using 3 True by (simp add: is_daemon_running_def)
    next
      case False
      define w4 where "w4 = claim_step C Works p w3"
      have 3: "w3 = set_phase p Stale w" using 2 t False assms(1) by (simp add: w3_def claim_step_def set_phase_def)
      have 4: "ph w4 p = Opening" "at_path w4 = None" "procs w4 = procs w" "legacy_pids w4 = legacy_pids w" "\<forall>q. q \<noteq> p \<longrightarrow> ph w4 q = ph w q"
        using 3 assms(1) by (simp_all add: w4_def claim_step_def)
      have w'4: "w' = claims C p (replicate (Suc (Suc (Suc (Suc 0)))) Works) w4"
        by (simp add: w'3 claims_Cons w4_def)
      have la: "legacy_alive C w4 = legacy_alive C w" using 4 legacy_alive_cong [of w4 w C] by simp
      show ?thesis using claim_free [OF assms(1) 4(1,2), of 0, folded w'4] 4 False la
        by (cases "legacy_alive C w") (auto simp: is_daemon_running_def)
    qed
  qed
qed

lemma claim_owned:
  assumes "pid_path C = Inr path" and "p < 2 ^ 32" and "procs w p = Some q" and "process_is_sshwarden C q"
    and "ph w p = Starting" and "\<forall>r. r \<noteq> p \<longrightarrow> idle_phase (ph w r)" and "\<not> is_daemon_running C w"
  shows "owned C p (claims C p (replicate 8 Works) w)"
  using claim_any [OF assms(1,5)] assms by (auto simp: owned_def is_daemon_running_def)

section \<open>Example processes\<close>

definition demo_pid_ctx :: pid_ctx where
  "demo_pid_ctx = \<lparr>pid_path = Inr ''/s/sshwarden.pid'', pid_legacy = [''/d/sshwarden.pid''], pid_dirs = [''/d/run''],
     own_run = ''/s/run'', removable = (\<lambda>_. True), self_exe = Some ''/bin/sshwarden''\<rparr>"

definition demo_process :: process where
  "demo_process = \<lparr>proc_exe = Some ''/bin/sshwarden'', proc_name = ''sshwarden''\<rparr>"

definition demo_pid_world :: pid_world where
  "demo_pid_world = \<lparr>at_path = None, contents = (\<lambda>_. []), fresh = 0, legacy_pids = [], legacy_dirs = [],
     procs = (\<lambda>p. if p = 1 \<or> p = 2 then Some demo_process else None),
     ph = (\<lambda>p. if p = 1 \<or> p = 2 then Starting else Gone)\<rparr>"

lemma demo_process_ok: "process_is_sshwarden demo_pid_ctx demo_process"
  by code_simp

section \<open>Properties\<close>

text \<open>
  C29: A claim that runs alone always ends, after at most eight system calls, whatever they answer. When
  they work it is won exactly when no daemon is running, neither at the PID path nor at the path of an
  older layout: a missing file, a file without a PID, one with the PID of a process that is gone or is
  another program do not keep a new daemon from starting. The winner's PID is then in the file and every
  query finds it; a live owner's file is left alone.
\<close>

theorem lone_claim_settles:
  assumes "pid_path C = Inr path" and "p < 2 ^ 32" and "procs w p = Some q" and "process_is_sshwarden C q"
    and "ph w p = Starting"
  shows "(\<forall>as. 8 \<le> length as \<longrightarrow> settled (ph (claims C p as w) p))
    \<and> ph (claims C p (replicate 8 Works) w) p = Finished (\<not> is_daemon_running C w)
    \<and> (\<not> is_daemon_running C w \<longrightarrow> running_agent_pid C (claims C p (replicate 8 Works) w) = Some p)
    \<and> (pid_file_owner_alive C w (own_text C w) \<longrightarrow> own_text C (claims C p (replicate 8 Works) w) = own_text C w)"
proof (intro conjI allI impI)
  show "settled (ph (claims C p as w) p)" if "8 \<le> length as" for as
    using claims_settle [OF assms(1), of w p as] that assms(5) by (simp add: calls_left_def)
next
  let ?w = "claims C p (replicate 8 Works) w"
  note c = claim_any [OF assms(1,5)]
  show "ph ?w p = Finished (\<not> is_daemon_running C w)" using c by simp
  show "running_agent_pid C ?w = Some p" if "\<not> is_daemon_running C w"
  proof -
    have t: "own_text C ?w = Some (show_nat p)" using c that assms(1) by (auto simp: own_text_def is_daemon_running_def)
    moreover from this have "pid_file_owner_alive C ?w (own_text C ?w)"
      using c owner_pid_show [OF assms(2)] assms(3,4) by (simp add: pid_file_owner_alive_def)
    ultimately show ?thesis using owner_pid_show [OF assms(2)] assms(1) by (simp add: running_agent_pid_def)
  qed
  show "own_text C ?w = own_text C w" if "pid_file_owner_alive C w (own_text C w)"
    using c that assms(1) by (simp add: own_text_def)
qed

theorem lone_claim_settles_witness:
  "ph (claims demo_pid_ctx 1 (replicate 8 Works) demo_pid_world) 1 = Finished True
   \<and> running_agent_pid demo_pid_ctx (claims demo_pid_ctx 1 (replicate 8 Works) demo_pid_world) = Some 1
   \<and> settled (ph (claims demo_pid_ctx 1 [Works, Works, Works, Fails 0, Works, Works, Works, Works] demo_pid_world) 1)"
proof -
  have 1: "pid_path demo_pid_ctx = Inr ''/s/sshwarden.pid''" "procs demo_pid_world 1 = Some demo_process" "ph demo_pid_world 1 = Starting"
    by (simp_all add: demo_pid_ctx_def demo_pid_world_def)
  have 2: "\<not> is_daemon_running demo_pid_ctx demo_pid_world" by code_simp
  have 3: "(1 :: nat) < 2 ^ 32" by simp
  have 4: "8 \<le> length [Works, Works, Works, Fails 0, Works, Works, Works, Works]" by simp
  note * = lone_claim_settles [OF 1(1) 3 1(2) demo_process_ok 1(3)]
  show ?thesis using * 2 4 by simp
qed

text \<open>
  C30: A daemon that has started stays the only one. Once a process has claimed the PID file while no
  other start was under way, no sequence of calls of any other processes, started before or later,
  ending or crashing, in any order, makes a second claim succeed as long as the daemon runs and the
  PID file can be read; and every query finds this daemon.
\<close>

theorem daemon_stays_single:
  assumes "pid_path C = Inr path" and "p < 2 ^ 32" and "procs w p = Some q" and "process_is_sshwarden C q"
    and "ph w p = Starting" and "\<forall>r. r \<noteq> p \<longrightarrow> idle_phase (ph w r)" and "\<not> is_daemon_running C w"
    and "pid_run C p (claims C p (replicate 8 Works) w) w'"
  shows "(\<forall>r. r \<noteq> p \<longrightarrow> ph w' r \<noteq> Finished True) \<and> is_daemon_running C w' \<and> running_agent_pid C w' = Some p"
proof -
  have "owned C p w'" using owned_run [OF assms(8) claim_owned [OF assms(1-7)]] .
  moreover have "\<forall>r. r \<noteq> p \<longrightarrow> ph w' r \<noteq> Finished True" using calculation by (auto simp: owned_def)
  ultimately show ?thesis using owned_found by blast
qed

theorem daemon_stays_single_witness:
  "running_agent_pid demo_pid_ctx
     (pid_do demo_pid_ctx (Step 2 Works) (claims demo_pid_ctx 1 (replicate 8 Works) demo_pid_world)) = Some 1"
proof -
  let ?w = "claims demo_pid_ctx 1 (replicate 8 Works) demo_pid_world"
  have 1: "pid_path demo_pid_ctx = Inr ''/s/sshwarden.pid''" "procs demo_pid_world 1 = Some demo_process" "ph demo_pid_world 1 = Starting"
    "\<forall>r. r \<noteq> 1 \<longrightarrow> idle_phase (ph demo_pid_world r)"
    by (simp_all add: demo_pid_ctx_def demo_pid_world_def)
  have 2: "\<not> is_daemon_running demo_pid_ctx demo_pid_world" by code_simp
  have 3: "(1 :: nat) < 2 ^ 32" by simp
  have "ph ?w 2 = Starting" by code_simp
  then have "pid_run demo_pid_ctx 1 ?w (pid_do demo_pid_ctx (Step 2 Works) ?w)"
    by (intro pid_run_step [OF pid_run_refl]) simp
  from daemon_stays_single [OF 1(1) 3 1(2) demo_process_ok 1(3,4) 2 this] show ?thesis by (elim conjE)
qed

text \<open>
  Two processes that start at the same time can both win. Between creating the file and writing the PID
  the file is empty; a second starter that looks at it then takes it for a stale file, removes it and
  creates its own, and the first one writes its PID to the file that is no longer there.
\<close>

lemma starters_can_both_win:
  "\<exists>schedule. let w = fold (\<lambda>p. claim_step demo_pid_ctx Works p) schedule demo_pid_world
     in ph w 1 = Finished True \<and> ph w 2 = Finished True"
  by (rule exI [of _ "[1, 1, 1, 2, 2, 2, 2, 2, 2, 1, 1, 2, 2]"]) code_simp

end
