(* ===== verification/Log_File.thy ===== *)
theory Log_File
  imports Pid_File
begin

text \<open>
  The daemon's log file: \<open>src/logging.rs\<close>, the writer that rotates to a single backup, and the move
  of a log of an older layout (\<open>src/process.rs\<close>, \<open>migrate_legacy_log\<close>). A name on disk and an
  open file are different things: the state maps the two names to files and the writer holds a file, so
  that removing or renaming under an open file means what it means to the operating system. What the
  system calls answer is an argument.
\<close>

section \<open>Moving an old log\<close>

datatype LogMigration = NotNeeded | Moved string | LeftInPlace string

fun move_log :: "(string \<Rightarrow> bool) \<Rightarrow> (string \<Rightarrow> bool) \<Rightarrow> string \<Rightarrow> string list \<Rightarrow> (string, bytes) amap \<Rightarrow> LogMigration \<times> (string, bytes) amap" where
  "move_log dir_ok rename_ok new_path [] fs = (NotNeeded, fs)"
| "move_log dir_ok rename_ok new_path (legacy # rest) fs =
     (case am_get fs legacy of
        None \<Rightarrow> move_log dir_ok rename_ok new_path rest fs
      | Some text \<Rightarrow>
          if (case parent new_path of Some dir \<Rightarrow> \<not> dir_ok dir | None \<Rightarrow> False) then (LeftInPlace legacy, fs)
          else if rename_ok legacy then (Moved legacy, am_insert new_path text (am_remove legacy fs))
          else (LeftInPlace legacy, fs))"

definition migrate_legacy_log ::
  "(string \<Rightarrow> bool) \<Rightarrow> (string \<Rightarrow> bool) \<Rightarrow> string result \<Rightarrow> string list \<Rightarrow> (string, bytes) amap \<Rightarrow> LogMigration \<times> (string, bytes) amap" where
  "migrate_legacy_log dir_ok rename_ok log_path legacy fs =
     (case log_path of
        Inl _ \<Rightarrow> (NotNeeded, fs)
      | Inr new_path \<Rightarrow>
          if am_get fs new_path \<noteq> None then (NotNeeded, fs) else move_log dir_ok rename_ok new_path legacy fs)"

section \<open>The rotating writer\<close>

record log_disk =
  log_at :: "nat option"
  backup_at :: "nat option"
  log_data :: "nat \<Rightarrow> bytes"
  log_fresh :: nat

record RotatingFileWriter =
  handle :: nat
  max_bytes :: u64
  written_bytes :: u64
  rotation_warned :: bool

record log_answers =
  flush_ok :: bool
  remove_ok :: bool
  rename_ok :: bool
  open_ok :: bool
  accepted :: "nat option"

definition open_append :: "log_disk \<Rightarrow> nat \<times> log_disk" where
  "open_append d =
     (case log_at d of
        Some n \<Rightarrow> (n, d)
      | None \<Rightarrow> (log_fresh d, d\<lparr>log_at := Some (log_fresh d), log_data := (log_data d)(log_fresh d := []), log_fresh := log_fresh d + 1\<rparr>))"

definition writer_open :: "bool \<Rightarrow> bool \<Rightarrow> u64 \<Rightarrow> log_disk \<Rightarrow> RotatingFileWriter option \<times> log_disk" where
  "writer_open opens meta_ok cap d =
     (if \<not> opens then (None, d)
      else let (n, d') = open_append d
           in (Some \<lparr>handle = n, max_bytes = cap,
                     written_bytes = (if meta_ok then word_of_nat (length (log_data d' n)) else 0), rotation_warned = False\<rparr>, d'))"

definition should_rotate :: "RotatingFileWriter \<Rightarrow> nat \<Rightarrow> bool" where
  "should_rotate w incoming \<longleftrightarrow>
     max_bytes w > 0 \<and> written_bytes w > 0 \<and> sat_add (written_bytes w) (word_of_nat incoming) > max_bytes w"

definition rotate :: "log_answers \<Rightarrow> RotatingFileWriter \<Rightarrow> log_disk \<Rightarrow> bool \<times> RotatingFileWriter \<times> log_disk" where
  "rotate a w d =
     (if \<not> flush_ok a then (False, w, d)
      else if \<not> remove_ok a then (False, w, d)
      else let d1 = d\<lparr>backup_at := None\<rparr>
           in (case log_at d1 of
                 None \<Rightarrow> (False, w, d1)
               | Some n \<Rightarrow>
                   if \<not> rename_ok a then (False, w, d1)
                   else let d2 = d1\<lparr>backup_at := Some n, log_at := None\<rparr>
                        in if \<not> open_ok a then (False, w, d2)
                           else let (m, d3) = open_append d2
                                in (True, w\<lparr>handle := m, written_bytes := 0, rotation_warned := False\<rparr>, d3)))"

definition rotate_if_needed :: "log_answers \<Rightarrow> nat \<Rightarrow> RotatingFileWriter \<Rightarrow> log_disk \<Rightarrow> RotatingFileWriter \<times> log_disk" where
  "rotate_if_needed a incoming w d =
     (if \<not> should_rotate w incoming then (w, d)
      else case rotate a w d of
             (True, w', d') \<Rightarrow> (w', d')
           | (False, w', d') \<Rightarrow> (if rotation_warned w' then w' else w'\<lparr>rotation_warned := True\<rparr>, d'))"

definition log_write :: "log_answers \<Rightarrow> bytes \<Rightarrow> RotatingFileWriter \<Rightarrow> log_disk \<Rightarrow> nat option \<times> RotatingFileWriter \<times> log_disk" where
  "log_write a buf w d =
     (let (w1, d1) = rotate_if_needed a (length buf) w d
      in case accepted a of
           None \<Rightarrow> (None, w1, d1)
         | Some k \<Rightarrow>
             let n = min k (length buf)
             in (Some n, w1\<lparr>written_bytes := sat_add (written_bytes w1) (word_of_nat n)\<rparr>,
                 d1\<lparr>log_data := (log_data d1)(handle w1 := log_data d1 (handle w1) @ take n buf)\<rparr>))"

definition backup_path :: "string \<Rightarrow> string" where
  "backup_path path = path @ ''.1''"

text \<open>A run: the records given to the writer with the answers they meet.\<close>

fun log_run :: "(log_answers \<times> bytes) list \<Rightarrow> RotatingFileWriter \<Rightarrow> log_disk \<Rightarrow> RotatingFileWriter \<times> log_disk" where
  "log_run [] w d = (w, d)"
| "log_run ((a, buf) # rest) w d = (case log_write a buf w d of (_, w', d') \<Rightarrow> log_run rest w' d')"

definition current_text :: "log_disk \<Rightarrow> bytes" where
  "current_text d = (case log_at d of Some n \<Rightarrow> log_data d n | None \<Rightarrow> [])"

definition backup_text :: "log_disk \<Rightarrow> bytes" where
  "backup_text d = (case backup_at d of Some n \<Rightarrow> log_data d n | None \<Rightarrow> [])"

definition log_text :: "log_disk \<Rightarrow> bytes" where
  "log_text d = backup_text d @ current_text d"

fun emitted :: "log_answers \<times> bytes \<Rightarrow> bytes" where
  "emitted (a, buf) = (case accepted a of None \<Rightarrow> [] | Some k \<Rightarrow> take (min k (length buf)) buf)"

section \<open>Nothing is lost but the oldest output\<close>

definition log_inv :: "RotatingFileWriter \<Rightarrow> log_disk \<Rightarrow> bool" where
  "log_inv w d \<longleftrightarrow>
     log_at d = Some (handle w) \<and> handle w < log_fresh d
     \<and> (\<forall>n. backup_at d = Some n \<longrightarrow> n \<noteq> handle w \<and> n < log_fresh d)"

lemma rotate_inv:
  assumes "log_inv w d" and "open_ok a" and "rotate a w d = (b, w', d')"
  shows "log_inv w' d' \<and> (\<exists>old. log_text d = old @ log_text d')"
proof -
  have h: "log_at d = Some (handle w)" using assms(1) by (simp add: log_inv_def)
  show ?thesis
    using assms h
    by (auto simp: rotate_def log_inv_def log_text_def backup_text_def current_text_def open_append_def Let_def
        split: if_splits option.splits)
qed

lemma rotate_if_needed_inv:
  assumes "log_inv w d" and "open_ok a" and "rotate_if_needed a n w d = (w', d')"
  shows "log_inv w' d' \<and> (\<exists>old. log_text d = old @ log_text d')"
proof (cases "should_rotate w n")
  case True
  obtain b w1 d1 where r: "rotate a w d = (b, w1, d1)" by (cases "rotate a w d") auto
  have w': "d' = d1" "handle w' = handle w1" using assms(3) True r by (auto simp: rotate_if_needed_def split: bool.splits if_splits)
  then show ?thesis using rotate_inv [OF assms(1,2) r] by (simp add: log_inv_def)
next
  case False
  then show ?thesis using assms(1,3) by (auto simp: rotate_if_needed_def)
qed

lemma append_inv:
  assumes "log_inv w d"
  shows "log_inv (w\<lparr>written_bytes := x\<rparr>) (d\<lparr>log_data := (log_data d)(handle w := log_data d (handle w) @ t)\<rparr>)
    \<and> log_text (d\<lparr>log_data := (log_data d)(handle w := log_data d (handle w) @ t)\<rparr>) = log_text d @ t"
  using assms by (auto simp: log_inv_def log_text_def backup_text_def current_text_def split: option.splits)

lemma write_inv:
  assumes "log_inv w d" and "open_ok a" and "log_write a buf w d = (r, w', d')"
  shows "log_inv w' d' \<and> (\<exists>old. log_text d @ emitted (a, buf) = old @ log_text d')"
proof -
  obtain w1 d1 where 1: "rotate_if_needed a (length buf) w d = (w1, d1)" by (cases "rotate_if_needed a (length buf) w d")
  then obtain old where i: "log_inv w1 d1" and o: "log_text d = old @ log_text d1" using rotate_if_needed_inv [OF assms(1,2)] by blast
  show ?thesis
  proof (cases "accepted a")
    case None
    then show ?thesis using assms(3) 1 i o by (auto simp: log_write_def)
  next
    case (Some k)
    then show ?thesis using assms(3) 1 o append_inv [OF i] by (auto simp: log_write_def Let_def)
  qed
qed

lemma log_run_inv:
  assumes "log_inv w d" and "\<forall>(a, buf) \<in> set rs. open_ok a" and "log_run rs w d = (w', d')"
  shows "log_inv w' d' \<and> (\<exists>old. log_text d @ concat (map emitted rs) = old @ log_text d')"
  using assms
proof (induction rs arbitrary: w d)
  case Nil
  then show ?case by simp
next
  case (Cons r rs)
  obtain a buf where r: "r = (a, buf)" by (cases r)
  obtain x w1 d1 where 1: "log_write a buf w d = (x, w1, d1)" by (cases "log_write a buf w d") auto
  then obtain old where i: "log_inv w1 d1" and o: "log_text d @ emitted r = old @ log_text d1"
    using write_inv [of w d a buf] Cons.prems r by auto
  obtain old2 where i2: "log_inv w' d'" and o2: "log_text d1 @ concat (map emitted rs) = old2 @ log_text d'"
    using Cons.IH [OF i] Cons.prems r 1 by auto
  have "log_text d @ concat (map emitted (r # rs)) = (old @ old2) @ log_text d'"
    using o o2 by (simp flip: append_assoc) (metis append_assoc o)
  then show ?case using i2 by blast
qed

section \<open>Size\<close>

definition log_works :: "log_answers \<Rightarrow> bytes \<Rightarrow> bool" where
  "log_works a buf \<longleftrightarrow> flush_ok a \<and> remove_ok a \<and> rename_ok a \<and> open_ok a \<and> (\<exists>k. accepted a = Some k \<and> length buf \<le> k)"

definition log_sized :: "RotatingFileWriter \<Rightarrow> log_disk \<Rightarrow> bool" where
  "log_sized w d \<longleftrightarrow>
     log_inv w d \<and> 0 < max_bytes w \<and> max_bytes w \<noteq> - 1 \<and> unat (written_bytes w) = length (current_text d)
     \<and> length (current_text d) \<le> unat (max_bytes w) \<and> length (backup_text d) \<le> unat (max_bytes w)"

lemma rotate_works:
  assumes "log_inv w d" and "log_works a buf"
  shows "\<exists>w' d'. rotate a w d = (True, w', d') \<and> log_inv w' d' \<and> current_text d' = [] \<and> backup_text d' = current_text d
    \<and> written_bytes w' = 0 \<and> max_bytes w' = max_bytes w"
  using assms
  by (auto simp: rotate_def log_works_def log_inv_def current_text_def backup_text_def open_append_def Let_def)

lemma should_rotate_iff:
  assumes "max_bytes w \<noteq> - 1" and "0 < max_bytes w" and "n \<le> unat (max_bytes w)"
  shows "should_rotate w n \<longleftrightarrow> 0 < unat (written_bytes w) \<and> unat (max_bytes w) < unat (written_bytes w) + n"
proof -
  have m: "unat (max_bytes w) < 2 ^ 64 - 1"
  proof -
    have "unat (max_bytes w) \<noteq> unat (- 1 :: u64)" using assms(1) by (simp add: word_unat_eq_iff)
    moreover have "unat (- 1 :: u64) = 2 ^ 64 - 1" by (simp add: unsigned_minus_1_eq_mask mask_eq_exp_minus_1)
    moreover have "unat (max_bytes w) < 2 ^ 64" using unsigned_less [of "max_bytes w", where 'a = nat] by simp
    ultimately show ?thesis by linarith
  qed
  then have "unat (word_of_nat n :: u64) = n" using assms(3) by (simp add: unat_of_nat)
  then have "unat (sat_add (written_bytes w) (word_of_nat n)) = min (unat (written_bytes w) + n) (2 ^ 64 - 1)"
    by (simp add: unat_sat_add)
  then have "max_bytes w < sat_add (written_bytes w) (word_of_nat n) \<longleftrightarrow> unat (max_bytes w) < unat (written_bytes w) + n"
    using m by (simp add: word_less_nat_alt min_less_iff_conj)
  moreover have "0 < written_bytes w \<longleftrightarrow> 0 < unat (written_bytes w)" by (simp add: word_less_nat_alt)
  ultimately show ?thesis using assms(2) by (simp add: should_rotate_def)
qed

lemma write_sized:
  assumes "log_sized w d" and "log_works a buf" and "length buf \<le> unat (max_bytes w)" and "log_write a buf w d = (r, w', d')"
  shows "log_sized w' d' \<and> max_bytes w' = max_bytes w \<and> (\<exists>t. current_text d' = t @ buf)"
proof -
  obtain k where k: "accepted a = Some k" "length buf \<le> k" using assms(2) by (auto simp: log_works_def)
  obtain w1 d1 where 1: "rotate_if_needed a (length buf) w d = (w1, d1)" by (cases "rotate_if_needed a (length buf) w d")
  have s: "log_sized w1 d1 \<and> max_bytes w1 = max_bytes w \<and> length (current_text d1) + length buf \<le> unat (max_bytes w)"
  proof (cases "should_rotate w (length buf)")
    case True
    obtain w2 d2 where "rotate a w d = (True, w2, d2)" and 2: "log_inv w2 d2" "current_text d2 = []"
      "backup_text d2 = current_text d" "written_bytes w2 = 0" "max_bytes w2 = max_bytes w"
      using rotate_works assms(1,2) unfolding log_sized_def by blast
    then have "w1 = w2" "d1 = d2" using 1 True by (auto simp: rotate_if_needed_def)
    then show ?thesis using 2 assms(1,3) by (simp add: log_sized_def)
  next
    case False
    then have "w1 = w" "d1 = d" using 1 by (simp_all add: rotate_if_needed_def)
    then show ?thesis
      using False should_rotate_iff [of w "length buf"] assms(1,3) unfolding log_sized_def by (cases "current_text d") auto
  qed
  then have h: "log_at d1 = Some (handle w1)" "\<forall>n. backup_at d1 = Some n \<longrightarrow> n \<noteq> handle w1"
    by (auto simp: log_sized_def log_inv_def)
  have w': "w' = w1\<lparr>written_bytes := sat_add (written_bytes w1) (word_of_nat (length buf))\<rparr>"
    and d': "d' = d1\<lparr>log_data := (log_data d1)(handle w1 := log_data d1 (handle w1) @ buf)\<rparr>"
    using assms(4) 1 k by (auto simp: log_write_def Let_def)
  have c: "current_text d' = current_text d1 @ buf" and b: "backup_text d' = backup_text d1"
    using h by (auto simp: d' current_text_def backup_text_def split: option.splits)
  have lt: "length (current_text d1) + length buf < 2 ^ 64"
    using s unsigned_less [of "max_bytes w", where 'a = nat] by simp
  then have "unat (word_of_nat (length buf) :: u64) = length buf" by (simp add: unat_of_nat)
  then have "unat (written_bytes w') = length (current_text d')"
    using s lt by (simp add: w' c unat_sat_add log_sized_def)
  moreover have "log_inv w' d'" using s by (auto simp: w' d' log_sized_def log_inv_def)
  ultimately show ?thesis using s c b by (auto simp: log_sized_def w')
qed

lemma run_sized:
  assumes "log_sized w d" and "\<forall>(a, buf) \<in> set rs. log_works a buf \<and> length buf \<le> unat (max_bytes w)"
    and "log_run rs w d = (w', d')"
  shows "log_sized w' d' \<and> max_bytes w' = max_bytes w \<and> (rs \<noteq> [] \<longrightarrow> (\<exists>t. current_text d' = t @ snd (last rs)))"
  using assms
proof (induction rs arbitrary: w d)
  case Nil
  then show ?case by simp
next
  case (Cons r rs)
  obtain a buf where r: "r = (a, buf)" by (cases r)
  obtain x w1 d1 where 1: "log_write a buf w d = (x, w1, d1)" by (cases "log_write a buf w d") auto
  then have s: "log_sized w1 d1 \<and> max_bytes w1 = max_bytes w \<and> (\<exists>t. current_text d1 = t @ buf)"
    using write_sized [of w d a buf] Cons.prems r by auto
  have run: "log_run rs w1 d1 = (w', d')" using Cons.prems(3) r 1 by simp
  show ?case
  proof (cases "rs = []")
    case True
    then show ?thesis using s run r by auto
  next
    case False
    then show ?thesis using Cons.IH [of w1 d1] Cons.prems s run by auto
  qed
qed

definition disk_ok :: "log_disk \<Rightarrow> bool" where
  "disk_ok d \<longleftrightarrow>
     (\<forall>n. log_at d = Some n \<longrightarrow> n < log_fresh d) \<and> (\<forall>n. backup_at d = Some n \<longrightarrow> n < log_fresh d \<and> log_at d \<noteq> Some n)"

lemma writer_open_ok:
  assumes "disk_ok d" and "writer_open True True cap d = (Some w, d1)" and "length (current_text d) < 2 ^ 64"
  shows "log_inv w d1 \<and> log_text d1 = log_text d \<and> max_bytes w = cap \<and> current_text d1 = current_text d \<and> backup_text d1 = backup_text d
    \<and> unat (written_bytes w) = length (current_text d1)"
proof (cases "log_at d")
  case None
  then show ?thesis using assms
    by (auto simp: writer_open_def open_append_def disk_ok_def log_inv_def log_text_def current_text_def backup_text_def split: option.splits)
next
  case (Some n)
  then have "unat (word_of_nat (length (log_data d n)) :: u64) = length (log_data d n)"
    using assms(3) by (simp add: unat_of_nat current_text_def)
  then show ?thesis using assms Some
    by (auto simp: writer_open_def open_append_def disk_ok_def log_inv_def current_text_def)
qed

section \<open>Properties\<close>

definition demo_works :: log_answers where
  "demo_works = \<lparr>flush_ok = True, remove_ok = True, rename_ok = True, open_ok = True, accepted = Some 100\<rparr>"

definition demo_disk :: log_disk where
  "demo_disk = \<lparr>log_at = Some 0, backup_at = Some 1, log_data = (\<lambda>n. if n = 0 then [1, 2, 3] else [0]), log_fresh = 2\<rparr>"



text \<open>
  The condition that the new file can be opened is needed. When opening fails after the rename, the
  writer goes on with the file that is the backup now; the next rotation removes that file and then
  finds nothing to rename, and from there on the output goes to a file without a name.
\<close>

lemma failed_reopen_loses_log:
  "let d' = snd (log_run [(demo_works\<lparr>open_ok := False\<rparr>, [4, 5]), (demo_works, [6]), (demo_works, [7])]
       \<lparr>handle = 0, max_bytes = 4, written_bytes = 3, rotation_warned = False\<rparr> demo_disk)
   in log_at d' = None \<and> backup_at d' = None"
  by (simp add: demo_works_def demo_disk_def log_write_def rotate_if_needed_def rotate_def should_rotate_def open_append_def sat_add_def Let_def word_less_nat_alt)

text \<open>Moving the log of an older layout: it is moved as it is, or everything stays as it is.\<close>

lemma move_log_cases:
  "move_log dir_ok ren new_path legacy fs = (r, fs') \<Longrightarrow>
     (case r of Moved from \<Rightarrow> from \<in> set legacy \<and> (\<exists>text. am_get fs from = Some text \<and> fs' = am_insert new_path text (am_remove from fs))
      | _ \<Rightarrow> fs' = fs)"
  by (induction legacy arbitrary: r fs') (auto split: option.splits if_splits LogMigration.splits)

lemma migration_keeps_log:
  assumes "migrate_legacy_log dir_ok ren (Inr new_path) legacy fs = (r, fs')" and "am_inv fs"
  shows "case r of Moved from \<Rightarrow> from \<in> set legacy \<and> am_get fs new_path = None \<and> am_get fs' new_path = am_get fs from
      \<and> (\<forall>path. path \<noteq> new_path \<and> path \<noteq> from \<longrightarrow> am_get fs' path = am_get fs path)
    | _ \<Rightarrow> fs' = fs"
proof (cases "am_get fs new_path")
  case None
  then have m: "move_log dir_ok ren new_path legacy fs = (r, fs')" using assms(1) by (simp add: migrate_legacy_log_def)
  show ?thesis using move_log_cases [OF m] None assms(2)
    by (cases r) (auto simp: am.get_del)
next
  case (Some x)
  then show ?thesis using assms(1) by (auto simp: migrate_legacy_log_def)
qed

end
