(* ===== verification/Dialogs.thy ===== *)
theory Dialogs
  imports Ui_Request
begin

text \<open>
  The PIN dialog and the authorization dialog of \<open>crates/sshwarden-ui\<close>, as state machines over the
  user's actions: \<open>unlock/slint_dialog.rs\<close> and \<open>notify/slint_dialog.rs\<close>. Drawing, placing and
  shaking the window are left out. The answer travels over a one-shot channel: the sender is taken by
  the first answer, and what comes later is dropped.
\<close>

section \<open>The one-shot answer\<close>

definition reply_once :: "'r option \<Rightarrow> 'r \<Rightarrow> 'r option" where
  "reply_once sent r = option_or sent (Some r)"

lemma reply_once_simps [simp]: "reply_once None r = Some r" "reply_once (Some x) r = Some x"
  by (simp_all add: reply_once_def)

text \<open>What the waiting side sees: an answer, a closed channel, or nothing within the time limit.\<close>

datatype 'r received = Answer 'r | Channel_Closed | Timed_Out

section \<open>The authorization dialog\<close>

datatype auth_event = Click_Approve | Click_Deny | Click_Bind | Close_Window

fun auth_reply :: "auth_event \<Rightarrow> AuthorizationResult" where
  "auth_reply Click_Approve = Approved"
| "auth_reply Click_Deny = Denied"
| "auth_reply Click_Bind = BindRequested"
| "auth_reply Close_Window = Denied"

definition show_auth_dialog :: "bool \<Rightarrow> bool \<Rightarrow> auth_event list \<Rightarrow> AuthorizationResult option" where
  "show_auth_dialog created shown events =
     (if \<not> created then Some Denied
      else if \<not> shown then Some Denied
      else fold (\<lambda>e sent. reply_once sent (auth_reply e)) events None)"

definition operation_text :: "string \<Rightarrow> string" where
  "operation_text kind =
     (if kind = ''git_signing'' then ''Git Signing''
      else if kind = ''file_signing'' then ''File Signing''
      else if kind = ''ssh_signature'' then ''SSH Signature''
      else if kind = ''ssh_authentication'' then ''SSH Authentication''
      else kind)"

definition request_authorization :: "bool \<Rightarrow> AuthorizationResult received \<Rightarrow> AuthorizationResult" where
  "request_authorization sent r =
     (if \<not> sent then Denied
      else case r of Answer a \<Rightarrow> a | Channel_Closed \<Rightarrow> Denied | Timed_Out \<Rightarrow> Timeout)"

text \<open>The daemon asks, the dialog answers: the user acted with \<open>events\<close> before the time was up.\<close>

definition authorization :: "bool \<Rightarrow> bool \<Rightarrow> bool \<Rightarrow> auth_event list \<Rightarrow> AuthorizationResult" where
  "authorization sent created shown events =
     request_authorization sent
       (case show_auth_dialog created shown events of Some a \<Rightarrow> Answer a | None \<Rightarrow> Timed_Out)"

text \<open>
  What the three dialogs share: a step never takes back an answer that was sent, and keeps the
  window's invariant. So the first answer is the answer, whatever the user still does.
\<close>

locale one_shot =
  fixes step :: "'e \<Rightarrow> 'd \<Rightarrow> 'd" and reply :: "'d \<Rightarrow> 'r option" and ok :: "'d \<Rightarrow> bool"
  assumes answer_kept: "reply d = Some r \<Longrightarrow> reply (step e d) = Some r"
    and ok_step: "ok d \<Longrightarrow> ok (step e d)"
begin

lemma run_ok: "ok d \<Longrightarrow> ok (fold step es d)"
  by (induction es arbitrary: d) (simp_all add: ok_step)

lemma answer_final: "reply d = Some r \<Longrightarrow> reply (fold step es d) = Some r"
  by (induction es arbitrary: d) (simp_all add: answer_kept)

lemma first_answer: "reply (fold step es d) = Some r \<Longrightarrow> reply (fold step (es @ fs) d) = Some r"
  by (simp add: answer_final)

end

interpretation auth_w: one_shot "\<lambda>e sent. reply_once sent (auth_reply e)" "\<lambda>sent. sent" "\<lambda>_. True"
  by unfold_locales simp_all

lemma fold_reply:
  "fold (\<lambda>e sent. reply_once sent (auth_reply e)) events None = (case events of [] \<Rightarrow> None | e # _ \<Rightarrow> Some (auth_reply e))"
  by (cases events) (simp_all add: auth_w.answer_final)

lemma authorization_cases:
  "authorization sent created shown events =
     (if \<not> sent \<or> \<not> created \<or> \<not> shown then Denied
      else case events of [] \<Rightarrow> Timeout | e # _ \<Rightarrow> auth_reply e)"
  by (simp add: authorization_def request_authorization_def show_auth_dialog_def fold_reply split: list.split)

text \<open>
  The bridge thread of \<open>main\<close> (\<open>run_slint_event_loop\<close>): a request becomes a window when the event loop
  runs; otherwise the request is dropped, and its channel with it. \<open>reply\<close> is what the window had
  answered when the time was up.
\<close>

definition bridge_request :: "bool \<Rightarrow> 'r option \<Rightarrow> 'r received" where
  "bridge_request running reply =
     (if \<not> running then Channel_Closed else case reply of Some a \<Rightarrow> Answer a | None \<Rightarrow> Timed_Out)"

text \<open>From the daemon to the window and back, a signature is approved only by the user's first click.\<close>

lemma approval_is_first_click:
  "request_authorization sent (bridge_request running (show_auth_dialog created shown events)) = Approved
   \<longleftrightarrow> sent \<and> running \<and> created \<and> shown \<and> (\<exists>es. events = Click_Approve # es)"
proof (cases events)
  case Nil
  then show ?thesis by (simp add: request_authorization_def bridge_request_def show_auth_dialog_def)
next
  case (Cons e es)
  have "auth_reply e = Approved \<longleftrightarrow> e = Click_Approve" by (cases e) simp_all
  then show ?thesis
    using Cons by (simp add: request_authorization_def bridge_request_def show_auth_dialog_def auth_w.answer_final)
qed

section \<open>The PIN dialog\<close>

definition unlock_context_text :: "UnlockRequestContext \<Rightarrow> string" where
  "unlock_context_text c =
     uc_process_name c @ '' requests '' @ operation_text (uc_operation_kind c) @ '' with '' @ uc_key_name c
     @ (if uc_is_forwarding c then '' via agent forwarding'' else [])"

text \<open>
  \<open>pd_checking\<close> is the PIN a background thread is checking; \<open>pd_failures\<close> and \<open>pd_captured\<close>
  are what the validator shares with the daemon.
\<close>

record 'a pin_dialog =
  pd_text :: string
  pd_error :: string
  pd_show_error :: bool
  pd_verifying :: bool
  pd_checking :: "string list"
  pd_failures :: PinFailureState
  pd_captured :: "'a option"
  pd_reply :: "string option option"
  pd_visible :: bool

datatype pin_event =
    Type_Pin string
  | Press_Submit
  | Verdict instant instant
  | Press_Cancel
  | Close_Pin

definition pin_dialog_open :: "PinFailureState \<Rightarrow> 'a pin_dialog" where
  "pin_dialog_open pf =
     \<lparr>pd_text = [], pd_error = [], pd_show_error = False, pd_verifying = False, pd_checking = [],
      pd_failures = pf, pd_captured = None, pd_reply = None, pd_visible = True\<rparr>"

definition try_submit :: "'a pin_dialog \<Rightarrow> 'a pin_dialog" where
  "try_submit d =
     (if pd_verifying d then d
      else if pd_text d = [] then d\<lparr>pd_error := ''PIN cannot be empty'', pd_show_error := True\<rparr>
      else d\<lparr>pd_show_error := False, pd_verifying := True, pd_checking := pd_checking d @ [pd_text d]\<rparr>)"

definition verdict :: "(string \<Rightarrow> 'a option) \<Rightarrow> instant \<Rightarrow> instant \<Rightarrow> 'a pin_dialog \<Rightarrow> 'a pin_dialog" where
  "verdict inner t t' d =
     (case pd_checking d of
        [] \<Rightarrow> d
      | pin # rest \<Rightarrow>
          (case gate_pin_validator inner t t' pin (pd_failures d) of
             (Some x, pf) \<Rightarrow>
               d\<lparr>pd_checking := rest, pd_failures := pf, pd_captured := Some x,
                 pd_reply := reply_once (pd_reply d) (Some pin), pd_visible := False\<rparr>
           | (None, pf) \<Rightarrow>
               d\<lparr>pd_checking := rest, pd_failures := pf, pd_text := [], pd_error := ''Incorrect PIN, please try again'',
                 pd_show_error := True, pd_verifying := False\<rparr>))"

definition cancel_pin :: "'a pin_dialog \<Rightarrow> 'a pin_dialog" where
  "cancel_pin d = d\<lparr>pd_reply := reply_once (pd_reply d) None, pd_visible := False\<rparr>"

text \<open>A hidden window gets no input; a check that is running still ends.\<close>

fun pin_step :: "(string \<Rightarrow> 'a option) \<Rightarrow> pin_event \<Rightarrow> 'a pin_dialog \<Rightarrow> 'a pin_dialog" where
  "pin_step inner (Type_Pin s) d =
     (if pd_visible d \<and> \<not> pd_verifying d then d\<lparr>pd_text := s, pd_show_error := False\<rparr> else d)"
| "pin_step inner Press_Submit d = (if pd_visible d then try_submit d else d)"
| "pin_step inner (Verdict t t') d = verdict inner t t' d"
| "pin_step inner Press_Cancel d = (if pd_visible d then cancel_pin d else d)"
| "pin_step inner Close_Pin d = (if pd_visible d then cancel_pin d else d)"

definition show_pin_dialog :: "bool \<Rightarrow> bool \<Rightarrow> (string \<Rightarrow> 'a option) \<Rightarrow> pin_event list \<Rightarrow> PinFailureState \<Rightarrow> 'a pin_dialog" where
  "show_pin_dialog created shown inner events pf =
     (if \<not> created \<or> \<not> shown then (pin_dialog_open pf)\<lparr>pd_reply := Some None, pd_visible := False\<rparr>
      else fold (pin_step inner) events (pin_dialog_open pf))"

definition request_pin_dialog_with_context :: "bool \<Rightarrow> string option received \<Rightarrow> string option" where
  "request_pin_dialog_with_context sent r =
     (if \<not> sent then None else case r of Answer a \<Rightarrow> a | Channel_Closed \<Rightarrow> None | Timed_Out \<Rightarrow> None)"

definition pin_answer :: "'a pin_dialog \<Rightarrow> string option" where
  "pin_answer d = request_pin_dialog_with_context True (case pd_reply d of Some a \<Rightarrow> Answer a | None \<Rightarrow> Timed_Out)"

text \<open>The attempts a run of the dialog makes: the PINs that were checked, with the times of the checks.\<close>

fun attempts_of :: "(string \<Rightarrow> 'a option) \<Rightarrow> pin_event list \<Rightarrow> 'a pin_dialog \<Rightarrow> (instant \<times> instant \<times> string) list" where
  "attempts_of inner [] d = []"
| "attempts_of inner (e # es) d =
     (case (e, pd_checking d) of
        (Verdict t t', pin # _) \<Rightarrow> [(t, t', pin)]
      | _ \<Rightarrow> []) @ attempts_of inner es (pin_step inner e d)"

definition pin_dialog_ok :: "'a pin_dialog \<Rightarrow> bool" where
  "pin_dialog_ok d \<longleftrightarrow>
     length (pd_checking d) \<le> 1 \<and> (pd_checking d \<noteq> [] \<longrightarrow> pd_verifying d)
     \<and> [] \<notin> set (pd_checking d) \<and> (pd_visible d \<longleftrightarrow> pd_reply d = None)
     \<and> (pd_captured d \<noteq> None \<longrightarrow> pd_checking d = [] \<and> \<not> pd_visible d)
     \<and> (\<forall>pin. pd_reply d = Some (Some pin) \<longrightarrow> pd_captured d \<noteq> None)"

lemma pin_dialog_ok_open: "pin_dialog_ok (pin_dialog_open pf)"
  by (simp add: pin_dialog_ok_def pin_dialog_open_def)

lemma pin_dialog_ok_step: "pin_dialog_ok d \<Longrightarrow> pin_dialog_ok (pin_step inner e d)"
  by (cases e; cases "pd_checking d")
     (auto simp: pin_dialog_ok_def try_submit_def verdict_def cancel_pin_def split: prod.splits option.splits)

lemma pin_reply_kept: "pd_reply d = Some r \<Longrightarrow> pd_reply (pin_step inner e d) = Some r"
  by (cases e; cases "pd_checking d")
     (simp_all add: try_submit_def verdict_def cancel_pin_def split: prod.split option.split)

interpretation pin_w: one_shot "pin_step inner" pd_reply pin_dialog_ok
  by unfold_locales (rule pin_reply_kept pin_dialog_ok_step; assumption)+

text \<open>A cancelled dialog answers with no PIN, even when the PIN being checked turns out right.\<close>

lemma cancel_is_final:
  assumes "pd_visible (fold (pin_step inner) es d)" and "pd_reply (fold (pin_step inner) es d) = None"
  shows "pin_answer (fold (pin_step inner) (es @ Press_Cancel # fs) d) = None"
proof -
  have "pd_reply (fold (pin_step inner) (es @ [Press_Cancel]) d) = Some None"
    using assms by (simp add: cancel_pin_def)
  from pin_w.first_answer [OF this, of fs] show ?thesis
    by (simp add: pin_answer_def request_pin_dialog_with_context_def)
qed

text \<open>Once a PIN was accepted nothing is checked any more.\<close>

lemma captured_stays:
  assumes "pin_dialog_ok d" and "pd_captured d \<noteq> None"
  shows "attempts_of inner es d = [] \<and> pd_failures (fold (pin_step inner) es d) = pd_failures d
    \<and> pd_captured (fold (pin_step inner) es d) = pd_captured d \<and> pd_reply (fold (pin_step inner) es d) = pd_reply d"
  using assms
proof (induction es arbitrary: d)
  case (Cons e es)
  have c: "pd_checking d = []" and v: "\<not> pd_visible d" using Cons.prems by (auto simp: pin_dialog_ok_def)
  have "pin_step inner e d = d" using c v by (cases e) (simp_all add: verdict_def)
  then show ?case using Cons c by (cases e) simp_all
qed simp

definition agrees_with_run :: "'a pin_dialog \<Rightarrow> (string \<times> 'a) option \<times> PinFailureState \<Rightarrow> bool" where
  "agrees_with_run d r \<longleftrightarrow>
     pd_failures d = snd r \<and> pd_captured d = map_option snd (fst r)
     \<and> (\<forall>pin. pd_reply d = Some (Some pin) \<longrightarrow> map_option fst (fst r) = Some pin)
     \<and> (fst r \<noteq> None \<longrightarrow> pd_reply d \<in> {Some None, Some (map_option fst (fst r))})"

lemma pin_run:
  assumes "pin_dialog_ok d" and "pd_captured d = None"
  shows "agrees_with_run (fold (pin_step inner) es d) (run_pin_dialog inner (attempts_of inner es d) (pd_failures d))"
  using assms
proof (induction es arbitrary: d)
  case Nil
  then show ?case by (auto simp: agrees_with_run_def pin_dialog_ok_def)
next
  case (Cons e es)
  have ok: "pin_dialog_ok (pin_step inner e d)" by (rule pin_dialog_ok_step [OF Cons.prems(1)])
  show ?case
  proof (cases "\<exists>t t' pin rest. e = Verdict t t' \<and> pd_checking d = pin # rest")
    case True
    then obtain t t' pin rest where e: "e = Verdict t t'" "pd_checking d = pin # rest" by blast
    obtain g pf where g: "gate_pin_validator inner t t' pin (pd_failures d) = (g, pf)"
      by (cases "gate_pin_validator inner t t' pin (pd_failures d)")
    let ?d = "pin_step inner e d"
    show ?thesis
    proof (cases g)
      case None
      then have "pd_failures ?d = pf" "pd_captured ?d = None" using g e Cons.prems(2) by (simp_all add: verdict_def)
      then show ?thesis using Cons.IH [OF ok] g None e by simp
    next
      case (Some x)
      then have d: "pd_failures ?d = pf" "pd_captured ?d = Some x" "pd_reply ?d = reply_once (pd_reply d) (Some pin)"
        using g e by (simp_all add: verdict_def)
      have r: "pd_reply d = None \<or> pd_reply d = Some None"
        using Cons.prems by (cases "pd_reply d"; cases "the (pd_reply d)") (auto simp: pin_dialog_ok_def)
      have "run_pin_dialog inner (attempts_of inner (e # es) d) (pd_failures d) = (Some (pin, x), pf)"
        using g Some e by simp
      then show ?thesis using captured_stays [OF ok, of inner es] d r by (auto simp: agrees_with_run_def)
    qed
  next
    case False
    have "pd_failures (pin_step inner e d) = pd_failures d \<and> pd_captured (pin_step inner e d) = None"
      using False Cons.prems(2) by (cases e; cases "pd_checking d") (auto simp: try_submit_def verdict_def cancel_pin_def)
    moreover have "attempts_of inner (e # es) d = attempts_of inner es (pin_step inner e d)"
      using False by (cases e; cases "pd_checking d") auto
    ultimately show ?thesis using Cons.IH [OF ok] by simp
  qed
qed

definition cancelled_while_checking :: "'a pin_dialog \<Rightarrow> bool" where
  "cancelled_while_checking d \<longleftrightarrow> pd_captured d \<noteq> None \<and> pd_reply d = Some None"

lemma agrees_reply:
  assumes "agrees_with_run d r" and "\<not> cancelled_while_checking d"
  shows "request_pin_dialog_with_context True (case pd_reply d of Some a \<Rightarrow> Answer a | None \<Rightarrow> Timed_Out) = map_option fst (fst r)"
proof (cases "fst r")
  case None
  then have "pd_reply d \<noteq> Some (Some pin)" for pin using assms(1) by (auto simp: agrees_with_run_def)
  then show ?thesis using None
    by (cases "pd_reply d"; cases "the (pd_reply d)") (auto simp: request_pin_dialog_with_context_def)
next
  case (Some x)
  then have "pd_captured d \<noteq> None" and r: "pd_reply d \<in> {Some None, Some (map_option fst (fst r))}"
    using assms(1) by (auto simp: agrees_with_run_def)
  then have "pd_reply d = Some (map_option fst (fst r))" using assms(2) by (auto simp: cancelled_while_checking_def)
  then show ?thesis by (simp add: request_pin_dialog_with_context_def)
qed

lemma no_empty_attempt:
  "pin_dialog_ok d \<Longrightarrow> (t, t', pin) \<in> set (attempts_of inner es d) \<Longrightarrow> pin \<noteq> []"
proof (induction es arbitrary: d)
  case (Cons e es)
  have ok: "pin_dialog_ok (pin_step inner e d)" by (rule pin_dialog_ok_step [OF Cons.prems(1)])
  consider "(t, t', pin) \<in> set (attempts_of inner es (pin_step inner e d))" | "pin \<in> set (pd_checking d)"
    using Cons.prems(2) by (cases e; cases "pd_checking d") auto
  then show ?case
  proof cases
    case 1
    then show ?thesis by (rule Cons.IH [OF ok])
  next
    case 2
    then show ?thesis using Cons.prems(1) unfolding pin_dialog_ok_def by metis
  qed
qed simp

definition tries :: "(string \<Rightarrow> 'a option) \<Rightarrow> pin_event list \<Rightarrow> PinFailureState \<Rightarrow> (instant \<times> instant \<times> string) list" where
  "tries inner events pf = attempts_of inner events (pin_dialog_open pf)"

section \<open>Properties\<close>

text \<open>
  C32: The PIN dialog is a faithful front for the validator. However the user types, submits, cancels or
  closes, and however long the checks take, the PINs that are checked are a sequence of non-empty
  attempts, one after the other, on which the lockout counter and the captured secret end exactly as in
  the sequential dialog of the daemon; and the dialog answers with the PIN which that sequence ends
  with being accepted, or with none, except that a user who cancels while the right PIN is being checked
  gets none.
\<close>

theorem pin_dialog_refines_attempts:
  "(\<forall>(t, t', pin) \<in> set (tries inner events pf). pin \<noteq> [])
    \<and> pd_failures (show_pin_dialog True True inner events pf) = snd (run_pin_dialog inner (tries inner events pf) pf)
    \<and> pd_captured (show_pin_dialog True True inner events pf) = map_option snd (fst (run_pin_dialog inner (tries inner events pf) pf))
    \<and> pin_answer (show_pin_dialog True True inner events pf)
        = (if cancelled_while_checking (show_pin_dialog True True inner events pf) then None
           else map_option fst (fst (run_pin_dialog inner (tries inner events pf) pf)))"
proof -
  let ?d = "pin_dialog_open pf :: 'a pin_dialog"
  let ?f = "show_pin_dialog True True inner events pf"
  let ?r = "run_pin_dialog inner (tries inner events pf) pf"
  have "agrees_with_run ?f ?r"
    using pin_run [OF pin_dialog_ok_open, of pf inner events]
    by (simp add: tries_def show_pin_dialog_def pin_dialog_open_def)
  moreover have "pin_answer ?f = None" if "cancelled_while_checking ?f"
    using that by (simp add: cancelled_while_checking_def pin_answer_def request_pin_dialog_with_context_def)
  moreover have "pin_answer ?f = map_option fst (fst ?r)" if "\<not> cancelled_while_checking ?f"
    using agrees_reply [OF calculation(1) that] by (simp add: pin_answer_def)
  moreover have "\<forall>(t, t', pin) \<in> set (tries inner events pf). pin \<noteq> []"
    using no_empty_attempt [OF pin_dialog_ok_open] unfolding tries_def by blast
  ultimately show ?thesis by (simp add: agrees_with_run_def)
qed

definition demo_check :: "string \<Rightarrow> unit option" where
  "demo_check pin = (if pin = ''12'' then Some () else None)"

definition demo_pin_events :: "pin_event list" where
  "demo_pin_events =
     [Type_Pin ''1'', Press_Submit, Type_Pin ''2'', Verdict 1 2, Type_Pin ''12'', Press_Submit, Verdict 3 4, Close_Pin]"

lemmas demo_pin_simps = demo_check_def demo_pin_events_def show_pin_dialog_def pin_dialog_open_def try_submit_def verdict_def
  cancel_pin_def gate_pin_validator_def pin_lockout_remaining_def record_pin_attempt_def pin_failures_default_def pin_consts
  sat_add_def Let_def

theorem pin_dialog_refines_attempts_witness:
  "pin_answer (show_pin_dialog True True demo_check demo_pin_events pin_failures_default) = Some ''12''"
proof -
  have 1: "\<not> cancelled_while_checking (show_pin_dialog True True demo_check demo_pin_events pin_failures_default)"
    by (simp add: cancelled_while_checking_def demo_pin_simps)
  have 2: "tries demo_check demo_pin_events pin_failures_default = [(1, 2, ''1''), (3, 4, ''12'')]"
    by (simp add: tries_def demo_pin_simps)
  have 3: "map_option fst (fst (run_pin_dialog demo_check [(1, 2, ''1''), (3, 4, ''12'')] pin_failures_default)) = Some ''12''"
    by (simp add: demo_pin_simps word_le_nat_alt)
  have "pin_answer (show_pin_dialog True True demo_check demo_pin_events pin_failures_default)
      = map_option fst (fst (run_pin_dialog demo_check (tries demo_check demo_pin_events pin_failures_default) pin_failures_default))"
    using pin_dialog_refines_attempts [of demo_check demo_pin_events pin_failures_default] 1 by (simp only: if_False)
  then show ?thesis by (simp only: 2 3)
qed

text \<open>The authorization dialog approves only on the user's first action, and only if that was the approval.\<close>

lemma authorization_fails_closed:
  "authorization sent created shown events = Approved \<longleftrightarrow>
     sent \<and> created \<and> shown \<and> (\<exists>rest. events = Click_Approve # rest)"
  by (cases events; cases "hd events") (auto simp: authorization_cases)

end
