(* ===== verification/Atomic_File.thy ===== *)
theory Atomic_File
  imports Stores Paths
begin

text \<open>
  Replacing a file: \<open>write_owner_only_file\<close> of \<open>crates/sshwarden-config/src/lib.rs\<close>. Every call into
  the operating system is a step that may fail on its own; \<open>past\<close> records the state of the file system
  after each of them, so that a property of all of them is a property of a crash at any moment.
\<close>

section \<open>File system calls\<close>

record fs_file =
  file_bytes :: bytes
  file_mode :: nat

type_synonym filesystem = "(string, fs_file) amap"

text \<open>
  How the operating system answers its n-th call: whether the call works, the error text, how much
  of a failing write reaches the disk (\<open>None\<close>: the file could not even be created), and the mode a
  new file gets.
\<close>

record answers =
  works :: "nat \<Rightarrow> bool"
  os_error :: "nat \<Rightarrow> string"
  partial_write :: "nat \<Rightarrow> nat option"
  default_mode :: nat

record machine =
  now_files :: filesystem
  past :: "filesystem list"
  calls :: nat

definition file_at :: "machine \<Rightarrow> string \<Rightarrow> fs_file option" where
  "file_at m p = am_get (now_files m) p"

definition after_call :: "filesystem \<Rightarrow> machine \<Rightarrow> machine" where
  "after_call f m = \<lparr>now_files = f, past = past m @ [f], calls = Suc (calls m)\<rparr>"

definition written :: "answers \<Rightarrow> string \<Rightarrow> bytes \<Rightarrow> filesystem \<Rightarrow> filesystem" where
  "written A p c f =
     am_insert p \<lparr>file_bytes = c, file_mode = (case am_get f p of Some old \<Rightarrow> file_mode old | None \<Rightarrow> default_mode A)\<rparr> f"

definition sys_write :: "answers \<Rightarrow> string \<Rightarrow> bytes \<Rightarrow> machine \<Rightarrow> unit result \<times> machine" where
  "sys_write A p c m =
     (if works A (calls m) then (Inr (), after_call (written A p c (now_files m)) m)
      else (Inl (os_error A (calls m)),
            after_call (case partial_write A (calls m) of
                          None \<Rightarrow> now_files m
                        | Some n \<Rightarrow> written A p (take n c) (now_files m)) m))"

definition sys_chmod :: "answers \<Rightarrow> string \<Rightarrow> nat \<Rightarrow> machine \<Rightarrow> unit result \<times> machine" where
  "sys_chmod A p md m =
     (case (works A (calls m), am_get (now_files m) p) of
        (True, Some x) \<Rightarrow> (Inr (), after_call (am_insert p (x\<lparr>file_mode := md\<rparr>) (now_files m)) m)
      | _ \<Rightarrow> (Inl (os_error A (calls m)), after_call (now_files m) m))"

definition sys_rename :: "answers \<Rightarrow> string \<Rightarrow> string \<Rightarrow> machine \<Rightarrow> unit result \<times> machine" where
  "sys_rename A p q m =
     (case (works A (calls m), am_get (now_files m) p) of
        (True, Some x) \<Rightarrow> (Inr (), after_call (am_insert q x (am_remove p (now_files m))) m)
      | _ \<Rightarrow> (Inl (os_error A (calls m)), after_call (now_files m) m))"

definition sys_remove :: "answers \<Rightarrow> string \<Rightarrow> machine \<Rightarrow> unit result \<times> machine" where
  "sys_remove A p m =
     (case (works A (calls m), am_get (now_files m) p) of
        (True, Some x) \<Rightarrow> (Inr (), after_call (am_remove p (now_files m)) m)
      | _ \<Rightarrow> (Inl (os_error A (calls m)), after_call (now_files m) m))"

text \<open>\<open>Path::exists\<close> is false when the file cannot be examined.\<close>

definition sys_exists :: "answers \<Rightarrow> string \<Rightarrow> machine \<Rightarrow> bool \<times> machine" where
  "sys_exists A p m =
     (works A (calls m) \<and> am_get (now_files m) p \<noteq> None, after_call (now_files m) m)"

section \<open>The write\<close>

text \<open>
  Moving the finished temporary file into place, with the backup detour when the direct rename
  fails. The messages are those of a failed backup, replacement and rename.
\<close>

definition promote_by_backup ::
  "answers \<Rightarrow> string \<Rightarrow> string \<Rightarrow> string \<Rightarrow> string \<Rightarrow> string \<Rightarrow> machine \<Rightarrow> unit result \<times> machine" where
  "promote_by_backup A backup_msg replace_msg tmp path backup m =
     (case sys_remove A backup m of
        (_, m1) \<Rightarrow>
          (case sys_rename A path backup m1 of
             (Inl _, m2) \<Rightarrow> (Inl backup_msg, m2)
           | (Inr _, m2) \<Rightarrow>
               (case sys_rename A tmp path m2 of
                  (Inl _, m3) \<Rightarrow> (Inl replace_msg, snd (sys_rename A backup path m3))
                | (Inr _, m3) \<Rightarrow> (Inr (), snd (sys_remove A backup m3)))))"

definition promote ::
  "answers \<Rightarrow> (string \<Rightarrow> string) \<Rightarrow> string \<Rightarrow> string \<Rightarrow> string \<Rightarrow> string \<Rightarrow> string \<Rightarrow> machine \<Rightarrow> unit result \<times> machine"
  where
  "promote A backup_msg replace_msg rename_msg tmp path backup m =
     (case sys_rename A tmp path m of
        (Inr _, m1) \<Rightarrow> (Inr (), m1)
      | (Inl e, m1) \<Rightarrow>
          (case sys_exists A path m1 of
             (False, m2) \<Rightarrow> (Inl rename_msg, m2)
           | (True, m2) \<Rightarrow> promote_by_backup A (backup_msg e) replace_msg tmp path backup m2))"

definition with_suffix :: "string \<Rightarrow> string \<Rightarrow> string" where
  "with_suffix path suffix = path @ suffix"

definition write_owner_only_file :: "answers \<Rightarrow> string \<Rightarrow> bytes \<Rightarrow> machine \<Rightarrow> unit result \<times> machine" where
  "write_owner_only_file A path c m =
     (let tmp = with_suffix path ''.tmp''
      in case sys_write A tmp c m of
        (Inl _, m1) \<Rightarrow> (Inl (''Failed to write tmp file: '' @ tmp), m1)
      | (Inr _, m1) \<Rightarrow>
          (case sys_chmod A tmp 0x180 m1 of
             (Inl _, m2) \<Rightarrow> (Inl (''Failed to set permissions on tmp file: '' @ tmp), m2)
           | (Inr _, m2) \<Rightarrow>
               promote A (\<lambda>e. ''Failed to back up '' @ path @ '' after rename error: '' @ e)
                 (''Failed to replace file: '' @ path) (''Failed to rename tmp file: '' @ path)
                 tmp path (with_suffix path ''.bak'') m2))"

section \<open>What every moment keeps\<close>

text \<open>
  \<open>path\<close> holds its old file, or the complete new one, or its old file is in the backup; no file
  besides the three is touched.
\<close>

definition safe_moment ::
  "string \<Rightarrow> string \<Rightarrow> string \<Rightarrow> (fs_file \<Rightarrow> bool) \<Rightarrow> filesystem \<Rightarrow> filesystem \<Rightarrow> bool" where
  "safe_moment path tmp backup new f0 f \<longleftrightarrow>
     (am_get f path = am_get f0 path
      \<or> (\<exists>x. am_get f path = Some x \<and> new x)
      \<or> am_get f path = None \<and> am_get f0 path \<noteq> None \<and> am_get f backup = am_get f0 path)
     \<and> (\<forall>q. q \<notin> {path, tmp, backup} \<longrightarrow> am_get f q = am_get f0 q)"

definition safe_run ::
  "string \<Rightarrow> string \<Rightarrow> string \<Rightarrow> (fs_file \<Rightarrow> bool) \<Rightarrow> filesystem \<Rightarrow> machine \<Rightarrow> bool" where
  "safe_run path tmp backup new f0 m \<longleftrightarrow>
     am_inv (now_files m) \<and> (\<forall>f \<in> set (past m). safe_moment path tmp backup new f0 f)"

lemmas am_laws = am_inv_insert am.inv_del am.get_del

lemma past_after [simp]: "past (after_call f m) = past m @ [f]" "now_files (after_call f m) = f"
  by (simp_all add: after_call_def)

lemma sys_rename_cases:
  assumes "sys_rename A p q m = (r, m')"
  obtains (ok) x where "r = Inr ()" "am_get (now_files m) p = Some x"
      "now_files m' = am_insert q x (am_remove p (now_files m))" "past m' = past m @ [now_files m']"
  | (failed) e where "r = Inl e" "now_files m' = now_files m" "past m' = past m @ [now_files m]"
  using assms by (auto simp: sys_rename_def split: bool.splits option.splits)

lemma sys_remove_cases:
  assumes "sys_remove A p m = (r, m')"
  obtains (ok) "now_files m' = am_remove p (now_files m)" "past m' = past m @ [now_files m']"
  | (failed) "now_files m' = now_files m" "past m' = past m @ [now_files m]"
  using assms by (auto simp: sys_remove_def split: bool.splits option.splits)

lemma sys_exists_cases:
  assumes "sys_exists A p m = (b, m')"
  shows "now_files m' = now_files m" "past m' = past m @ [now_files m]" "b \<Longrightarrow> am_get (now_files m) p \<noteq> None"
  using assms by (auto simp: sys_exists_def)

text \<open>
  The state before the promotion: the temporary file is complete and \<open>path\<close> untouched.
\<close>

definition ready :: "string \<Rightarrow> string \<Rightarrow> string \<Rightarrow> fs_file \<Rightarrow> filesystem \<Rightarrow> filesystem \<Rightarrow> bool" where
  "ready path tmp backup x f0 f \<longleftrightarrow>
     am_inv f \<and> am_get f tmp = Some x \<and> am_get f path = am_get f0 path
     \<and> (\<forall>q. q \<notin> {path, tmp, backup} \<longrightarrow> am_get f q = am_get f0 q)"

text \<open>How a promotion ends.\<close>

definition promoted ::
  "string \<Rightarrow> string \<Rightarrow> string \<Rightarrow> fs_file \<Rightarrow> filesystem \<Rightarrow> unit result \<Rightarrow> filesystem \<Rightarrow> bool" where
  "promoted path tmp backup x f0 r f \<longleftrightarrow>
     am_inv f \<and>
     (if is_ok r then am_get f path = Some x \<and> am_get f tmp = None
      else am_get f path = am_get f0 path
           \<or> am_get f path = None \<and> am_get f0 path \<noteq> None \<and> am_get f backup = am_get f0 path)"

definition safe_since ::
  "string \<Rightarrow> string \<Rightarrow> string \<Rightarrow> fs_file \<Rightarrow> filesystem \<Rightarrow> machine \<Rightarrow> machine \<Rightarrow> bool" where
  "safe_since path tmp backup x f0 m m' \<longleftrightarrow>
     (\<exists>fs. past m' = past m @ fs \<and> (\<forall>f \<in> set fs. safe_moment path tmp backup ((=) x) f0 f))"

lemma safe_since_trans:
  "safe_since path tmp backup x f0 m1 m2 \<Longrightarrow> safe_since path tmp backup x f0 m2 m3 \<Longrightarrow>
   safe_since path tmp backup x f0 m1 m3"
  by (fastforce simp: safe_since_def)

lemma safe_since_step:
  "past m' = past m @ [f] \<Longrightarrow> safe_moment path tmp backup ((=) x) f0 f \<Longrightarrow> safe_since path tmp backup x f0 m m'"
  by (auto simp: safe_since_def)

lemma ready_safe: "ready path tmp backup x f0 f \<Longrightarrow> safe_moment path tmp backup ((=) x) f0 f"
  by (simp add: ready_def safe_moment_def)

lemma promote_by_backup_safe:
  assumes d: "path \<noteq> tmp" "path \<noteq> backup" "tmp \<noteq> backup"
    and rdy: "ready path tmp backup x f0 (now_files m)" and old: "am_get f0 path \<noteq> None"
    and run: "promote_by_backup A bm pm tmp path backup m = (r, m')"
  shows "promoted path tmp backup x f0 r (now_files m') \<and> safe_since path tmp backup x f0 m m'"
proof -
  obtain r1 m1 r2 m2 where x1: "sys_remove A backup m = (r1, m1)" and x2: "sys_rename A path backup m1 = (r2, m2)"
    by (metis surj_pair)
  have rdy1: "ready path tmp backup x f0 (now_files m1)" and p1: "past m1 = past m @ [now_files m1]"
    using x1 rdy d by (auto elim!: sys_remove_cases simp: ready_def am_laws)
  then have s1: "safe_since path tmp backup x f0 m m1" by (blast intro: safe_since_step ready_safe)
  show ?thesis
    using x2
  proof (cases rule: sys_rename_cases)
    case (failed e)
    then have "safe_since path tmp backup x f0 m1 m2" using rdy1 by (blast intro: safe_since_step ready_safe)
    with s1 have "safe_since path tmp backup x f0 m m2" by (rule safe_since_trans)
    with failed run x1 x2 rdy1 show ?thesis by (auto simp: promote_by_backup_def promoted_def ready_def)
  next
    case (ok y)
    obtain r3 m3 where x3: "sys_rename A tmp path m2 = (r3, m3)" by fastforce
    have m2: "am_inv (now_files m2)" "am_get (now_files m2) path = None" "am_get (now_files m2) tmp = Some x"
      "am_get (now_files m2) backup = am_get f0 path"
      "\<forall>q. q \<notin> {path, tmp, backup} \<longrightarrow> am_get (now_files m2) q = am_get f0 q"
      using ok rdy1 d by (auto simp: ready_def am_laws)
    then have "safe_moment path tmp backup ((=) x) f0 (now_files m2)" using old by (simp add: safe_moment_def)
    then have s2: "safe_since path tmp backup x f0 m m2"
      using ok(4) s1 by (blast intro: safe_since_step safe_since_trans)
    show ?thesis
      using x3
    proof (cases rule: sys_rename_cases)
      case (failed e)
      have f3: "safe_moment path tmp backup ((=) x) f0 (now_files m3)" using failed m2 old by (simp add: safe_moment_def)
      then have s3: "safe_since path tmp backup x f0 m m3"
        using failed s2 by (metis safe_since_step safe_since_trans)
      obtain r4 where x4: "sys_rename A backup path m3 = (r4, m')" and r: "r = Inl pm"
        using run x1 x2 x3 ok(1) failed(1) by (auto simp: promote_by_backup_def prod_eq_iff)
      have "promoted path tmp backup x f0 r (now_files m') \<and> past m' = past m3 @ [now_files m']
          \<and> safe_moment path tmp backup ((=) x) f0 (now_files m')"
        using x4 r failed m2 old d f3
        by (auto elim!: sys_rename_cases simp: promoted_def safe_moment_def am_laws)
      with s3 show ?thesis by (blast intro: safe_since_step safe_since_trans)
    next
      case x: (ok z)
      have m3: "am_inv (now_files m3)" "am_get (now_files m3) path = Some x" "am_get (now_files m3) tmp = None"
        "\<forall>q. q \<notin> {path, tmp, backup} \<longrightarrow> am_get (now_files m3) q = am_get f0 q"
        using x m2 d by (auto simp: am_laws)
      then have "safe_moment path tmp backup ((=) x) f0 (now_files m3)" by (simp add: safe_moment_def)
      then have s3: "safe_since path tmp backup x f0 m m3"
        using x(4) s2 by (blast intro: safe_since_step safe_since_trans)
      obtain r4 where x4: "sys_remove A backup m3 = (r4, m')" and r: "r = Inr ()"
        using run x1 x2 x3 ok(1) x(1) by (auto simp: promote_by_backup_def prod_eq_iff)
      have "promoted path tmp backup x f0 r (now_files m') \<and> past m' = past m3 @ [now_files m']
          \<and> safe_moment path tmp backup ((=) x) f0 (now_files m')"
        using x4 r m3 d by (auto elim!: sys_remove_cases simp: promoted_def safe_moment_def am_laws)
      with s3 show ?thesis by (blast intro: safe_since_step safe_since_trans)
    qed
  qed
qed

lemma promote_safe:
  assumes d: "path \<noteq> tmp" "path \<noteq> backup" "tmp \<noteq> backup"
    and rdy: "ready path tmp backup x f0 (now_files m)"
    and run: "promote A bm pm rm tmp path backup m = (r, m')"
  shows "promoted path tmp backup x f0 r (now_files m') \<and> safe_since path tmp backup x f0 m m'"
proof (cases "sys_rename A tmp path m")
  case (Pair r1 m1)
  then show ?thesis
  proof (cases rule: sys_rename_cases)
    case (ok y)
    then show ?thesis
      using run Pair rdy d
      by (auto simp: promote_def ready_def promoted_def safe_since_def safe_moment_def am_laws)
  next
    case (failed e)
    obtain b m2 where x2: "sys_exists A path m1 = (b, m2)" by fastforce
    note f2 = sys_exists_cases [OF x2]
    have rdy2: "ready path tmp backup x f0 (now_files m2)" using f2(1) failed(2) rdy by simp
    have s2: "safe_since path tmp backup x f0 m m2"
      using failed f2(1,2) rdy ready_safe [OF rdy] by (simp add: safe_since_def)
    show ?thesis
    proof (cases b)
      case False
      then show ?thesis
        using run Pair failed(1) x2 s2 rdy2 by (auto simp: promote_def promoted_def ready_def)
    next
      case True
      have "am_get f0 path \<noteq> None" using True failed(2) f2(3) rdy by (simp add: ready_def)
      moreover have "promote_by_backup A (bm e) pm tmp path backup m2 = (r, m')"
        using True run Pair failed(1) x2 by (simp add: promote_def)
      ultimately show ?thesis using promote_by_backup_safe [OF d rdy2] s2 by (blast intro: safe_since_trans)
    qed
  qed
qed

lemma tmp_only:
  assumes "am_inv f0" and "am_inv f" and "\<forall>q. q \<noteq> tmp \<longrightarrow> am_get f q = am_get f0 q" and "path \<noteq> tmp"
  shows "safe_moment path tmp backup ((=) x) f0 f"
    and "am_get f tmp = Some x \<Longrightarrow> ready path tmp backup x f0 f"
    and "promoted path tmp backup x f0 (Inl e) f"
  using assms by (auto simp: safe_moment_def ready_def promoted_def)

lemma sys_write_tmp:
  assumes "sys_write A p c m = (r, m')" and "am_inv (now_files m)"
  shows "am_inv (now_files m') \<and> past m' = past m @ [now_files m']
    \<and> (\<forall>q. q \<noteq> p \<longrightarrow> am_get (now_files m') q = am_get (now_files m) q)
    \<and> (is_ok r \<longrightarrow> map_option file_bytes (am_get (now_files m') p) = Some c)"
  using assms by (auto simp: sys_write_def written_def am_laws split: if_splits option.splits)

lemma sys_chmod_tmp:
  assumes "sys_chmod A p md m = (r, m')" and "am_inv (now_files m)"
  shows "am_inv (now_files m') \<and> past m' = past m @ [now_files m']
    \<and> (\<forall>q. q \<noteq> p \<longrightarrow> am_get (now_files m') q = am_get (now_files m) q)
    \<and> (is_ok r \<longrightarrow> map_option file_mode (am_get (now_files m') p) = Some md
         \<and> map_option file_bytes (am_get (now_files m') p) = map_option file_bytes (am_get (now_files m) p))"
  using assms by (auto simp: sys_chmod_def am_laws split: bool.splits option.splits)

abbreviation private_file :: "bytes \<Rightarrow> fs_file" where
  "private_file c \<equiv> \<lparr>file_bytes = c, file_mode = 0x180\<rparr>"

lemma private_file_eq: "map_option file_mode y = Some 0x180 \<Longrightarrow> map_option file_bytes y = Some c \<Longrightarrow> y = Some (private_file c)"
  by (cases y) auto

lemma suffix_distinct [simp]:
  "path \<noteq> with_suffix path ''.tmp''" "path \<noteq> with_suffix path ''.bak''"
  "with_suffix path ''.tmp'' \<noteq> with_suffix path ''.bak''"
  by (simp_all add: with_suffix_def)

lemma write_owner_only_file_safe:
  assumes inv: "am_inv (now_files m)" and run: "write_owner_only_file A path c m = (r, m')"
  shows "promoted path (with_suffix path ''.tmp'') (with_suffix path ''.bak'') (private_file c) (now_files m) r (now_files m')
    \<and> safe_since path (with_suffix path ''.tmp'') (with_suffix path ''.bak'') (private_file c) (now_files m) m m'"
    (is "?P r m' \<and> ?S m m'")
proof -
  let ?tmp = "with_suffix path ''.tmp''"
  obtain r1 m1 r2 m2 where x1: "sys_write A ?tmp c m = (r1, m1)" and x2: "sys_chmod A ?tmp 0x180 m1 = (r2, m2)"
    by (metis surj_pair)
  note w = sys_write_tmp [OF x1 inv]
  then have w2: "am_inv (now_files m2) \<and> past m2 = past m1 @ [now_files m2]
    \<and> (\<forall>q. q \<noteq> ?tmp \<longrightarrow> am_get (now_files m2) q = am_get (now_files m) q)"
    using sys_chmod_tmp [OF x2] by metis
  have s1: "?S m m1" using w inv by (intro safe_since_step [where f = "now_files m1"] tmp_only(1)) auto
  show ?thesis
  proof (cases r1)
    case (Inl e)
    moreover have "?P (Inl e') m1" for e' using w inv by (intro tmp_only(3)) auto
    ultimately show ?thesis using run x1 s1 by (auto simp: write_owner_only_file_def)
  next
    case r1: (Inr u)
    have s2: "?S m m2"
      using w2 inv by (intro safe_since_trans [OF s1] safe_since_step [where f = "now_files m2"] tmp_only(1)) auto
    show ?thesis
    proof (cases r2)
      case (Inl e)
      moreover have "?P (Inl e') m2" for e' using w2 inv by (intro tmp_only(3)) auto
      ultimately show ?thesis using run x1 x2 r1 s2 by (auto simp: write_owner_only_file_def)
    next
      case (Inr v)
      have "am_get (now_files m2) ?tmp = Some (private_file c)"
        using sys_chmod_tmp [OF x2] w r1 Inr by (intro private_file_eq) auto
      then have "ready path ?tmp (with_suffix path ''.bak'') (private_file c) (now_files m) (now_files m2)"
        using w2 inv by (intro tmp_only(2)) auto
      from promote_safe [OF suffix_distinct this] run x1 x2 r1 Inr s2 show ?thesis
        by (auto simp: write_owner_only_file_def intro: safe_since_trans)
    qed
  qed
qed

lemma write_owner_only_file_works:
  "(\<And>n. works A n) \<Longrightarrow> fst (write_owner_only_file A path c m) = Inr ()"
  by (simp add: write_owner_only_file_def sys_write_def sys_chmod_def written_def promote_def sys_rename_def Let_def
      split: option.splits)

section \<open>The stores' view\<close>

text \<open>What a store reads at a path, by its parser.\<close>

definition stored_view :: "(bytes \<Rightarrow> 'a option) \<Rightarrow> filesystem \<Rightarrow> string \<Rightarrow> 'a stored" where
  "stored_view parse f p =
     (case am_get f p of
        None \<Rightarrow> Absent
      | Some x \<Rightarrow> (case parse (file_bytes x) of None \<Rightarrow> Malformed | Some v \<Rightarrow> Present v))"

text \<open>
  The replacing write of theory \<open>Stores\<close> is an abstraction of this one: some outcome \<open>w\<close> of
  \<open>write_outcome\<close> gives the same answer and the same view of the file.
\<close>

lemma write_refines_replaced:
  assumes "am_inv (now_files m)" and "write_owner_only_file A path c m = (r, m')" and "parse c = Some v"
  shows "\<exists>w. replaced w v (stored_view parse (now_files m) path) = (r, stored_view parse (now_files m') path)"
proof (cases r)
  case (Inr u)
  then show ?thesis
    using write_owner_only_file_safe [OF assms(1,2)] assms(3)
    by (intro exI [of _ Written]) (simp add: promoted_def replaced_def stored_view_def)
next
  case (Inl e)
  have "am_get (now_files m') path = am_get (now_files m) path \<or> am_get (now_files m') path = None"
    using write_owner_only_file_safe [OF assms(1,2)] Inl by (auto simp: promoted_def)
  then show ?thesis
  proof
    assume "am_get (now_files m') path = am_get (now_files m) path"
    then show ?thesis using Inl by (intro exI [of _ "Kept_Old e"]) (simp add: replaced_def stored_view_def)
  next
    assume "am_get (now_files m') path = None"
    then show ?thesis using Inl by (intro exI [of _ "Lost e"]) (simp add: replaced_def stored_view_def)
  qed
qed

section \<open>Properties\<close>

text \<open>
  C23: saving a file never loses the only copy. Whatever system call fails and wherever the process
  is interrupted, at every moment the path holds its old file, or the complete new content with
  mode 0600, or the old file is intact in the backup beside it; no other file is touched. Success
  is reported exactly with the new content in place and no temporary file left, failure leaves the old
  file in place or in the backup, and when the system works the write succeeds.
\<close>

theorem atomic_write_keeps_old_or_new:
  assumes "am_inv (now_files m)" and "write_owner_only_file A path c m = (r, m')"
  shows "(\<exists>moments. past m' = past m @ moments \<and> (\<forall>f \<in> set moments.
            (am_get f path = file_at m path \<or> am_get f path = Some \<lparr>file_bytes = c, file_mode = 0x180\<rparr>
             \<or> file_at m path \<noteq> None \<and> am_get f (path @ ''.bak'') = file_at m path)
            \<and> (\<forall>q. q \<notin> {path, path @ ''.tmp'', path @ ''.bak''} \<longrightarrow> am_get f q = file_at m q)))
    \<and> (if is_ok r
       then file_at m' path = Some \<lparr>file_bytes = c, file_mode = 0x180\<rparr> \<and> file_at m' (path @ ''.tmp'') = None
       else file_at m' path = file_at m path
            \<or> file_at m path \<noteq> None \<and> file_at m' (path @ ''.bak'') = file_at m path)
    \<and> ((\<forall>n. works A n) \<longrightarrow> is_ok r)"
proof (intro conjI)
  note safe = write_owner_only_file_safe [OF assms]
  obtain moments where p: "past m' = past m @ moments"
    and all: "\<forall>f \<in> set moments. safe_moment path (path @ ''.tmp'') (path @ ''.bak'') ((=) (private_file c)) (now_files m) f"
    using safe by (auto simp: safe_since_def with_suffix_def)
  show "\<exists>moments. past m' = past m @ moments \<and> (\<forall>f \<in> set moments.
            (am_get f path = file_at m path \<or> am_get f path = Some \<lparr>file_bytes = c, file_mode = 0x180\<rparr>
             \<or> file_at m path \<noteq> None \<and> am_get f (path @ ''.bak'') = file_at m path)
            \<and> (\<forall>q. q \<notin> {path, path @ ''.tmp'', path @ ''.bak''} \<longrightarrow> am_get f q = file_at m q))"
    using p all by (intro exI [of _ moments]) (fastforce simp: safe_moment_def file_at_def)
  show "if is_ok r
       then file_at m' path = Some \<lparr>file_bytes = c, file_mode = 0x180\<rparr> \<and> file_at m' (path @ ''.tmp'') = None
       else file_at m' path = file_at m path
            \<or> file_at m path \<noteq> None \<and> file_at m' (path @ ''.bak'') = file_at m path"
    using safe by (auto simp: promoted_def file_at_def with_suffix_def)
  show "(\<forall>n. works A n) \<longrightarrow> is_ok r" using write_owner_only_file_works [of A path c m] assms(2) by simp
qed

definition demo_machine :: machine where
  "demo_machine = \<lparr>now_files = [(''cache'', \<lparr>file_bytes = [1], file_mode = 0x1A4\<rparr>)], past = [], calls = 0\<rparr>"

text \<open>The third call, the direct rename, fails; and so does the promotion after the backup.\<close>

definition demo_answers :: answers where
  "demo_answers = \<lparr>works = (\<lambda>n. n \<noteq> 2 \<and> n \<noteq> 6 \<and> n \<noteq> 7), os_error = (\<lambda>_. ''busy''), partial_write = (\<lambda>_. None), default_mode = 0x1A4\<rparr>"

theorem atomic_write_keeps_old_or_new_witness:
  "file_at (snd (write_owner_only_file demo_answers ''cache'' [2, 3] demo_machine)) ''cache'' = None
   \<and> file_at (snd (write_owner_only_file demo_answers ''cache'' [2, 3] demo_machine)) ''cache.bak''
      = Some \<lparr>file_bytes = [1], file_mode = 0x1A4\<rparr>"
proof -
  let ?w = "write_owner_only_file demo_answers ''cache'' [2, 3] demo_machine"
  have inv: "am_inv (now_files demo_machine)" by (simp add: demo_machine_def am_inv_def)
  have r: "fst ?w = Inl ''Failed to replace file: cache''" and gone: "file_at (snd ?w) ''cache'' = None"
    by code_simp+
  have "file_at demo_machine ''cache'' = Some \<lparr>file_bytes = [1], file_mode = 0x1A4\<rparr>"
    by (simp add: demo_machine_def file_at_def)
  moreover have "if is_ok (fst ?w) then file_at (snd ?w) ''cache'' = Some \<lparr>file_bytes = [2, 3], file_mode = 0x180\<rparr>
        \<and> file_at (snd ?w) (''cache'' @ ''.tmp'') = None
      else file_at (snd ?w) ''cache'' = file_at demo_machine ''cache''
        \<or> file_at demo_machine ''cache'' \<noteq> None \<and> file_at (snd ?w) (''cache'' @ ''.bak'') = file_at demo_machine ''cache''"
    by (rule atomic_write_keeps_old_or_new [OF inv surjective_pairing, THEN conjunct2, THEN conjunct1])
  ultimately show ?thesis using r gone by simp
qed

end
