(* ===== verification/Bindings.thy ===== *)
theory Bindings
  imports Atomic_File
begin

text \<open>
  Host bindings, \<open>crates/sshwarden-config/src/bindings.rs\<close>: which SSH host patterns a vault key is
  offered for, the checks on a pattern, the edits, and the locked read-modify-write cycle on
  \<open>bindings.json\<close>.
\<close>

section \<open>Contents\<close>

type_synonym i64 = "64 word"

record KeyBinding =
  hosts :: "string list"
  updated_at :: i64

record HostBindingsFile =
  bf_version :: u32
  bindings :: "(string, KeyBinding) amap"

definition bindings_default :: HostBindingsFile where
  "bindings_default = \<lparr>bf_version = 1, bindings = []\<rparr>"

definition binding_default :: KeyBinding where
  "binding_default = \<lparr>hosts = [], updated_at = 0\<rparr>"

text \<open>The wall clock reads seconds since the epoch, or a time before it.\<close>

definition now_secs :: "nat option \<Rightarrow> i64" where
  "now_secs clock = (case clock of Some s \<Rightarrow> word_of_nat s | None \<Rightarrow> 0)"

section \<open>Host patterns\<close>

datatype error =
    Empty_Pattern
  | Whitespace_Pattern string
  | Control_Pattern string
  | Unsafe_Pattern string
  | Message string

definition unsafe_char :: "string \<Rightarrow> bool" where
  "unsafe_char g \<longleftrightarrow> g \<in> {[CHR 0x22], [CHR 0x27], [CHR 0x5C], ''#''}"

definition validate_host_pattern :: "string \<Rightarrow> error + unit" where
  "validate_host_pattern pattern =
     (let trimmed = trim pattern
      in if trimmed = [] then Inl Empty_Pattern
         else if list_ex is_whitespace (rust_chars trimmed) then Inl (Whitespace_Pattern pattern)
         else if list_ex is_control (rust_chars trimmed) then Inl (Control_Pattern pattern)
         else if list_ex unsafe_char (rust_chars trimmed) then Inl (Unsafe_Pattern pattern)
         else Inr ())"

fun validate_all :: "string list \<Rightarrow> error + unit" where
  "validate_all [] = Inr ()"
| "validate_all (h # hs) = (case validate_host_pattern h of Inl e \<Rightarrow> Inl e | Inr _ \<Rightarrow> validate_all hs)"

section \<open>Edits\<close>

definition has_host :: "string \<Rightarrow> string list \<Rightarrow> bool" where
  "has_host h hs \<longleftrightarrow> list_ex (\<lambda>existing. eq_ignore_ascii_case existing h) hs"

fun dedup_hosts :: "string list \<Rightarrow> string list \<Rightarrow> string list" where
  "dedup_hosts deduped [] = deduped"
| "dedup_hosts deduped (h # hs) =
     dedup_hosts (if has_host (trim h) deduped then deduped else deduped @ [trim h]) hs"

definition set_hosts :: "i64 \<Rightarrow> string \<Rightarrow> string list \<Rightarrow> HostBindingsFile \<Rightarrow> error + HostBindingsFile" where
  "set_hosts now cipher_uuid hs f =
     (case validate_all hs of
        Inl e \<Rightarrow> Inl e
      | Inr _ \<Rightarrow>
          let deduped = dedup_hosts [] hs
          in Inr (f\<lparr>bindings :=
               (if deduped = [] then am_remove cipher_uuid (bindings f)
                else am_insert cipher_uuid \<lparr>hosts = deduped, updated_at = now\<rparr> (bindings f))\<rparr>))"

definition add_host :: "i64 \<Rightarrow> string \<Rightarrow> string \<Rightarrow> HostBindingsFile \<Rightarrow> error + HostBindingsFile" where
  "add_host now cipher_uuid host f =
     (case validate_host_pattern host of
        Inl e \<Rightarrow> Inl e
      | Inr _ \<Rightarrow>
          let entry = unwrap_or binding_default (am_get (bindings f) cipher_uuid);
              hs = (if has_host (trim host) (hosts entry) then hosts entry else hosts entry @ [trim host])
          in Inr (f\<lparr>bindings := am_insert cipher_uuid \<lparr>hosts = hs, updated_at = now\<rparr> (bindings f)\<rparr>))"

definition remove_host :: "i64 \<Rightarrow> string \<Rightarrow> string \<Rightarrow> HostBindingsFile \<Rightarrow> bool \<times> HostBindingsFile" where
  "remove_host now cipher_uuid host f =
     (case am_get (bindings f) cipher_uuid of
        None \<Rightarrow> (False, f)
      | Some entry \<Rightarrow>
          let kept = filter (\<lambda>h. \<not> eq_ignore_ascii_case h (trim host)) (hosts entry);
              removed = (length kept \<noteq> length (hosts entry))
          in (removed,
              f\<lparr>bindings :=
                (if kept = [] then am_remove cipher_uuid (bindings f)
                 else am_insert cipher_uuid
                        \<lparr>hosts = kept, updated_at = (if removed then now else updated_at entry)\<rparr> (bindings f))\<rparr>))"

definition clear_key :: "string \<Rightarrow> HostBindingsFile \<Rightarrow> bool \<times> HostBindingsFile" where
  "clear_key cipher_uuid f =
     (am_get (bindings f) cipher_uuid \<noteq> None, f\<lparr>bindings := am_remove cipher_uuid (bindings f)\<rparr>)"

definition prune_orphans :: "string list \<Rightarrow> HostBindingsFile \<Rightarrow> nat \<times> HostBindingsFile" where
  "prune_orphans known_ids f =
     (let kept = am_retain (\<lambda>i _. i \<in> set known_ids) (bindings f)
      in (length (bindings f) - length kept, f\<lparr>bindings := kept\<rparr>))"

section \<open>Loading and saving\<close>

definition load_from :: "string \<Rightarrow> HostBindingsFile stored \<Rightarrow> error + HostBindingsFile" where
  "load_from path d =
     (case d of
        Absent \<Rightarrow> Inr bindings_default
      | Unreadable \<Rightarrow> Inl (Message (''Failed to read bindings file: '' @ path))
      | Malformed \<Rightarrow> Inl (Message (''Failed to parse bindings file: '' @ path))
      | Present f \<Rightarrow> Inr f)"

text \<open>
  Saving, as seen by later loads: \<open>made\<close> tells whether the directory could be created, \<open>w\<close> how
  the replacement of the file ended.
\<close>

definition save_to ::
  "bool \<Rightarrow> write_outcome \<Rightarrow> string \<Rightarrow> HostBindingsFile \<Rightarrow> HostBindingsFile stored \<Rightarrow> (error + unit) \<times> HostBindingsFile stored"
  where
  "save_to made w path f d =
     (if \<not> made then (Inl (Message (''Failed to create bindings directory: '' @ unwrap_or [] (parent path))), d)
      else case replaced w f d of
        (Inl e, d') \<Rightarrow> (Inl (Message e), d')
      | (Inr _, d') \<Rightarrow> (Inr (), d'))"

text \<open>The replacement itself, call by call, on the serialised contents.\<close>

definition save_file :: "answers \<Rightarrow> string \<Rightarrow> bytes \<Rightarrow> machine \<Rightarrow> unit result \<times> machine" where
  "save_file A path c m =
     (let tmp = with_extension path ''json.tmp''
      in case sys_write A tmp c m of
        (Inl _, m1) \<Rightarrow> (Inl (''Failed to write bindings tmp file: '' @ tmp), m1)
      | (Inr _, m1) \<Rightarrow>
          promote A (\<lambda>e. ''Failed to move existing bindings file to backup after rename error: '' @ e)
            (''Failed to replace bindings file: '' @ path) (''Failed to rename bindings tmp file: '' @ path)
            tmp path (with_extension path ''json.bak'') m1)"

definition delete_bindings :: "bool \<Rightarrow> string \<Rightarrow> HostBindingsFile stored \<Rightarrow> (error + unit) \<times> HostBindingsFile stored" where
  "delete_bindings removable path d =
     (case d of
        Absent \<Rightarrow> (Inr (), d)
      | _ \<Rightarrow> if removable then (Inr (), Absent)
             else (Inl (Message (''Failed to delete bindings file: '' @ path)), d))"

section \<open>Locked updates\<close>

datatype lock_answer = Lock_Acquired | Would_Block | Lock_Error

definition LOCK_TIMEOUT :: duration where
  "LOCK_TIMEOUT = secs 10"

definition LOCK_RETRY_INTERVAL :: duration where
  "LOCK_RETRY_INTERVAL = 50 * 1000000"

text \<open>
  The retry loop: \<open>try_lock n\<close> is the answer to the n-th attempt, \<open>clock n\<close> the time read after a
  contended one. It returns the number of the successful attempt.
\<close>

partial_function (option) acquire_loop ::
  "(nat \<Rightarrow> lock_answer) \<Rightarrow> (nat \<Rightarrow> instant) \<Rightarrow> instant \<Rightarrow> string \<Rightarrow> nat \<Rightarrow> (error + nat) option" where
  "acquire_loop try_lock clock deadline lock_path n =
     (case try_lock n of
        Lock_Acquired \<Rightarrow> Some (Inr n)
      | Would_Block \<Rightarrow>
          if clock n \<ge> deadline
          then Some (Inl (Message (''Another sshwarden process is updating host bindings; timed out waiting for the lock ('' @ lock_path @ '')'')))
          else acquire_loop try_lock clock deadline lock_path (Suc n)
      | Lock_Error \<Rightarrow> Some (Inl (Message (''Failed to lock bindings file: '' @ lock_path))))"

definition acquire_lock ::
  "bool \<Rightarrow> bool \<Rightarrow> (nat \<Rightarrow> lock_answer) \<Rightarrow> instant \<Rightarrow> (nat \<Rightarrow> instant) \<Rightarrow> string \<Rightarrow> (error + nat) option" where
  "acquire_lock made opened try_lock start clock path =
     (let lock_path = with_extension path ''json.lock''
      in if \<not> made then Some (Inl (Message (''Failed to create bindings directory: '' @ unwrap_or [] (parent lock_path))))
         else if \<not> opened then Some (Inl (Message (''Failed to open bindings lock file: '' @ lock_path)))
         else acquire_loop try_lock clock (start + LOCK_TIMEOUT) lock_path 0)"

text \<open>The critical section: load, edit, save; an error on the way leaves the file alone.\<close>

definition locked_section ::
  "bool \<Rightarrow> write_outcome \<Rightarrow> string \<Rightarrow> (HostBindingsFile \<Rightarrow> error + ('a \<times> HostBindingsFile)) \<Rightarrow>
     HostBindingsFile stored \<Rightarrow> (error + 'a) \<times> HostBindingsFile stored" where
  "locked_section made w path mutate d =
     (case load_from path d of
        Inl e \<Rightarrow> (Inl e, d)
      | Inr f \<Rightarrow>
          (case mutate f of
             Inl e \<Rightarrow> (Inl e, d)
           | Inr (v, f') \<Rightarrow>
               (case save_to made w path f' d of
                  (Inl e, d') \<Rightarrow> (Inl e, d')
                | (Inr _, d') \<Rightarrow> (Inr v, d'))))"

definition update_locked ::
  "(error + nat) \<Rightarrow> bool \<Rightarrow> write_outcome \<Rightarrow> string \<Rightarrow> (HostBindingsFile \<Rightarrow> error + ('a \<times> HostBindingsFile)) \<Rightarrow>
     HostBindingsFile stored \<Rightarrow> (error + 'a) \<times> HostBindingsFile stored" where
  "update_locked lock made w path mutate d =
     (case lock of Inl e \<Rightarrow> (Inl e, d) | Inr _ \<Rightarrow> locked_section made w path mutate d)"

section \<open>What a host list is\<close>

definition lower :: "string \<Rightarrow> string" where
  "lower h = map to_ascii_lower h"

definition host_ok :: "string \<Rightarrow> bool" where
  "host_ok h \<longleftrightarrow> validate_host_pattern h = Inr () \<and> trim h = h"

definition host_list_ok :: "string list \<Rightarrow> bool" where
  "host_list_ok hs \<longleftrightarrow> (\<forall>h \<in> set hs. host_ok h) \<and> distinct (map lower hs)"

definition wf_bindings :: "HostBindingsFile \<Rightarrow> bool" where
  "wf_bindings f \<longleftrightarrow>
     am_inv (bindings f) \<and> (\<forall>i b. am_get (bindings f) i = Some b \<longrightarrow> hosts b \<noteq> [] \<and> host_list_ok (hosts b))"

lemma eq_ignore_lower: "eq_ignore_ascii_case h k \<longleftrightarrow> lower h = lower k"
  by (simp add: eq_ignore_ascii_case_def lower_def)

lemma has_host_iff: "has_host h hs \<longleftrightarrow> lower h \<in> lower ` set hs"
  unfolding has_host_def list_ex_iff eq_ignore_lower image_iff by metis

lemma validate_trim: "validate_host_pattern (trim h) = Inr () \<longleftrightarrow> validate_host_pattern h = Inr ()"
  by (simp add: validate_host_pattern_def Let_def)

lemma host_ok_trim: "validate_host_pattern h = Inr () \<Longrightarrow> host_ok (trim h)"
  by (simp add: host_ok_def validate_trim)

lemma validate_all_ok: "validate_all hs = Inr () \<longleftrightarrow> (\<forall>h \<in> set hs. validate_host_pattern h = Inr ())"
  by (induction hs) (auto split: sum.splits)

lemma validate_all_cases: "(\<exists>e. validate_all hs = Inl e) \<or> validate_all hs = Inr ()"
  by (cases "validate_all hs") auto

lemma dedup_lower: "lower ` set (dedup_hosts acc hs) = lower ` set acc \<union> (\<lambda>h. lower (trim h)) ` set hs"
proof (induction acc hs rule: dedup_hosts.induct)
  case (2 acc h hs)
  show ?case
  proof (cases "has_host (trim h) acc")
    case True
    then have "lower (trim h) \<in> lower ` set acc" by (simp add: has_host_iff)
    with 2 True show ?thesis by simp blast
  qed (use 2 in simp)
qed simp

lemma dedup_ok:
  "host_list_ok acc \<Longrightarrow> \<forall>h \<in> set hs. validate_host_pattern h = Inr () \<Longrightarrow> host_list_ok (dedup_hosts acc hs)"
proof (induction acc hs rule: dedup_hosts.induct)
  case (2 acc h hs)
  have "host_list_ok (acc @ [trim h])" if "\<not> has_host (trim h) acc"
    using that 2(2,3) host_ok_trim [of h] by (simp add: host_list_ok_def has_host_iff)
  with 2 show ?case by simp
qed simp

lemma dedup_id:
  "host_list_ok (acc @ hs) \<Longrightarrow> dedup_hosts acc hs = acc @ hs"
proof (induction acc hs rule: dedup_hosts.induct)
  case (2 acc h hs)
  have t: "trim h = h" and n: "\<not> has_host h acc"
    using 2(2) by (auto simp: host_list_ok_def host_ok_def has_host_iff)
  then have "dedup_hosts acc (h # hs) = dedup_hosts (acc @ [h]) hs" by simp
  also have "\<dots> = (acc @ [h]) @ hs" using 2(1) [unfolded t] n 2(2) by simp
  finally show ?case by simp
qed simp

lemma dedup_Nil: "dedup_hosts acc hs = [] \<longleftrightarrow> acc = [] \<and> hs = []"
  using dedup_lower [of acc hs] by auto

section \<open>The edits as operations on a set\<close>

text \<open>
  What the file says, abstractly: which key is bound to which host, host names without case.
\<close>

definition bound :: "HostBindingsFile \<Rightarrow> (string \<times> string) set" where
  "bound f = {(i, lower h) |i h. \<exists>b. am_get (bindings f) i = Some b \<and> h \<in> set (hosts b)}"

lemma in_bound: "(i, l) \<in> bound f \<longleftrightarrow> (\<exists>b. am_get (bindings f) i = Some b \<and> l \<in> lower ` set (hosts b))"
  by (auto simp: bound_def)

lemma bound_eqI: "(\<And>i l. (i, l) \<in> bound f \<longleftrightarrow> (i, l) \<in> S) \<Longrightarrow> bound f = S"
  by auto

lemma set_hosts_cases:
  "set_hosts now i hs f =
     (case validate_all hs of
        Inl e \<Rightarrow> Inl e
      | Inr _ \<Rightarrow> Inr (f\<lparr>bindings := (if hs = [] then am_remove i (bindings f)
          else am_insert i \<lparr>hosts = dedup_hosts [] hs, updated_at = now\<rparr> (bindings f))\<rparr>))"
  by (simp add: set_hosts_def Let_def dedup_Nil split: sum.splits)

lemma set_hosts_spec:
  assumes "wf_bindings f" and "set_hosts now i hs f = Inr f'"
  shows "wf_bindings f' \<and> bound f' = {p \<in> bound f. fst p \<noteq> i} \<union> {(i, lower (trim h)) |h. h \<in> set hs}"
proof -
  have ok: "\<forall>h \<in> set hs. validate_host_pattern h = Inr ()"
    using assms(2) by (auto simp: set_hosts_cases validate_all_ok [symmetric] split: sum.splits)
  have f': "f' = f\<lparr>bindings := (if hs = [] then am_remove i (bindings f)
      else am_insert i \<lparr>hosts = dedup_hosts [] hs, updated_at = now\<rparr> (bindings f))\<rparr>"
    using assms(2) by (auto simp: set_hosts_cases split: sum.splits)
  have "host_list_ok (dedup_hosts [] hs)" using ok by (intro dedup_ok) (simp_all add: host_list_ok_def)
  then have "wf_bindings f'"
    using assms(1) by (auto simp: f' wf_bindings_def amap_simps am_inv_insert dedup_Nil split: if_splits)
  moreover have "bound f' = {p \<in> bound f. fst p \<noteq> i} \<union> {(i, lower (trim h)) |h. h \<in> set hs}"
    using assms(1) dedup_lower [of "[]" hs]
    by (intro bound_eqI) (auto simp: in_bound f' wf_bindings_def amap_simps)
  ultimately show ?thesis by simp
qed

lemma add_host_spec:
  assumes "wf_bindings f" and "add_host now i h f = Inr f'"
  shows "wf_bindings f' \<and> bound f' = insert (i, lower (trim h)) (bound f)"
proof -
  let ?old = "hosts (unwrap_or binding_default (am_get (bindings f) i))"
  let ?hs = "if has_host (trim h) ?old then ?old else ?old @ [trim h]"
  have ok: "host_ok (trim h)" and f': "f' = f\<lparr>bindings := am_insert i \<lparr>hosts = ?hs, updated_at = now\<rparr> (bindings f)\<rparr>"
    using assms(2) by (auto simp: add_host_def Let_def host_ok_trim split: sum.splits)
  have old: "host_list_ok ?old"
    using assms(1) by (cases "am_get (bindings f) i") (auto simp: wf_bindings_def host_list_ok_def binding_default_def)
  then have "host_list_ok ?hs \<and> ?hs \<noteq> [] \<and> lower ` set ?hs = insert (lower (trim h)) (lower ` set ?old)"
    using ok by (auto simp: host_list_ok_def has_host_iff)
  note hs = this
  have "wf_bindings f'"
    using assms(1) hs by (auto simp: f' wf_bindings_def am_inv_insert)
  moreover have "bound f' = insert (i, lower (trim h)) (bound f)"
  proof (rule bound_eqI)
    fix j l
    show "(j, l) \<in> bound f' \<longleftrightarrow> (j, l) \<in> insert (i, lower (trim h)) (bound f)"
    proof (cases "j = i")
      case True
      have "(i, l) \<in> bound f' \<longleftrightarrow> l \<in> lower ` set ?hs" by (simp add: in_bound f')
      also have "\<dots> \<longleftrightarrow> l = lower (trim h) \<or> l \<in> lower ` set ?old" using hs by blast
      also have "\<dots> \<longleftrightarrow> (i, l) \<in> insert (i, lower (trim h)) (bound f)"
        by (cases "am_get (bindings f) i") (auto simp: in_bound binding_default_def)
      finally show ?thesis using True by simp
    qed (simp add: in_bound f')
  qed
  ultimately show ?thesis by simp
qed

lemma filter_shorter: "length (filter P xs) \<noteq> length xs \<longleftrightarrow> (\<exists>x \<in> set xs. \<not> P x)"
  by (metis filter_True length_filter_less less_irrefl)

lemma host_list_ok_filter: "host_list_ok hs \<Longrightarrow> host_list_ok (filter P hs)"
  by (simp add: host_list_ok_def distinct_map_filter)

lemma remove_host_spec:
  assumes "wf_bindings f" and "remove_host now i h f = (r, f')"
  shows "wf_bindings f' \<and> bound f' = bound f - {(i, lower (trim h))} \<and> (r \<longleftrightarrow> (i, lower (trim h)) \<in> bound f)"
proof (cases "am_get (bindings f) i")
  case None
  then show ?thesis using assms by (auto simp: remove_host_def in_bound)
next
  case (Some b)
  let ?kept = "filter (\<lambda>x. \<not> eq_ignore_ascii_case x (trim h)) (hosts b)"
  let ?at = "if r then now else updated_at b"
  have "r \<longleftrightarrow> length ?kept \<noteq> length (hosts b)" using assms(2) Some by (auto simp: remove_host_def Let_def)
  then have r: "r \<longleftrightarrow> lower (trim h) \<in> lower ` set (hosts b)"
    unfolding filter_shorter eq_ignore_lower image_iff by metis
  have f': "f' = f\<lparr>bindings := (if ?kept = [] then am_remove i (bindings f)
      else am_insert i \<lparr>hosts = ?kept, updated_at = ?at\<rparr> (bindings f))\<rparr>"
    using assms(2) Some by (auto simp: remove_host_def Let_def)
  have kept: "lower ` set ?kept = lower ` set (hosts b) - {lower (trim h)}" by (auto simp: eq_ignore_lower)
  have wf: "am_inv (bindings f)" "host_list_ok (hosts b)" using assms(1) Some by (auto simp: wf_bindings_def)
  have look: "am_get (bindings f') j = (if j = i then (if ?kept = [] then None else Some \<lparr>hosts = ?kept, updated_at = ?at\<rparr>)
      else am_get (bindings f) j)" for j
    using wf(1) by (simp add: f' am.get_del)
  have "wf_bindings f'"
    unfolding wf_bindings_def look
    using assms(1) wf host_list_ok_filter [OF wf(2)]
    by (auto simp: f' wf_bindings_def am_inv_insert am.inv_del split: if_splits)
  moreover have "bound f' = bound f - {(i, lower (trim h))}"
  proof (rule bound_eqI)
    fix j l
    show "(j, l) \<in> bound f' \<longleftrightarrow> (j, l) \<in> bound f - {(i, lower (trim h))}"
    proof (cases "j = i")
      case True
      have "(i, l) \<in> bound f' \<longleftrightarrow> l \<in> lower ` set ?kept" unfolding in_bound look by (cases "?kept = []") simp_all
      also have "\<dots> \<longleftrightarrow> (i, l) \<in> bound f - {(i, lower (trim h))}" unfolding kept using Some by (simp add: in_bound)
      finally show ?thesis using True by simp
    qed (simp add: in_bound look)
  qed
  ultimately show ?thesis using r Some by (auto simp: in_bound)
qed

lemma clear_key_spec:
  assumes "wf_bindings f"
  shows "wf_bindings (snd (clear_key i f)) \<and> bound (snd (clear_key i f)) = {p \<in> bound f. fst p \<noteq> i}
    \<and> (fst (clear_key i f) \<longleftrightarrow> i \<in> fst ` bound f)"
proof (intro conjI)
  have wf: "am_inv (bindings f)" "\<And>j b. am_get (bindings f) j = Some b \<Longrightarrow> hosts b \<noteq> [] \<and> host_list_ok (hosts b)"
    using assms by (auto simp: wf_bindings_def)
  then show "wf_bindings (snd (clear_key i f))" by (auto simp: clear_key_def wf_bindings_def amap_simps split: if_splits)
  show "bound (snd (clear_key i f)) = {p \<in> bound f. fst p \<noteq> i}"
    using wf(1) by (intro bound_eqI) (auto simp: clear_key_def in_bound amap_simps)
  show "fst (clear_key i f) \<longleftrightarrow> i \<in> fst ` bound f"
    using wf(2) [of i] by (cases "am_get (bindings f) i") (force simp: clear_key_def bound_def neq_Nil_conv)+
qed

lemma bound_keys: "wf_bindings f \<Longrightarrow> fst ` bound f = {i. am_get (bindings f) i \<noteq> None}"
  by (force simp: bound_def wf_bindings_def neq_Nil_conv)

lemma prune_orphans_spec:
  assumes "wf_bindings f"
  shows "wf_bindings (snd (prune_orphans known f)) \<and> bound (snd (prune_orphans known f)) = {p \<in> bound f. fst p \<in> set known}
    \<and> fst (prune_orphans known f) = card (fst ` bound f - set known)"
proof (intro conjI)
  let ?k = "am_retain (\<lambda>i _. i \<in> set known) (bindings f)"
  have inv: "am_inv (bindings f)" using assms by (simp add: wf_bindings_def)
  have look: "am_get ?k i = (if i \<in> set known then am_get (bindings f) i else None)" for i
    using am.get_retain [OF inv] by (cases "am_get (bindings f) i") auto
  show "wf_bindings (snd (prune_orphans known f))"
    using assms am.inv_retain [OF inv] by (auto simp: prune_orphans_def Let_def wf_bindings_def look split: if_splits)
  show "bound (snd (prune_orphans known f)) = {p \<in> bound f. fst p \<in> set known}"
    by (intro bound_eqI) (auto simp: prune_orphans_def Let_def in_bound look)
  have "length (bindings f) = card {i. am_get (bindings f) i \<noteq> None}" using am.size_get [OF inv] .
  moreover have "length ?k = card ({i. am_get (bindings f) i \<noteq> None} \<inter> set known)"
    unfolding am.size_get [OF am.inv_retain [OF inv]] look by (rule arg_cong [of _ _ card]) auto
  ultimately show "fst (prune_orphans known f) = card (fst ` bound f - set known)"
    using am.finite_get [of "bindings f"] by (simp add: prune_orphans_def Let_def bound_keys [OF assms] card_Diff_subset_Int)
qed

section \<open>The lock\<close>

text \<open>
  What the retry loop relies on: a sleep takes at least its length, and the clock does not run
  backwards.
\<close>

definition sleeps :: "instant \<Rightarrow> (nat \<Rightarrow> instant) \<Rightarrow> bool" where
  "sleeps start clock \<longleftrightarrow> start \<le> clock 0 \<and> (\<forall>n. clock n + LOCK_RETRY_INTERVAL \<le> clock (Suc n))"

lemma sleeps_lower: "sleeps start clock \<Longrightarrow> start + n * LOCK_RETRY_INTERVAL \<le> clock n"
proof (induction n)
  case (Suc n)
  then have "clock n + LOCK_RETRY_INTERVAL \<le> clock (Suc n)" by (simp add: sleeps_def)
  with Suc show ?case by simp
qed (simp add: sleeps_def)

lemma retries_suffice: "200 * LOCK_RETRY_INTERVAL = LOCK_TIMEOUT"
  by (simp add: LOCK_TIMEOUT_def LOCK_RETRY_INTERVAL_def secs_def)

text \<open>The first attempt at which the loop stops, and what it returns there.\<close>

definition stops_at :: "(nat \<Rightarrow> lock_answer) \<Rightarrow> (nat \<Rightarrow> instant) \<Rightarrow> instant \<Rightarrow> nat \<Rightarrow> bool" where
  "stops_at try_lock clock deadline n \<longleftrightarrow> try_lock n \<noteq> Would_Block \<or> deadline \<le> clock n"

lemma acquire_loop_runs:
  assumes "stops_at try_lock clock deadline m" and "n \<le> m"
  shows "\<exists>k. n \<le> k \<and> k \<le> m \<and> stops_at try_lock clock deadline k \<and> (\<forall>j. n \<le> j \<and> j < k \<longrightarrow> \<not> stops_at try_lock clock deadline j)
    \<and> acquire_loop try_lock clock deadline lp n = acquire_loop try_lock clock deadline lp k"
  using assms(2)
proof (induction "m - n" arbitrary: n)
  case 0
  with assms(1) show ?case by (intro exI [of _ m]) auto
next
  case (Suc d)
  show ?case
  proof (cases "stops_at try_lock clock deadline n")
    case True
    with Suc.prems show ?thesis by (intro exI [of _ n]) auto
  next
    case False
    have "Suc n \<le> m" "d = m - Suc n" using Suc.hyps(2) by arith+
    from Suc.hyps(1) [OF this(2,1)] obtain k where k: "Suc n \<le> k" "k \<le> m" "stops_at try_lock clock deadline k"
      "\<forall>j. Suc n \<le> j \<and> j < k \<longrightarrow> \<not> stops_at try_lock clock deadline j"
      "acquire_loop try_lock clock deadline lp (Suc n) = acquire_loop try_lock clock deadline lp k" by blast
    have "acquire_loop try_lock clock deadline lp n = acquire_loop try_lock clock deadline lp (Suc n)"
      using False by (subst acquire_loop.simps) (auto simp: stops_at_def)
    moreover have "\<forall>j. n \<le> j \<and> j < k \<longrightarrow> \<not> stops_at try_lock clock deadline j"
      using k(4) False by (metis le_antisym not_less_eq_eq)
    ultimately show ?thesis using k by (intro exI [of _ k]) auto
  qed
qed

lemma acquire_loop_stop:
  assumes "stops_at try_lock clock deadline k"
  shows "acquire_loop try_lock clock deadline lp k = Some
    (case try_lock k of Lock_Acquired \<Rightarrow> Inr k
      | Would_Block \<Rightarrow> Inl (Message (''Another sshwarden process is updating host bindings; timed out waiting for the lock ('' @ lp @ '')''))
      | Lock_Error \<Rightarrow> Inl (Message (''Failed to lock bindings file: '' @ lp)))"
  using assms by (subst acquire_loop.simps) (auto simp: stops_at_def split: lock_answer.splits)

section \<open>Concurrent updates\<close>

text \<open>
  Several processes run \<open>update_locked\<close> with edits of their own on the same file. The steps are
  those of the code: an attempt at the lock, the load, the edit and save, and the unlock; the
  operating system grants the lock only when nobody holds it and frees it when its holder dies.
  \<open>Writing\<close> and \<open>Releasing\<close> are the states between the steps. Two fields only record what
  happened: \<open>commits\<close> the processes whose save changed the file, in order, and \<open>lost\<close> that a failing
  save left the file only in its backup.
\<close>

datatype phase =
    Waiting
  | Loading
  | Writing HostBindingsFile
  | Releasing "error + unit"
  | Finished "error + unit"
  | Dead

record shared =
  on_disk :: "HostBindingsFile stored"
  holder :: "nat option"
  phases :: "nat \<Rightarrow> phase"
  commits :: "nat list"
  lost :: bool

type_synonym edit = "HostBindingsFile \<Rightarrow> error + HostBindingsFile"

fun is_lost :: "write_outcome \<Rightarrow> bool" where
  "is_lost (Lost _) = True"
| "is_lost _ = False"

abbreviation set_phase :: "nat \<Rightarrow> phase \<Rightarrow> shared \<Rightarrow> shared" where
  "set_phase p ph s \<equiv> s\<lparr>phases := (phases s)(p := ph)\<rparr>"

inductive update_step :: "string \<Rightarrow> (nat \<Rightarrow> edit) \<Rightarrow> shared \<Rightarrow> shared \<Rightarrow> bool" for path edits where
  acquire: "phases s p = Waiting \<Longrightarrow> holder s = None \<Longrightarrow>
     update_step path edits s ((set_phase p Loading s)\<lparr>holder := Some p\<rparr>)"
| retry: "phases s p = Waiting \<Longrightarrow> holder s \<noteq> None \<Longrightarrow> update_step path edits s s"
| give_up: "phases s p = Waiting \<Longrightarrow> update_step path edits s (set_phase p (Finished (Inl e)) s)"
| load: "phases s p = Loading \<Longrightarrow> load_from path (on_disk s) = Inr f \<Longrightarrow>
     update_step path edits s (set_phase p (Writing f) s)"
| load_error: "phases s p = Loading \<Longrightarrow> load_from path (on_disk s) = Inl e \<Longrightarrow>
     update_step path edits s (set_phase p (Releasing (Inl e)) s)"
| edit_error: "phases s p = Writing f \<Longrightarrow> edits p f = Inl e \<Longrightarrow>
     update_step path edits s (set_phase p (Releasing (Inl e)) s)"
| save: "phases s p = Writing f \<Longrightarrow> edits p f = Inr f' \<Longrightarrow> save_to made w path f' (on_disk s) = (Inr (), d) \<Longrightarrow>
     update_step path edits s ((set_phase p (Releasing (Inr ())) s)\<lparr>on_disk := d, commits := commits s @ [p]\<rparr>)"
| save_error: "phases s p = Writing f \<Longrightarrow> edits p f = Inr f' \<Longrightarrow>
     save_to made w path f' (on_disk s) = (Inl e, d) \<Longrightarrow>
     update_step path edits s ((set_phase p (Releasing (Inl e)) s)\<lparr>on_disk := d, lost := lost s \<or> is_lost w\<rparr>)"
| release: "phases s p = Releasing r \<Longrightarrow>
     update_step path edits s ((set_phase p (Finished r) s)\<lparr>holder := None\<rparr>)"
| die: "phases s p \<noteq> Dead \<Longrightarrow>
     update_step path edits s ((set_phase p Dead s)\<lparr>holder := (if holder s = Some p then None else holder s)\<rparr>)"

inductive update_run :: "string \<Rightarrow> (nat \<Rightarrow> edit) \<Rightarrow> shared \<Rightarrow> shared \<Rightarrow> bool" for path edits where
  start: "update_run path edits s s"
| step: "update_run path edits s t \<Longrightarrow> update_step path edits t u \<Longrightarrow> update_run path edits s u"

definition in_section :: "phase \<Rightarrow> bool" where
  "in_section ph = (case ph of Loading \<Rightarrow> True | Writing _ \<Rightarrow> True | Releasing _ \<Rightarrow> True | _ \<Rightarrow> False)"

definition succeeded :: "phase \<Rightarrow> bool" where
  "succeeded ph \<longleftrightarrow> ph = Releasing (Inr ()) \<or> ph = Finished (Inr ())"

lemma phase_simps [simp]:
  "\<not> in_section Waiting" "in_section Loading" "in_section (Writing f)" "in_section (Releasing r)"
  "\<not> in_section (Finished r)" "\<not> in_section Dead"
  "\<not> succeeded Waiting" "\<not> succeeded Loading" "\<not> succeeded (Writing f)" "\<not> succeeded Dead"
  "\<not> succeeded (Releasing (Inl e))" "\<not> succeeded (Finished (Inl e))"
  "succeeded (Releasing (Inr ()))" "succeeded (Finished r) = succeeded (Releasing r)"
  by (auto simp: in_section_def succeeded_def)

text \<open>Edits applied one after the other.\<close>

fun apply_edits :: "(nat \<Rightarrow> edit) \<Rightarrow> nat list \<Rightarrow> HostBindingsFile \<Rightarrow> error + HostBindingsFile" where
  "apply_edits edits [] f = Inr f"
| "apply_edits edits (p # ps) f = (case edits p f of Inl e \<Rightarrow> Inl e | Inr f' \<Rightarrow> apply_edits edits ps f')"

lemma apply_edits_snoc:
  "apply_edits edits ps f = Inr g \<Longrightarrow> edits p g = Inr g' \<Longrightarrow> apply_edits edits (ps @ [p]) f = Inr g'"
  by (induction edits ps f rule: apply_edits.induct) (auto split: sum.splits)

definition exclusive :: "shared \<Rightarrow> bool" where
  "exclusive s \<longleftrightarrow> (\<forall>p. in_section (phases s p) \<longrightarrow> holder s = Some p)"

definition committed :: "shared \<Rightarrow> bool" where
  "committed s \<longleftrightarrow> distinct (commits s)
     \<and> (\<forall>p \<in> set (commits s). phases s p = Dead \<or> succeeded (phases s p))
     \<and> (\<forall>p. succeeded (phases s p) \<longrightarrow> p \<in> set (commits s))"

definition in_step :: "string \<Rightarrow> (nat \<Rightarrow> edit) \<Rightarrow> HostBindingsFile \<Rightarrow> shared \<Rightarrow> bool" where
  "in_step path edits f0 s \<longleftrightarrow>
     (\<forall>p f. phases s p = Writing f \<longrightarrow> load_from path (on_disk s) = Inr f)
     \<and> (\<exists>f. load_from path (on_disk s) = Inr f \<and> apply_edits edits (commits s) f0 = Inr f)"

lemma save_to_cases:
  assumes "save_to made w path f d = (r, d')"
  shows "r = Inr () \<Longrightarrow> d' = Present f" and "r = Inl e \<Longrightarrow> \<not> is_lost w \<Longrightarrow> d' = d"
  using assms by (cases w; auto simp: save_to_def replaced_def split: if_splits)+

lemma exclusive_step:
  assumes "update_step path edits s t" and "exclusive s"
  shows "exclusive t"
  using assms
proof (cases rule: update_step.cases)
  case (release p r)
  then have "holder s = Some p" using assms(2) by (simp add: exclusive_def)
  with release assms(2) show ?thesis by (auto simp: exclusive_def)
qed (auto simp: exclusive_def split: if_splits)

lemma committed_step: "update_step path edits s t \<Longrightarrow> committed s \<Longrightarrow> committed t"
  by (induction rule: update_step.induct) (auto simp: committed_def split: if_splits)

lemma in_step_frame:
  assumes "in_step path edits f0 s" and "on_disk t = on_disk s" and "commits t = commits s"
    and "\<forall>p f. phases t p = Writing f \<longrightarrow> phases s p = Writing f \<or> load_from path (on_disk s) = Inr f"
  shows "in_step path edits f0 t"
  using assms unfolding in_step_def by metis

lemma in_step_step:
  assumes "update_step path edits s t" and "exclusive s" and "\<not> lost s \<longrightarrow> in_step path edits f0 s"
  shows "\<not> lost t \<longrightarrow> in_step path edits f0 t"
  using assms
proof (cases rule: update_step.cases)
  case (save p f f' made w d)
  have alone: "phases s q \<noteq> Writing g" if "q \<noteq> p" for q g
    using assms(2) save(2) that by (metis exclusive_def option.inject phase_simps(3))
  show ?thesis
  proof
    assume "\<not> lost t"
    then have i: "in_step path edits f0 s" using assms(3) save(1) by simp
    have "load_from path (on_disk t) = Inr f'" using save_to_cases(1) [OF save(4)] save(1) by (simp add: load_from_def)
    moreover have "apply_edits edits (commits t) f0 = Inr f'"
      using i save by (auto simp: in_step_def intro: apply_edits_snoc)
    ultimately show "in_step path edits f0 t" using alone save(1) by (auto simp: in_step_def)
  qed
next
  case (save_error p f f' made w e d)
  show ?thesis
  proof
    assume "\<not> lost t"
    then have "in_step path edits f0 s" and "on_disk t = on_disk s"
      using assms(3) save_error(1) save_to_cases(2) [OF save_error(4)] by auto
    then show "in_step path edits f0 t" unfolding in_step_def using save_error(1) by simp
  qed
qed (use assms(3) in \<open>auto intro!: in_step_frame [where s = s] split: if_splits\<close>)

lemma run_inv:
  "update_run path edits s t \<Longrightarrow> exclusive s \<and> committed s \<and> (\<not> lost s \<longrightarrow> in_step path edits f0 s) \<Longrightarrow>
     exclusive t \<and> committed t \<and> (\<not> lost t \<longrightarrow> in_step path edits f0 t)"
proof (induction rule: update_run.induct)
  case (step s t u)
  then show ?case using exclusive_step committed_step in_step_step by metis
qed

text \<open>A process that is not interrupted goes through the whole of \<open>locked_section\<close>.\<close>

lemma update_run_one: "update_step path edits s t \<Longrightarrow> update_run path edits s t"
  using start step by blast

lemma update_run_trans: "update_run path edits t u \<Longrightarrow> update_run path edits s t \<Longrightarrow> update_run path edits s u"
  by (induction rule: update_run.induct) (auto intro: update_run.step)

lemma locked_section_runs:
  assumes "phases s p = Waiting" and "holder s = None"
    and "locked_section made w path (\<lambda>f. map_sum id (\<lambda>f'. ((), f')) (edits p f)) (on_disk s) = (r, d)"
  shows "\<exists>t. update_run path edits s t \<and> phases t p = Finished r \<and> on_disk t = d \<and> holder t = None"
proof -
  define s1 where "s1 = (set_phase p Loading s)\<lparr>holder := Some p\<rparr>"
  have r1: "update_run path edits s s1" unfolding s1_def using assms(1,2) by (intro update_run_one acquire)
  have p1: "phases s1 p = Loading" "on_disk s1 = on_disk s" by (simp_all add: s1_def)
  have fin: ?thesis if "update_run path edits s u" "phases u p = Releasing r" "on_disk u = d" for u
    using update_run.step [OF that(1) update_step.release [OF that(2)]] that(3)
    by (intro exI [of _ "(set_phase p (Finished r) u)\<lparr>holder := None\<rparr>"]) simp
  show ?thesis
  proof (cases "load_from path (on_disk s)")
    case (Inl e)
    with p1 have "update_step path edits s1 (set_phase p (Releasing (Inl e)) s1)" by (intro load_error) simp_all
    from fin [OF update_run.step [OF r1 this]] show ?thesis using assms(3) Inl p1 by (simp add: locked_section_def)
  next
    case (Inr f)
    define s2 where "s2 = set_phase p (Writing f) s1"
    have "update_step path edits s1 s2" unfolding s2_def using p1 Inr by (intro load) simp_all
    with r1 have r2: "update_run path edits s s2" by (rule update_run.step)
    have p2: "phases s2 p = Writing f" "on_disk s2 = on_disk s" by (simp_all add: s2_def p1)
    show ?thesis
    proof (cases "edits p f")
      case (Inl e)
      with p2 have "update_step path edits s2 (set_phase p (Releasing (Inl e)) s2)" by (intro edit_error)
      from fin [OF update_run.step [OF r2 this]] show ?thesis
        using assms(3) Inl \<open>load_from path (on_disk s) = Inr f\<close> p2 by (simp add: locked_section_def)
    next
      case e: (Inr f')
      obtain q d' where q: "save_to made w path f' (on_disk s2) = (q, d')" by fastforce
      show ?thesis
      proof (cases q)
        case (Inl x)
        from save_error [of s2 p f edits f' made w path x d'] p2 e q Inl
          fin [OF update_run.step [OF r2]] show ?thesis
          using assms(3) \<open>load_from path (on_disk s) = Inr f\<close> by (simp add: locked_section_def)
      next
        case (Inr u)
        from save [of s2 p f edits f' made w path d'] p2 e q Inr
          fin [OF update_run.step [OF r2]] show ?thesis
          using assms(3) \<open>load_from path (on_disk s) = Inr f\<close> by (simp add: locked_section_def)
      qed
    qed
  qed
qed

section \<open>Writing the file\<close>

text \<open>The save is as safe as \<open>write_owner_only_file\<close>, mode apart.\<close>

lemma save_file_safe:
  assumes inv: "am_inv (now_files m)" and run: "save_file A path c m = (r, m')"
    and d: "path \<noteq> with_extension path ''json.tmp''" "path \<noteq> with_extension path ''json.bak''"
      "with_extension path ''json.tmp'' \<noteq> with_extension path ''json.bak''"
  shows "\<exists>x. (is_ok r \<longrightarrow> file_bytes x = c)
    \<and> promoted path (with_extension path ''json.tmp'') (with_extension path ''json.bak'') x (now_files m) r (now_files m')
    \<and> safe_since path (with_extension path ''json.tmp'') (with_extension path ''json.bak'') x (now_files m) m m'"
proof -
  let ?tmp = "with_extension path ''json.tmp''"
  obtain r1 m1 where x1: "sys_write A ?tmp c m = (r1, m1)" by fastforce
  note w = sys_write_tmp [OF x1 inv]
  have s1: "safe_since path ?tmp (with_extension path ''json.bak'') x (now_files m) m m1" for x
    using w inv d(1) by (intro safe_since_step [where f = "now_files m1"] tmp_only(1)) auto
  show ?thesis
  proof (cases r1)
    case (Inl e)
    then have "\<not> is_ok r \<and> m' = m1" using run x1 by (auto simp: save_file_def)
    then obtain e' where "r = Inl e'" "m' = m1" by (cases r) auto
    then show ?thesis using s1 w inv d(1) by (auto intro!: tmp_only(3))
  next
    case (Inr u)
    then obtain x where x: "am_get (now_files m1) ?tmp = Some x" "file_bytes x = c" using w by auto
    have "ready path ?tmp (with_extension path ''json.bak'') x (now_files m) (now_files m1)"
      using w inv d(1) x(1) by (intro tmp_only(2)) auto
    from promote_safe [OF d this] run x1 Inr x(2) s1 [of x] show ?thesis
      by (auto simp: save_file_def intro!: exI [of _ x] intro: safe_since_trans)
  qed
qed

section \<open>Properties\<close>

text \<open>
  C24: the edits of the bindings file are operations on the set of (key, host) pairs, host names
  compared without case and without surrounding white space. Setting replaces a key's hosts, adding
  inserts one pair, removing deletes one pair and reports whether it was there, clearing deletes a
  key, and pruning keeps exactly the known keys and counts the others. Each edit keeps every host
  list valid, free of duplicates and non-empty, and setting or adding fails exactly when a pattern is
  invalid.
\<close>

theorem edits_are_set_operations:
  assumes "wf_bindings f"
  shows "(case set_hosts now i hs f of
            Inr f' \<Rightarrow> (\<forall>h \<in> set hs. validate_host_pattern h = Inr ()) \<and> wf_bindings f'
              \<and> bound f' = {p \<in> bound f. fst p \<noteq> i} \<union> {(i, lower (trim h)) |h. h \<in> set hs}
          | Inl _ \<Rightarrow> \<exists>h \<in> set hs. validate_host_pattern h \<noteq> Inr ())
    \<and> (case add_host now i h f of
            Inr f' \<Rightarrow> validate_host_pattern h = Inr () \<and> wf_bindings f' \<and> bound f' = insert (i, lower (trim h)) (bound f)
          | Inl _ \<Rightarrow> validate_host_pattern h \<noteq> Inr ())
    \<and> (case remove_host now i h f of
            (removed, f') \<Rightarrow> wf_bindings f' \<and> bound f' = bound f - {(i, lower (trim h))}
              \<and> (removed \<longleftrightarrow> (i, lower (trim h)) \<in> bound f))
    \<and> (case clear_key i f of
            (cleared, f') \<Rightarrow> wf_bindings f' \<and> bound f' = {p \<in> bound f. fst p \<noteq> i} \<and> (cleared \<longleftrightarrow> i \<in> fst ` bound f))
    \<and> (case prune_orphans known f of
            (pruned, f') \<Rightarrow> wf_bindings f' \<and> bound f' = {p \<in> bound f. fst p \<in> set known}
              \<and> pruned = card (fst ` bound f - set known))"
proof (intro conjI)
  show "case set_hosts now i hs f of
            Inr f' \<Rightarrow> (\<forall>h \<in> set hs. validate_host_pattern h = Inr ()) \<and> wf_bindings f'
              \<and> bound f' = {p \<in> bound f. fst p \<noteq> i} \<union> {(i, lower (trim h)) |h. h \<in> set hs}
          | Inl _ \<Rightarrow> \<exists>h \<in> set hs. validate_host_pattern h \<noteq> Inr ()"
  proof (cases "validate_all hs = Inr ()")
    case True
    then obtain f' where "set_hosts now i hs f = Inr f'" by (simp add: set_hosts_cases)
    with True set_hosts_spec [OF assms this] show ?thesis by (simp add: validate_all_ok)
  next
    case False
    then obtain e where "set_hosts now i hs f = Inl e"
      using validate_all_cases [of hs] by (auto simp: set_hosts_cases)
    with False show ?thesis by (simp add: validate_all_ok)
  qed
  show "case add_host now i h f of
            Inr f' \<Rightarrow> validate_host_pattern h = Inr () \<and> wf_bindings f' \<and> bound f' = insert (i, lower (trim h)) (bound f)
          | Inl _ \<Rightarrow> validate_host_pattern h \<noteq> Inr ()"
  proof (cases "validate_host_pattern h")
    case (Inr u)
    then obtain f' where "add_host now i h f = Inr f'" by (simp add: add_host_def Let_def)
    with Inr add_host_spec [OF assms this] show ?thesis by simp
  qed (simp add: add_host_def)
  show "case remove_host now i h f of
            (removed, f') \<Rightarrow> wf_bindings f' \<and> bound f' = bound f - {(i, lower (trim h))}
              \<and> (removed \<longleftrightarrow> (i, lower (trim h)) \<in> bound f)"
    using remove_host_spec [OF assms] by (cases "remove_host now i h f") blast
  show "case clear_key i f of
            (cleared, f') \<Rightarrow> wf_bindings f' \<and> bound f' = {p \<in> bound f. fst p \<noteq> i} \<and> (cleared \<longleftrightarrow> i \<in> fst ` bound f)"
    using clear_key_spec [OF assms, of i] by (simp add: case_prod_unfold)
  show "case prune_orphans known f of
            (pruned, f') \<Rightarrow> wf_bindings f' \<and> bound f' = {p \<in> bound f. fst p \<in> set known}
              \<and> pruned = card (fst ` bound f - set known)"
    using prune_orphans_spec [OF assms, of known] by (simp add: case_prod_unfold)
qed

definition demo_bindings :: HostBindingsFile where
  "demo_bindings = \<lparr>bf_version = 1, bindings = [(''k'', \<lparr>hosts = [''GitHub.com''], updated_at = 0\<rparr>)]\<rparr>"

lemma demo_bindings_wf: "wf_bindings demo_bindings"
proof -
  have "validate_host_pattern ''GitHub.com'' = Inr ()" "trim ''GitHub.com'' = ''GitHub.com''" by code_simp+
  then show ?thesis
    by (simp add: demo_bindings_def wf_bindings_def am_inv_def host_list_ok_def host_ok_def)
qed

theorem edits_are_set_operations_witness:
  "fst (remove_host 5 ''k'' '' github.COM'' demo_bindings)
   \<and> bound (snd (remove_host 5 ''k'' '' github.COM'' demo_bindings)) = {}"
proof -
  have l: "lower (trim '' github.COM'') = lower ''GitHub.com''" by code_simp
  have b: "bound demo_bindings = {(''k'', lower ''GitHub.com'')}"
    by (auto simp: bound_def demo_bindings_def split: if_splits)
  have "case remove_host 5 ''k'' '' github.COM'' demo_bindings of
          (removed, f') \<Rightarrow> wf_bindings f' \<and> bound f' = bound demo_bindings - {(''k'', lower (trim '' github.COM''))}
            \<and> (removed \<longleftrightarrow> (''k'', lower (trim '' github.COM'')) \<in> bound demo_bindings)"
    by (rule edits_are_set_operations [OF demo_bindings_wf, THEN conjunct2, THEN conjunct2, THEN conjunct1])
  then show ?thesis unfolding l b by (simp add: case_prod_unfold)
qed

text \<open>
  Waiting for the bindings lock ends. With a clock that advances by at least the retry interval
  per sleep, acquiring the lock returns after at most 201 attempts; it reports success only for an
  attempt at which the lock was granted, it takes the first granted attempt, and it times out
  only when ten seconds have passed.
\<close>

theorem acquire_lock_returns:
  assumes "sleeps start clock"
  shows "\<exists>n \<le> 200. \<exists>r. acquire_lock made opened try_lock start clock path = Some r
    \<and> (case r of
         Inr k \<Rightarrow> k = n \<and> try_lock n = Lock_Acquired \<and> (\<forall>j < n. try_lock j = Would_Block)
       | Inl _ \<Rightarrow> \<not> made \<or> \<not> opened \<or> try_lock n = Lock_Error
           \<or> try_lock n = Would_Block \<and> start + secs 10 \<le> clock n \<and> (\<forall>j < n. try_lock j = Would_Block))"
proof (cases "made \<and> opened")
  case False
  then show ?thesis by (intro exI [of _ 0]) (auto simp: acquire_lock_def Let_def)
next
  case True
  let ?D = "start + LOCK_TIMEOUT"
  have "stops_at try_lock clock ?D 200"
    using sleeps_lower [OF assms, of 200] retries_suffice by (simp add: stops_at_def)
  from acquire_loop_runs [OF this, of 0 "with_extension path ''json.lock''"] obtain k where k: "k \<le> 200" "stops_at try_lock clock ?D k"
    "\<forall>j < k. \<not> stops_at try_lock clock ?D j"
    "acquire_loop try_lock clock ?D (with_extension path ''json.lock'') 0 = acquire_loop try_lock clock ?D (with_extension path ''json.lock'') k"
    by auto
  show ?thesis
    using True k acquire_loop_stop [OF k(2), of "with_extension path ''json.lock''"]
    by (intro exI [of _ k]) (auto simp: acquire_lock_def Let_def stops_at_def LOCK_TIMEOUT_def split: lock_answer.splits)
qed

theorem acquire_lock_returns_witness:
  "\<exists>e. acquire_lock True True (\<lambda>_. Would_Block) 0 (\<lambda>n. n * LOCK_RETRY_INTERVAL) ''b.json'' = Some (Inl e)"
proof -
  have "sleeps 0 (\<lambda>n. n * LOCK_RETRY_INTERVAL)" by (simp add: sleeps_def)
  from acquire_lock_returns [OF this, of True True "\<lambda>_. Would_Block" "''b.json''"] obtain r where
    r: "acquire_lock True True (\<lambda>_. Would_Block) 0 (\<lambda>n. n * LOCK_RETRY_INTERVAL) ''b.json'' = Some r" "\<forall>k. r \<noteq> Inr k"
    by (fastforce split: sum.splits)
  then show ?thesis by (cases r) auto
qed

text \<open>
  C25: concurrent updates are serialised and none is lost. However the processes' steps interleave,
  whoever dies on the way and whichever save fails, at most one process is between lock and unlock,
  and as long as no failing save moved the file away, the file on disk is the initial one with the
  edits of the committed processes applied one after the other, each exactly once; a process that
  reports success is among them.
\<close>

theorem locked_updates_not_lost:
  assumes "update_run path edits s0 s"
    and "holder s0 = None" and "\<forall>p. phases s0 p = Waiting" and "commits s0 = []" and "\<not> lost s0"
    and "load_from path (on_disk s0) = Inr f0"
  shows "(\<forall>p q. in_section (phases s p) \<and> in_section (phases s q) \<longrightarrow> p = q)
    \<and> distinct (commits s) \<and> (\<forall>p. phases s p = Finished (Inr ()) \<longrightarrow> p \<in> set (commits s))
    \<and> (\<not> lost s \<longrightarrow> (\<exists>f. load_from path (on_disk s) = Inr f \<and> apply_edits edits (commits s) f0 = Inr f))"
proof -
  have "exclusive s0 \<and> committed s0 \<and> (\<not> lost s0 \<longrightarrow> in_step path edits f0 s0)"
    using assms(2-6) by (simp add: exclusive_def committed_def in_step_def)
  from run_inv [OF assms(1) this]
  have i: "exclusive s" "committed s" "\<not> lost s \<longrightarrow> in_step path edits f0 s" by blast+
  have "p = q" if "in_section (phases s p)" "in_section (phases s q)" for p q
    using i(1) that by (metis exclusive_def option.inject)
  moreover have "distinct (commits s)" "\<forall>p. phases s p = Finished (Inr ()) \<longrightarrow> p \<in> set (commits s)"
    using i(2) by (auto simp: committed_def)
  ultimately show ?thesis using i(3) unfolding in_step_def by blast
qed

definition demo_edits :: "nat \<Rightarrow> edit" where
  "demo_edits p = add_host 0 ''k'' (if p = 0 then ''a'' else ''b'')"

definition demo_shared :: shared where
  "demo_shared = \<lparr>on_disk = Absent, holder = None, phases = (\<lambda>_. Waiting), commits = [], lost = False\<rparr>"

theorem locked_updates_not_lost_witness:
  "\<exists>s. update_run ''b.json'' demo_edits demo_shared s \<and> phases s 0 = Finished (Inr ()) \<and> 0 \<in> set (commits s)"
proof -
  have "locked_section True Written ''b.json'' (\<lambda>f. map_sum id (\<lambda>f'. ((), f')) (demo_edits 0 f)) (on_disk demo_shared)
    = (Inr (), Present \<lparr>bf_version = 1, bindings = [(''k'', \<lparr>hosts = [''a''], updated_at = 0\<rparr>)]\<rparr>)"
    by code_simp
  from locked_section_runs [of demo_shared 0 True Written "''b.json''" demo_edits, OF _ _ this] obtain s where
    s: "update_run ''b.json'' demo_edits demo_shared s" "phases s 0 = Finished (Inr ())" by (auto simp: demo_shared_def)
  then show ?thesis
    using locked_updates_not_lost [OF s(1), of bindings_default] by (auto simp: demo_shared_def load_from_def)
qed

end
