(* ===== verification/Managed_Config.thy ===== *)
theory Managed_Config
  imports Ssh_Config Bindings Naming Client
begin

text \<open>
  The managed OpenSSH snippet of \<open>src/sshconfig.rs\<close>: its generation from keys and bindings, the import
  of edited \<open>Host\<close> lines, the refresh after a change, and its callers \<open>persist_bind_payload\<close>
  (\<open>src/bindings_cli.rs\<close>) and the \<open>keys bind\<close> and \<open>unbind\<close> commands (\<open>src/commands/keys.rs\<close>).
\<close>

section \<open>Keys\<close>

record ManagedKey =
  mk_name :: string
  mk_cipher_id :: string

definition from_decrypted :: "DecryptedSshKey list \<Rightarrow> ManagedKey list" where
  "from_decrypted keys = map (\<lambda>k. \<lparr>mk_name = dk_name k, mk_cipher_id = dk_cipher_id k\<rparr>) keys"

definition from_cache_header :: "KeyIdentity list \<Rightarrow> ManagedKey list" where
  "from_cache_header keys = map (\<lambda>k. \<lparr>mk_name = ki_name k, mk_cipher_id = ki_vault_item_id k\<rparr>) keys"

section \<open>The snippet\<close>

definition SSHWARDEN_KEY_MARKER_PREFIX :: string where
  "SSHWARDEN_KEY_MARKER_PREFIX = ''# sshwarden:key ''"

definition header_lines :: "string list" where
  "header_lines =
     [''# SSHWarden managed SSH config'',
      ''# You may edit Host lines in SSHWarden key blocks; they are imported before regeneration.'',
      ''# Other lines are regenerated. Manage bindings via `sshwarden keys bind/unbind ...`.'',
      []]"

definition hosts_of :: "HostBindingsFile \<Rightarrow> string \<Rightarrow> string list option" where
  "hosts_of b i = map_option hosts (am_get (bindings b) i)"

definition bound_hosts :: "HostBindingsFile \<Rightarrow> ManagedKey \<Rightarrow> string list" where
  "bound_hosts b k = unwrap_or [] (hosts_of b (mk_cipher_id k))"

definition identity_arg :: "string option \<Rightarrow> string \<Rightarrow> SshConfigPathStyle \<Rightarrow> ManagedKey \<Rightarrow> string" where
  "identity_arg home dir style k =
     path_arg_with_style home (path_join dir (selector_file_name (mk_name k) (mk_cipher_id k))) style"

definition key_comment :: "ManagedKey \<Rightarrow> string list" where
  "key_comment k =
     [SSHWARDEN_KEY_MARKER_PREFIX @ mk_cipher_id k,
      ''# '' @ mk_name k @ '' ('' @ mk_cipher_id k @ '')'']"

definition bound_block :: "(ManagedKey \<Rightarrow> string) \<Rightarrow> HostBindingsFile \<Rightarrow> ManagedKey \<Rightarrow> string list" where
  "bound_block arg b k =
     key_comment k @
     [''Host '' @ join '' '' (bound_hosts b k),
      ''    IdentityFile '' @ arg k,
      ''    IdentitiesOnly yes'',
      []]"

definition unbound_block :: "(ManagedKey \<Rightarrow> string) \<Rightarrow> ManagedKey \<Rightarrow> string list" where
  "unbound_block arg k =
     key_comment k @
     [''# Host <host>'',
      ''#     IdentityFile '' @ arg k,
      ''#     IdentitiesOnly yes'',
      []]"

definition unbound_heading :: string where
  "unbound_heading = ''# --- Unbound keys (uncomment + edit to use) ---''"

definition snippet_lines :: "(ManagedKey \<Rightarrow> string) \<Rightarrow> ManagedKey list \<Rightarrow> HostBindingsFile \<Rightarrow> string list" where
  "snippet_lines arg keys b =
     (let bound_keys = filter (\<lambda>k. bound_hosts b k \<noteq> []) keys;
          unbound_keys = filter (\<lambda>k. bound_hosts b k = []) keys
      in header_lines
         @ concat (map (bound_block arg b) bound_keys)
         @ (if unbound_keys = [] then []
            else [unbound_heading, []] @ concat (map (unbound_block arg) unbound_keys)))"

definition ssh_config_snippet_with_bindings_in ::
  "string option \<Rightarrow> ManagedKey list \<Rightarrow> HostBindingsFile \<Rightarrow> string \<Rightarrow> SshConfigPathStyle \<Rightarrow> string" where
  "ssh_config_snippet_with_bindings_in home keys b dir style =
     join [LF] (snippet_lines (identity_arg home dir style) keys b)"

section \<open>Importing edited Host lines\<close>

definition sshwarden_key_marker_cipher_id :: "string \<Rightarrow> string option" where
  "sshwarden_key_marker_cipher_id line =
     option_filter (\<lambda>i. i \<noteq> []) (map_option trim (strip_prefix SSHWARDEN_KEY_MARKER_PREFIX line))"

definition legacy_key_comment_cipher_id :: "string \<Rightarrow> string option" where
  "legacy_key_comment_cipher_id line =
     Option.bind (strip_prefix ''# '' line) (\<lambda>comment.
     Option.bind (rsplit_once '' ('' comment) (\<lambda>(_, suffix).
     strip_suffix '')'' suffix))"

definition named_key :: "string list \<Rightarrow> string \<Rightarrow> string option" where
  "named_key known_ids trimmed =
     option_filter (\<lambda>i. i \<in> set known_ids)
       (option_or (sshwarden_key_marker_cipher_id trimmed) (legacy_key_comment_cipher_id trimmed))"

fun import_loop ::
  "i64 \<Rightarrow> string list \<Rightarrow> string list \<Rightarrow> string option \<Rightarrow> bool \<Rightarrow> HostBindingsFile \<Rightarrow> error + (bool \<times> HostBindingsFile)" where
  "import_loop now known_ids [] pending changed b = Inr (changed, b)"
| "import_loop now known_ids (line # ls) pending changed b =
     (case named_key known_ids (trim line) of
        Some cid \<Rightarrow> import_loop now known_ids ls (Some cid) changed b
      | None \<Rightarrow>
          (case split_whitespace (trim line) of
             [] \<Rightarrow> import_loop now known_ids ls pending changed b
           | directive # parts \<Rightarrow>
               if \<not> eq_ignore_ascii_case directive ''Host'' then import_loop now known_ids ls pending changed b
               else (case pending of
                 None \<Rightarrow> import_loop now known_ids ls None changed b
               | Some cid \<Rightarrow>
                   let hs = filter (\<lambda>h. h \<noteq> ''<host>'') parts
                   in if hs = [] then import_loop now known_ids ls None changed b
                      else if validate_all hs \<noteq> Inr () then import_loop now known_ids ls None changed b
                      else if hosts_of b cid = Some hs then import_loop now known_ids ls None changed b
                      else (case set_hosts now cid hs b of
                              Inl e \<Rightarrow> Inl e
                            | Inr b' \<Rightarrow> import_loop now known_ids ls None True b'))))"

definition import_host_bindings_from_managed_file ::
  "i64 \<Rightarrow> string \<Rightarrow> text_file \<Rightarrow> ManagedKey list \<Rightarrow> HostBindingsFile \<Rightarrow> error + (bool \<times> HostBindingsFile)" where
  "import_host_bindings_from_managed_file now path managed keys b =
     (case managed of
        No_File \<Rightarrow> Inr (False, b)
      | Not_Text \<Rightarrow> Inl (Message (''Failed to read managed SSH config: '' @ path))
      | Text s \<Rightarrow> import_loop now (map mk_cipher_id keys) (lines s) None False b)"

section \<open>Files and their environment\<close>

text \<open>
  The operating system's answers: the paths the configuration yields, how each save of the bindings
  goes (the locked one, the one after an import, the one after pruning), the lock, and the writes of
  private files by path.
\<close>

datatype save_site = Locked_Save | Import_Save | Prune_Save

record ssh_env =
  env_home :: "string option"
  env_paths :: path_env
  env_style :: "SshConfigPathStyle result"
  env_managed :: "string result"
  env_user_config :: "string result"
  env_selector_dir :: "string result"
  env_bindings :: "string result"
  env_clock :: "nat option"
  env_lock :: "error + nat"
  env_save :: "save_site \<Rightarrow> bool \<times> write_outcome"
  env_dir :: "string \<Rightarrow> unit result"
  env_private :: "string \<Rightarrow> private_outcome"

record ssh_files =
  bindings_disk :: "HostBindingsFile stored"
  managed_file :: text_file
  user_config_file :: text_file

definition bind_e :: "error + 'a \<Rightarrow> ('a \<Rightarrow> error + 'b) \<Rightarrow> error + 'b" where
  "bind_e r f = (case r of Inl e \<Rightarrow> Inl e | Inr x \<Rightarrow> f x)"

abbreviation lift_e :: "'a result \<Rightarrow> error + 'a" where
  "lift_e r \<equiv> map_sum Message id r"

abbreviation context_e :: "string \<Rightarrow> error + 'a \<Rightarrow> error + 'a" where
  "context_e msg r \<equiv> map_sum (\<lambda>_. Message msg) id r"

definition managed_sshwarden_include_path :: "ssh_env \<Rightarrow> error + string" where
  "managed_sshwarden_include_path E =
     bind_e (lift_e (env_managed E)) (\<lambda>path.
     bind_e (lift_e (env_user_config E)) (\<lambda>user_config.
     bind_e (lift_e (ensure_managed_ssh_config_path_is_safe (env_paths E) path user_config)) (\<lambda>_.
     Inr path)))"

definition save_bindings :: "ssh_env \<Rightarrow> save_site \<Rightarrow> HostBindingsFile \<Rightarrow> ssh_files \<Rightarrow> (error + unit) \<times> ssh_files" where
  "save_bindings E site b fs =
     (case env_bindings E of
        Inl e \<Rightarrow> (Inl (Message e), fs)
      | Inr path \<Rightarrow>
          (case save_to (fst (env_save E site)) (snd (env_save E site)) path b (bindings_disk fs) of
             (r, d) \<Rightarrow> (r, fs\<lparr>bindings_disk := d\<rparr>)))"

definition load_host_bindings_importing_managed ::
  "ssh_env \<Rightarrow> ManagedKey list \<Rightarrow> ssh_files \<Rightarrow> (error + HostBindingsFile) \<times> ssh_files" where
  "load_host_bindings_importing_managed E keys fs =
     (case bind_e (lift_e (env_bindings E)) (\<lambda>path. load_from path (bindings_disk fs)) of
        Inl e \<Rightarrow> (Inl e, fs)
      | Inr b \<Rightarrow>
          if keys = [] then (Inr b, fs)
          else (case bind_e (managed_sshwarden_include_path E)
                       (\<lambda>p. import_host_bindings_from_managed_file (now_secs (env_clock E)) p (managed_file fs) keys b) of
             Inl e \<Rightarrow> (Inl e, fs)
           | Inr (changed, b') \<Rightarrow>
               if \<not> changed then (Inr b', fs)
               else (case save_bindings E Import_Save b' fs of
                  (Inl _, fs') \<Rightarrow> (Inl (Message ''Failed to save host bindings imported from managed SSH config''), fs')
                | (Inr _, fs') \<Rightarrow> (Inr b', fs'))))"

definition with_host_bindings_locked ::
  "ssh_env \<Rightarrow> ManagedKey list \<Rightarrow> (HostBindingsFile \<Rightarrow> error + ('a \<times> HostBindingsFile)) \<Rightarrow> ssh_files \<Rightarrow> (error + 'a) \<times> ssh_files" where
  "with_host_bindings_locked E keys mutate fs =
     (case env_bindings E of
        Inl e \<Rightarrow> (Inl (Message e), fs)
      | Inr path \<Rightarrow>
          (case update_locked (env_lock E) (fst (env_save E Locked_Save)) (snd (env_save E Locked_Save)) path
                  (\<lambda>b. if keys = [] then mutate b
                        else bind_e (managed_sshwarden_include_path E) (\<lambda>p.
                             bind_e (import_host_bindings_from_managed_file (now_secs (env_clock E)) p (managed_file fs) keys b)
                               (\<lambda>(_, b'). mutate b')))
                  (bindings_disk fs) of
             (r, d) \<Rightarrow> (r, fs\<lparr>bindings_disk := d\<rparr>)))"

text \<open>Pruning forgets the bindings of unknown keys, unless no key is known at all.\<close>

definition prune_known :: "ssh_env \<Rightarrow> ManagedKey list \<Rightarrow> HostBindingsFile \<Rightarrow> ssh_files \<Rightarrow> (error + HostBindingsFile) \<times> ssh_files" where
  "prune_known E keys b fs =
     (if keys = [] then (Inr b, fs)
      else case prune_orphans (map mk_cipher_id keys) b of
        (pruned, b') \<Rightarrow>
          if pruned = 0 then (Inr b', fs)
          else (case save_bindings E Prune_Save b' fs of
             (Inl _, fs') \<Rightarrow> (Inl (Message ''Failed to save host bindings after pruning orphans''), fs')
           | (Inr _, fs') \<Rightarrow> (Inr b', fs')))"

definition ssh_config_snippet_with_bindings :: "ssh_env \<Rightarrow> ManagedKey list \<Rightarrow> HostBindingsFile \<Rightarrow> error + string" where
  "ssh_config_snippet_with_bindings E keys b =
     bind_e (lift_e (env_style E)) (\<lambda>style.
     bind_e (lift_e (env_selector_dir E)) (\<lambda>dir.
     Inr (ssh_config_snippet_with_bindings_in (env_home E) keys b dir style)))"

definition sync_managed_ssh_config_inner :: "ssh_env \<Rightarrow> ManagedKey list \<Rightarrow> bool \<Rightarrow> ssh_files \<Rightarrow> (error + unit) \<times> ssh_files" where
  "sync_managed_ssh_config_inner E keys force_write fs =
     (case load_host_bindings_importing_managed E keys fs of
        (Inl _, fs1) \<Rightarrow> (Inl (Message ''Failed to load host bindings''), fs1)
      | (Inr b, fs1) \<Rightarrow>
          (case prune_known E keys b fs1 of
             (Inl e, fs2) \<Rightarrow> (Inl e, fs2)
           | (Inr b', fs2) \<Rightarrow>
               (case managed_sshwarden_include_path E of
                  Inl e \<Rightarrow> (Inl e, fs2)
                | Inr include_path \<Rightarrow>
                    if \<not> force_write \<and> bindings b' = [] \<and> managed_file fs2 = No_File then (Inr (), fs2)
                    else (case ssh_config_snippet_with_bindings E keys b' of
                       Inl e \<Rightarrow> (Inl e, fs2)
                     | Inr snippet \<Rightarrow>
                         (case write_private_file (env_private E include_path) snippet (managed_file fs2) of
                            (r, f) \<Rightarrow>
                              (context_e (''Failed to write managed SSHWarden SSH config: '' @ include_path) (lift_e r),
                               fs2\<lparr>managed_file := f\<rparr>))))))"

definition sync_managed_ssh_config_with_bindings :: "ssh_env \<Rightarrow> DecryptedSshKey list \<Rightarrow> ssh_files \<Rightarrow> (error + unit) \<times> ssh_files" where
  "sync_managed_ssh_config_with_bindings E keys fs = sync_managed_ssh_config_inner E (from_decrypted keys) False fs"

section \<open>Binding and unbinding\<close>

text \<open>The Include line is ensured last; its failure only warns.\<close>

definition ensure_include :: "ssh_env \<Rightarrow> ssh_files \<Rightarrow> (error + unit) \<times> ssh_files" where
  "ensure_include E fs =
     (case bind_e (managed_sshwarden_include_path E) (\<lambda>p. bind_e (lift_e (env_user_config E)) (\<lambda>c. Inr (p, c))) of
        Inl e \<Rightarrow> (Inl e, fs)
      | Inr (include_path, config_path) \<Rightarrow>
          (Inr (), fs\<lparr>user_config_file := snd (write_sshwarden_include_line (env_home E) (env_style E)
             (env_dir E (unwrap_or [] (parent config_path))) (env_private E config_path) config_path include_path (user_config_file fs))\<rparr>))"

fun set_all :: "i64 \<Rightarrow> (string \<times> string list) list \<Rightarrow> HostBindingsFile \<Rightarrow> error + (unit \<times> HostBindingsFile)" where
  "set_all now [] b = Inr ((), b)"
| "set_all now ((cid, hs) # payload) b = bind_e (set_hosts now cid hs b) (set_all now payload)"

definition persist_bind_payload ::
  "ssh_env \<Rightarrow> ManagedKey list result \<Rightarrow> (string \<times> string list) list \<Rightarrow> ssh_files \<Rightarrow> (error + unit) \<times> ssh_files" where
  "persist_bind_payload E cached payload fs =
     (let keys = unwrap_or [] (res_ok cached)
      in case with_host_bindings_locked E keys (set_all (now_secs (env_clock E)) payload) fs of
        (Inl e, fs1) \<Rightarrow> (Inl e, fs1)
      | (Inr _, fs1) \<Rightarrow>
          (case sync_managed_ssh_config_inner E keys True fs1 of
             (Inl e, fs2) \<Rightarrow> (Inl e, fs2)
           | (Inr _, fs2) \<Rightarrow> ensure_include E fs2))"

definition resolve_cipher_id :: "LocalKeyCacheFile option result \<Rightarrow> string \<Rightarrow> string result" where
  "resolve_cipher_id cache query =
     bind_res cache (\<lambda>c.
       case c of
         None \<Rightarrow> Inr query
       | Some f \<Rightarrow>
           let keys = hdr_keys (cache_header f)
           in if list_ex (\<lambda>k. ki_vault_item_id k = query) keys then Inr query
              else case filter (\<lambda>k. eq_ignore_ascii_case (ki_name k) query) keys of
                [] \<Rightarrow> Inl (''No key matches '' @ [CHR 0x27] @ query @ [CHR 0x27] @ ''. Run `sshwarden keys` to see available keys.'')
              | [k] \<Rightarrow> Inr (ki_vault_item_id k)
              | ks \<Rightarrow> Inl ([CHR 0x27] @ query @ [CHR 0x27] @ '' matches '' @ show_nat (length ks) @ '' keys by name ''
                         @ [CHR 0xE2, CHR 0x80, CHR 0x94] @ '' pass the cipher uuid instead.''))"

definition managed_keys_from_cache :: "LocalKeyCacheFile option result \<Rightarrow> ManagedKey list result" where
  "managed_keys_from_cache cache =
     bind_res (context_msg ''Failed to load local key cache'' cache) (\<lambda>c.
       case c of
         None \<Rightarrow> Inl (''No local key cache found '' @ [CHR 0xE2, CHR 0x80, CHR 0x94] @ '' run `sshwarden login` or `sshwarden sync` first'')
       | Some f \<Rightarrow> Inr (from_cache_header (hdr_keys (cache_header f))))"

fun add_all :: "i64 \<Rightarrow> string \<Rightarrow> string list \<Rightarrow> HostBindingsFile \<Rightarrow> error + (unit \<times> HostBindingsFile)" where
  "add_all now cid [] b = Inr ((), b)"
| "add_all now cid (h # hs) b = bind_e (add_host now cid h b) (add_all now cid hs)"

definition cmd_bindings_add ::
  "ssh_env \<Rightarrow> LocalKeyCacheFile option result \<Rightarrow> string \<Rightarrow> string list \<Rightarrow> ssh_files \<Rightarrow> (error + unit) \<times> ssh_files" where
  "cmd_bindings_add E cache key hs fs =
     (case resolve_cipher_id cache key of
        Inl e \<Rightarrow> (Inl (Message e), fs)
      | Inr cid \<Rightarrow>
          let keys = unwrap_or [] (res_ok (managed_keys_from_cache cache))
          in case with_host_bindings_locked E keys (add_all (now_secs (env_clock E)) cid hs) fs of
            (Inl e, fs1) \<Rightarrow> (Inl e, fs1)
          | (Inr _, fs1) \<Rightarrow>
              (case sync_managed_ssh_config_inner E keys True fs1 of
                 (Inl _, fs2) \<Rightarrow> (Inl (Message ''Bindings saved but managed snippet regeneration failed''), fs2)
               | (Inr _, fs2) \<Rightarrow> ensure_include E fs2))"

definition removal :: "i64 \<Rightarrow> string \<Rightarrow> string option \<Rightarrow> bool \<Rightarrow> HostBindingsFile \<Rightarrow> error + (bool \<times> HostBindingsFile)" where
  "removal now cid host all b =
     (case (host, all) of
        (Some _, True) \<Rightarrow> Inl (Message ''Pass either a host argument or `--all`, not both.'')
      | (None, False) \<Rightarrow> Inl (Message ''Specify a host pattern to remove, or pass `--all` to clear every host for this key.'')
      | (None, True) \<Rightarrow> Inr (clear_key cid b)
      | (Some h, False) \<Rightarrow> Inr (remove_host now cid h b))"

definition cmd_bindings_remove ::
  "ssh_env \<Rightarrow> LocalKeyCacheFile option result \<Rightarrow> string \<Rightarrow> string option \<Rightarrow> bool \<Rightarrow> ssh_files \<Rightarrow> (error + unit) \<times> ssh_files" where
  "cmd_bindings_remove E cache key host all fs =
     (case resolve_cipher_id cache key of
        Inl e \<Rightarrow> (Inl (Message e), fs)
      | Inr cid \<Rightarrow>
          let keys = unwrap_or [] (res_ok (managed_keys_from_cache cache))
          in case with_host_bindings_locked E keys (removal (now_secs (env_clock E)) cid host all) fs of
            (Inl e, fs1) \<Rightarrow> (Inl e, fs1)
          | (Inr changed, fs1) \<Rightarrow>
              if \<not> changed then (Inl (Message (''No matching host binding found for key '' @ cid)), fs1)
              else (case sync_managed_ssh_config_inner E keys True fs1 of
                 (Inl _, fs2) \<Rightarrow> (Inl (Message ''Bindings saved but managed snippet regeneration failed''), fs2)
               | (Inr _, fs2) \<Rightarrow> (Inr (), fs2)))"

definition cmd_bindings_clear ::
  "ssh_env \<Rightarrow> LocalKeyCacheFile option result \<Rightarrow> string \<Rightarrow> ssh_files \<Rightarrow> (error + unit) \<times> ssh_files" where
  "cmd_bindings_clear E cache key fs = cmd_bindings_remove E cache key None True fs"

definition cmd_keys_unbind ::
  "ssh_env \<Rightarrow> LocalKeyCacheFile option result \<Rightarrow> string \<Rightarrow> string option \<Rightarrow> bool \<Rightarrow> ssh_files \<Rightarrow> (error + unit) \<times> ssh_files" where
  "cmd_keys_unbind E cache key host all fs =
     (if all then cmd_bindings_clear E cache key fs else cmd_bindings_remove E cache key host False fs)"

section \<open>The ssh-config commands\<close>

definition cmd_sshcfg_write :: "ssh_env \<Rightarrow> LocalKeyCacheFile option result \<Rightarrow> ssh_files \<Rightarrow> (error + unit) \<times> ssh_files" where
  "cmd_sshcfg_write E cache fs =
     (case managed_keys_from_cache cache of
        Inl e \<Rightarrow> (Inl (Message e), fs)
      | Inr keys \<Rightarrow>
          (case sync_managed_ssh_config_inner E keys True fs of
             (Inl e, fs1) \<Rightarrow> (Inl e, fs1)
           | (Inr _, fs1) \<Rightarrow>
               (case bind_e (managed_sshwarden_include_path E) (\<lambda>p. bind_e (lift_e (env_user_config E)) (\<lambda>c. Inr (p, c))) of
                  Inl e \<Rightarrow> (Inl e, fs1)
                | Inr (include_path, config_path) \<Rightarrow>
                    (case write_sshwarden_include_line (env_home E) (env_style E) (env_dir E (unwrap_or [] (parent config_path)))
                            (env_private E config_path) config_path include_path (user_config_file fs1) of
                       (r, f) \<Rightarrow> (lift_e r, fs1\<lparr>user_config_file := f\<rparr>)))))"

definition cmd_sshcfg_uninstall :: "ssh_env \<Rightarrow> ssh_files \<Rightarrow> (error + bool) \<times> ssh_files" where
  "cmd_sshcfg_uninstall E fs =
     (case bind_e (managed_sshwarden_include_path E) (\<lambda>p. bind_e (lift_e (env_user_config E)) (\<lambda>c. Inr (p, c))) of
        Inl e \<Rightarrow> (Inl e, fs)
      | Inr (include_path, config_path) \<Rightarrow>
          (case remove_sshwarden_include_line (env_home E) (env_dir E (unwrap_or [] (parent config_path)))
                  (env_private E config_path) config_path include_path (user_config_file fs) of
             (r, f) \<Rightarrow> (lift_e r, fs\<lparr>user_config_file := f\<rparr>)))"

section \<open>What the import reads in a snippet\<close>

lemma bind_e_simps [simp]: "bind_e (Inl e) f = Inl e" "bind_e (Inr x) f = f x"
  by (simp_all add: bind_e_def)

lemma trim_word_end:
  assumes "s \<noteq> []" and "tl s = [] \<or> \<not> is_cont (hd (tl s))" and "\<not> is_whitespace [hd s]"
    and "s = u @ w" and "word_like w"
  shows "trim s = s"
proof (rule trim_trimmed)
  have "rust_chars s = [hd s] # rust_chars (tl s)"
    using rust_chars_Cons_nocont [OF assms(2), of "hd s"] assms(1) by simp
  moreover have rs: "rust_chars s = rust_chars u @ rust_chars w"
    unfolding assms(4) using assms(5) by (intro rust_chars_append) (simp add: word_like_def)
  have "rust_chars w \<noteq> []" using assms(5) by (metis concat.simps(1) concat_rust_chars word_like_def)
  then have "last (rust_chars s) \<in> set (rust_chars w)" unfolding rs by simp
  then have "\<not> is_whitespace (last (rust_chars s))" using assms(5) by (auto simp: word_like_def)
  ultimately show "rust_chars s = [] \<or> \<not> is_whitespace (hd (rust_chars s)) \<and> \<not> is_whitespace (last (rust_chars s))"
    using assms(3) by simp
qed

lemma trim_indent: "s = [] \<or> \<not> is_cont (hd s) \<Longrightarrow> trim (CHR '' '' # s) = trim s"
  using rust_chars_Cons_nocont [of s "CHR '' ''"] by (simp add: trim_def)

lemma word_like_ascii: "\<not> is_whitespace [c] \<Longrightarrow> \<not> is_cont c \<Longrightarrow> word_like [c]"
  by (simp add: word_like_def)

lemma first_word:
  assumes "word_like w" and "t = [] \<or> \<not> is_cont (hd t)"
  shows "\<exists>ws. split_whitespace (w @ CHR '' '' # t) = w # ws"
proof -
  have "rust_chars (w @ CHR '' '' # t) = rust_chars w @ '' '' # rust_chars t"
    using rust_chars_append [of "CHR '' '' # t" w] rust_chars_Cons_nocont [OF assms(2), of "CHR '' ''"] by simp
  then have "split_ws (rust_chars (w @ CHR '' '' # t)) = w # split_ws (rust_chars t)"
    using split_ws_word [OF assms(1)] by (simp add: split_ws_append_space)
  then show ?thesis using assms(1) by (simp add: split_whitespace_def word_like_def)
qed

text \<open>A line that neither names a known key nor is a \<open>Host\<close> directive.\<close>

definition idle_line :: "string list \<Rightarrow> string \<Rightarrow> bool" where
  "idle_line known l \<longleftrightarrow> named_key known (trim l) = None
     \<and> (case split_whitespace (trim l) of [] \<Rightarrow> True | d # _ \<Rightarrow> \<not> eq_ignore_ascii_case d ''Host'')"

lemma import_idle: "idle_line known l \<Longrightarrow> import_loop now known (l # ls) p ch b = import_loop now known ls p ch b"
  by (simp add: idle_line_def split: list.splits)

lemma import_idles:
  "\<forall>l \<in> set ks. idle_line known l \<Longrightarrow> import_loop now known (ks @ ls) p ch b = import_loop now known ls p ch b"
  by (induction ks) (auto simp del: import_loop.simps simp: import_idle)

lemma import_named:
  "named_key known (trim l) = Some i \<Longrightarrow> import_loop now known (l # ls) p ch b = import_loop now known ls (Some i) ch b"
  by simp

text \<open>Concrete lines: nothing of them depends on the known keys.\<close>

definition plain_line :: "string \<Rightarrow> bool" where
  "plain_line l \<longleftrightarrow> sshwarden_key_marker_cipher_id (trim l) = None \<and> legacy_key_comment_cipher_id (trim l) = None
     \<and> (case split_whitespace (trim l) of [] \<Rightarrow> True | d # _ \<Rightarrow> \<not> eq_ignore_ascii_case d ''Host'')"

lemma plain_idle: "plain_line l \<Longrightarrow> idle_line known l"
  by (simp add: plain_line_def idle_line_def named_key_def)

text \<open>A quoted argument, as \<open>path_arg_with_style\<close> writes it.\<close>

definition quoted :: "string \<Rightarrow> bool" where
  "quoted q \<longleftrightarrow> (\<exists>m. q = CHR 0x22 # m @ [CHR 0x22])"

lemma path_arg_quoted: "quoted (path_arg_with_style home p st)"
  by (auto simp: quoted_def path_arg_with_style_def quote_ssh_config_arg_def)

lemma quote_char [simp]: "\<not> is_cont CHR 0x22" "\<not> is_whitespace [CHR 0x22]"
  by (simp_all add: is_cont_def is_whitespace_def unicode_spaces_def)

lemma rsplit_once_Some: "rsplit_once sp s = Some (a, b) \<Longrightarrow> s = a @ sp @ b"
proof -
  have sp: "split_once p t = Some (x, y) \<Longrightarrow> t = x @ p @ y" for p t x y
    by (induction t arbitrary: x) (auto split: option.splits if_splits simp: strip_prefix_Some_iff)
  assume "rsplit_once sp s = Some (a, b)"
  then have "rev s = rev b @ rev sp @ rev a" using sp by (auto simp: rsplit_once_def)
  then show ?thesis by (metis append.assoc rev_append rev_rev_ident)
qed

lemma legacy_needs_paren: "last s \<noteq> CHR '')'' \<Longrightarrow> legacy_key_comment_cipher_id s = None"
proof (rule ccontr)
  assume l: "last s \<noteq> CHR '')''" and "legacy_key_comment_cipher_id s \<noteq> None"
  then obtain i where "legacy_key_comment_cipher_id s = Some i" by blast
  then obtain c a where "strip_prefix ''# '' s = Some c" "rsplit_once '' ('' c = Some (a, i @ '')'')"
    by (auto simp: legacy_key_comment_cipher_id_def strip_suffix_Some_iff Option.bind_eq_Some_conv)
  then have "s = ''# '' @ a @ '' ('' @ i @ '')''" using rsplit_once_Some [of "'' (''" c a "i @ '')''"] by (simp add: strip_prefix_Some_iff)
  then show False using l by simp
qed

lemma ascii_word: "(of_char c :: nat) < 128 \<Longrightarrow> 32 < (of_char c :: nat) \<Longrightarrow> word_like [c]"
  by (intro word_like_ascii) (auto simp: is_cont_def is_whitespace_def unicode_spaces_def)

lemma hash_facts: "word_like ''#''" "\<not> eq_ignore_ascii_case ''#'' ''Host''" "\<not> is_whitespace ''#''"
  by code_simp+

lemma comment_plain:
  assumes "t \<noteq> []" and "\<not> is_cont (hd t)" and "word_like [last t]" and "last t \<noteq> CHR '')''"
    and "strip_prefix ''sshwarden:key '' t = None"
  shows "plain_line (''# '' @ t)"
proof -
  have e: "''# '' @ t = (''# '' @ butlast t) @ [last t]" using assms(1) by simp
  have t: "trim (''# '' @ t) = ''# '' @ t"
    by (rule trim_word_end [OF _ _ _ e assms(3)]) (simp_all add: is_cont_def hash_facts)
  obtain ws where "split_whitespace (''#'' @ CHR '' '' # t) = ''#'' # ws"
    using first_word [OF hash_facts(1)] assms(2) by blast
  then show ?thesis
    unfolding plain_line_def t
    using assms hash_facts(2)
    by (simp add: legacy_needs_paren sshwarden_key_marker_cipher_id_def SSHWARDEN_KEY_MARKER_PREFIX_def)
qed

lemma plain_fixed:
  "plain_line ''    IdentitiesOnly yes''" "plain_line []" "plain_line ''# Host <host>''"
  "plain_line ''#     IdentitiesOnly yes''" "plain_line unbound_heading"
proof -
  show "plain_line ''    IdentitiesOnly yes''" "plain_line []" by code_simp+
  show "plain_line ''# Host <host>''"
    using comment_plain [of "''Host <host>''"] by (simp add: is_cont_def ascii_word)
  show "plain_line ''#     IdentitiesOnly yes''"
    using comment_plain [of "''    IdentitiesOnly yes''"] by (simp add: is_cont_def ascii_word)
  show "plain_line unbound_heading"
    using comment_plain [of "''--- Unbound keys (uncomment + edit to use) ---''"]
    by (simp add: unbound_heading_def is_cont_def ascii_word)
qed

lemma plain_header:
  assumes "l \<in> set header_lines"
  shows "plain_line l"
proof -
  have "plain_line ''# SSHWarden managed SSH config''"
    using comment_plain [of "''SSHWarden managed SSH config''"] by (simp add: is_cont_def ascii_word)
  moreover have "plain_line ''# You may edit Host lines in SSHWarden key blocks; they are imported before regeneration.''"
    using comment_plain [of "''You may edit Host lines in SSHWarden key blocks; they are imported before regeneration.''"]
    by (simp add: is_cont_def ascii_word)
  moreover have "plain_line ''# Other lines are regenerated. Manage bindings via `sshwarden keys bind/unbind ...`.''"
    using comment_plain [of "''Other lines are regenerated. Manage bindings via `sshwarden keys bind/unbind ...`.''"]
    by (simp add: is_cont_def ascii_word)
  ultimately show ?thesis using assms plain_fixed(2) unfolding header_lines_def by auto
qed

lemma identity_line_idle:
  assumes "quoted q"
  shows "plain_line (''    IdentityFile '' @ q)" and "plain_line (''#     IdentityFile '' @ q)"
proof -
  obtain m where q: "q = CHR 0x22 # m @ [CHR 0x22]" using assms by (auto simp: quoted_def)
  have w: "word_like [CHR 0x22]" by (simp add: word_like_ascii)
  have e: "''IdentityFile '' @ q = (''IdentityFile '' @ CHR 0x22 # m) @ [CHR 0x22]" by (simp add: q)
  have "trim (''IdentityFile '' @ q) = ''IdentityFile '' @ q"
    by (rule trim_word_end [OF _ _ _ e w]) (simp_all add: is_cont_def is_whitespace_def unicode_spaces_def)
  then have t: "trim (''    IdentityFile '' @ q) = ''IdentityFile '' @ q"
    by (simp add: trim_indent is_cont_def)
  have "word_like ''IdentityFile''" by code_simp
  from first_word [OF this, of q] obtain ws where ws: "split_whitespace (''IdentityFile'' @ CHR '' '' # q) = ''IdentityFile'' # ws"
    using q by auto
  have "\<not> eq_ignore_ascii_case ''IdentityFile'' ''Host''" by code_simp
  then show "plain_line (''    IdentityFile '' @ q)"
    unfolding plain_line_def t
    using ws q by (simp add: legacy_needs_paren sshwarden_key_marker_cipher_id_def SSHWARDEN_KEY_MARKER_PREFIX_def)
  show "plain_line (''#     IdentityFile '' @ q)"
    using comment_plain [of "''    IdentityFile '' @ q"] w by (simp add: is_cont_def q)
qed

section \<open>Blocks\<close>

text \<open>
  What the text of a key must be like: an id that is one word without parentheses, a name that is UTF-8
  text, and neither with a line end.
\<close>

definition key_text_ok :: "ManagedKey \<Rightarrow> bool" where
  "key_text_ok k \<longleftrightarrow>
     word_like (mk_cipher_id k) \<and> CHR ''('' \<notin> set (mk_cipher_id k) \<and> CHR '')'' \<notin> set (mk_cipher_id k)
     \<and> (mk_name k = [] \<or> \<not> is_cont (hd (mk_name k)))
     \<and> {LF, CR} \<inter> (set (mk_name k) \<union> set (mk_cipher_id k)) = {}"

definition ids_ok :: "string list \<Rightarrow> bool" where
  "ids_ok known \<longleftrightarrow> (\<forall>i \<in> set known. CHR '')'' \<notin> set i)"

lemma trim_word: "word_like w \<Longrightarrow> trim w = w"
  by (simp add: trim_no_space word_like_def)

lemma marker_line:
  assumes "word_like i" and "i \<in> set known"
  shows "named_key known (trim (SSHWARDEN_KEY_MARKER_PREFIX @ i)) = Some i"
proof -
  have "trim (SSHWARDEN_KEY_MARKER_PREFIX @ i) = SSHWARDEN_KEY_MARKER_PREFIX @ i"
    by (rule trim_word_end [OF _ _ _ refl assms(1)])
      (simp_all add: SSHWARDEN_KEY_MARKER_PREFIX_def is_cont_def hash_facts)
  then show ?thesis
    using assms trim_word [OF assms(1)] by (simp add: named_key_def sshwarden_key_marker_cipher_id_def word_like_def)
qed

lemma split_once_first:
  "CHR ''('' \<notin> set xs \<Longrightarrow> split_once ''( '' (xs @ ''( '' @ ys) = Some (xs, ys)"
  by (induction xs) auto

lemma legacy_comment:
  assumes "CHR ''('' \<notin> set i"
  shows "legacy_key_comment_cipher_id (''# '' @ n @ '' ('' @ i @ '')'') = Some i"
proof -
  have "split_once ''( '' ((CHR '')'' # rev i) @ ''( '' @ rev n) = Some (CHR '')'' # rev i, rev n)"
    using assms by (intro split_once_first) simp
  then have "rsplit_once '' ('' (n @ '' ('' @ i @ '')'') = Some (n, i @ '')'')" by (simp add: rsplit_once_def)
  then show ?thesis by (simp add: legacy_key_comment_cipher_id_def strip_suffix_Some_iff [THEN iffD2])
qed

lemma set_trim: "set (trim s) \<subseteq> set s"
proof -
  have "set (trim s) = (\<Union>g \<in> set (rust_chars (trim s)). set g)" by (metis concat_rust_chars set_concat)
  also have "\<dots> \<subseteq> (\<Union>g \<in> set (rust_chars s). set g)" using set_rust_chars_trim by fastforce
  also have "\<dots> = set s" by (metis concat_rust_chars set_concat)
  finally show ?thesis .
qed

lemma in_dropWhile: "x \<in> set xs \<Longrightarrow> \<not> P x \<Longrightarrow> x \<in> set (dropWhile P xs)"
  by (induction xs) auto

lemma word_survives_trim:
  assumes "g \<in> set (rust_chars s)" and "\<not> is_whitespace g"
  shows "set g \<subseteq> set (trim s)"
proof -
  have "g \<in> set (dropWhile is_whitespace (rust_chars s))" using assms by (rule in_dropWhile)
  then have "g \<in> set (rust_chars (trim s))"
    unfolding rust_chars_trim set_rev using assms(2) by (intro in_dropWhile) simp_all
  then show ?thesis using set_concat [of "rust_chars (trim s)"] by auto
qed

lemma paren_word: "word_like '')''" "\<not> is_whitespace '')''" "\<not> is_cont CHR '')''"
  by code_simp+

lemma marker_not_known:
  assumes "strip_prefix SSHWARDEN_KEY_MARKER_PREFIX (s @ '')'') = Some m" and "ids_ok known"
  shows "named_key known (s @ '')'') = None"
proof -
  have e: "s @ '')'' = SSHWARDEN_KEY_MARKER_PREFIX @ m" using assms(1) by (simp add: strip_prefix_Some_iff)
  then obtain n where m: "m = n @ '')''"
    by (cases m rule: rev_cases) (auto simp: SSHWARDEN_KEY_MARKER_PREFIX_def)
  have "'')'' \<in> set (rust_chars m)" unfolding m using rust_chars_append [of "'')''" n] paren_word(3) by simp
  then have "CHR '')'' \<in> set (trim m)" using word_survives_trim [OF _ paren_word(2)] by simp
  moreover from this have "trim m \<noteq> []" by auto
  ultimately show ?thesis
    using assms by (auto simp: named_key_def sshwarden_key_marker_cipher_id_def ids_ok_def)
qed

lemma comment_line:
  assumes "key_text_ok k" and "mk_cipher_id k \<in> set known" and "ids_ok known"
  shows "import_loop now known ((''# '' @ mk_name k @ '' ('' @ mk_cipher_id k @ '')'') # ls) (Some (mk_cipher_id k)) ch b
    = import_loop now known ls (Some (mk_cipher_id k)) ch b"
proof -
  let ?i = "mk_cipher_id k"
  let ?c = "mk_name k @ '' ('' @ ?i @ '')''"
  have e: "''# '' @ ?c = (''# '' @ mk_name k @ '' ('' @ ?i) @ '')''" by simp
  have t: "trim (''# '' @ ?c) = ''# '' @ ?c"
    by (rule trim_word_end [OF _ _ _ e paren_word(1)]) (simp_all add: is_cont_def hash_facts)
  show ?thesis
  proof (cases "strip_prefix SSHWARDEN_KEY_MARKER_PREFIX (''# '' @ ?c)")
    case None
    then have "named_key known (trim (''# '' @ ?c)) = Some ?i"
      unfolding t using legacy_comment [of ?i "mk_name k"] assms
      by (simp add: named_key_def sshwarden_key_marker_cipher_id_def key_text_ok_def)
    then show ?thesis by (rule import_named)
  next
    case (Some m)
    have "named_key known (trim (''# '' @ ?c)) = None"
      unfolding t using marker_not_known [OF _ assms(3), of "''# '' @ mk_name k @ '' ('' @ ?i" m] Some by simp
    moreover have "?c = [] \<or> \<not> is_cont (hd ?c)" using assms(1) by (cases "mk_name k") (auto simp: key_text_ok_def)
    then obtain ws where "split_whitespace (''#'' @ CHR '' '' # ?c) = ''#'' # ws"
      using first_word [OF hash_facts(1)] by blast
    then have "split_whitespace (trim (''# '' @ ?c)) = ''#'' # ws" unfolding t by simp
    ultimately have "idle_line known (''# '' @ ?c)" unfolding idle_line_def using hash_facts(2) by simp
    then show ?thesis by (rule import_idle)
  qed
qed

text \<open>Importing one list of hosts.\<close>

definition import_hosts :: "i64 \<Rightarrow> string \<Rightarrow> string list \<Rightarrow> HostBindingsFile \<Rightarrow> HostBindingsFile" where
  "import_hosts now i hs b =
     (if hosts_of b i = Some hs then b
      else b\<lparr>bindings := am_insert i \<lparr>hosts = hs, updated_at = now\<rparr> (bindings b)\<rparr>)"

definition importable :: "string list \<Rightarrow> bool" where
  "importable hs \<longleftrightarrow> hs \<noteq> [] \<and> host_list_ok hs \<and> ''<host>'' \<notin> set hs \<and> (\<forall>h \<in> set hs. \<not> is_cont (hd h))"

lemma host_word: "host_ok h \<Longrightarrow> \<not> is_cont (hd h) \<Longrightarrow> word_like h"
  by (auto simp: host_ok_def validate_host_pattern_def word_like_def Let_def list_ex_iff split: if_splits)

lemma importable_words: "importable hs \<Longrightarrow> h \<in> set hs \<Longrightarrow> word_like h"
  by (simp add: importable_def host_list_ok_def host_word)

lemma host_line_words:
  assumes "importable hs"
  shows "trim (''Host '' @ join '' '' hs) = ''Host '' @ join '' '' hs"
    and "split_whitespace (''Host '' @ join '' '' hs) = ''Host'' # hs"
proof -
  have ne: "hs \<noteq> []" using assms by (simp add: importable_def)
  have w: "\<forall>h \<in> set hs. word_like h" using importable_words [OF assms] by blast
  have hw: "word_like ''Host''" by code_simp
  have j: "''Host '' @ join '' '' hs = join '' '' (''Host'' # hs)" using ne by (cases hs) simp_all
  show "split_whitespace (''Host '' @ join '' '' hs) = ''Host'' # hs"
    unfolding j using w hw by (intro split_whitespace_join) simp
  have "\<exists>u w. join '' '' hs = u @ w \<and> word_like w"
    using ne w
  proof (induction "'' '' :: string" hs rule: join.induct)
    case (2 x)
    then show ?case by (intro exI [of _ "[]"] exI [of _ x]) simp
  next
    case (3 x y zs)
    then obtain u w where "join '' '' (y # zs) = u @ w" "word_like w" by auto
    then show ?case by (intro exI [of _ "x @ '' '' @ u"] exI [of _ w]) simp
  qed simp
  then obtain u w where "''Host '' @ join '' '' hs = (''Host '' @ u) @ w" "word_like w" by auto
  from trim_word_end [OF _ _ _ this] show "trim (''Host '' @ join '' '' hs) = ''Host '' @ join '' '' hs"
    by (simp add: is_cont_def is_whitespace_def unicode_spaces_def)
qed

lemma host_line:
  assumes "importable hs"
  shows "import_loop now known ((''Host '' @ join '' '' hs) # ls) (Some i) ch b
    = import_loop now known ls None (ch \<or> hosts_of b i \<noteq> Some hs) (import_hosts now i hs b)"
proof -
  have nk: "named_key known (''Host '' @ join '' '' hs) = None"
    by (simp add: named_key_def sshwarden_key_marker_cipher_id_def legacy_key_comment_cipher_id_def SSHWARDEN_KEY_MARKER_PREFIX_def)
  have f: "filter (\<lambda>h. h \<noteq> ''<host>'') hs = hs" using assms by (intro filter_True) (auto simp: importable_def)
  have v: "validate_all hs = Inr ()" using assms by (auto simp: validate_all_ok importable_def host_list_ok_def host_ok_def)
  have d: "dedup_hosts [] hs = hs" using dedup_id [of "[]" hs] assms by (simp add: importable_def)
  have ne: "hs \<noteq> []" using assms by (simp add: importable_def)
  have "eq_ignore_ascii_case ''Host'' ''Host''" by simp
  then show ?thesis
    unfolding import_loop.simps(2) host_line_words [OF assms] nk
    using f v ne by (simp add: set_hosts_cases d import_hosts_def)
qed

lemma bound_block_import:
  assumes "key_text_ok k" and "mk_cipher_id k \<in> set known" and "ids_ok known" and "quoted (arg k)"
    and "importable (bound_hosts b0 k)"
  shows "import_loop now known (bound_block arg b0 k @ ls) p ch b
    = import_loop now known ls None (ch \<or> hosts_of b (mk_cipher_id k) \<noteq> Some (bound_hosts b0 k))
        (import_hosts now (mk_cipher_id k) (bound_hosts b0 k) b)"
proof -
  have m: "word_like (mk_cipher_id k)" using assms(1) by (simp add: key_text_ok_def)
  let ?tail = "[''    IdentityFile '' @ arg k, ''    IdentitiesOnly yes'', []]"
  have tail: "\<forall>l \<in> set ?tail. idle_line known l"
    using plain_fixed identity_line_idle(1) [OF assms(4)] by (auto intro: plain_idle)
  have "bound_block arg b0 k @ ls =
    (SSHWARDEN_KEY_MARKER_PREFIX @ mk_cipher_id k) # (''# '' @ mk_name k @ '' ('' @ mk_cipher_id k @ '')'')
      # (''Host '' @ join '' '' (bound_hosts b0 k)) # ?tail @ ls"
    by (simp add: bound_block_def key_comment_def)
  then show ?thesis
    by (simp only: import_named [OF marker_line [OF m assms(2)]] comment_line [OF assms(1-3)] host_line [OF assms(5)]
        import_idles [OF tail])
qed

lemma unbound_block_import:
  assumes "key_text_ok k" and "mk_cipher_id k \<in> set known" and "ids_ok known" and "quoted (arg k)"
  shows "import_loop now known (unbound_block arg k @ ls) p ch b = import_loop now known ls (Some (mk_cipher_id k)) ch b"
proof -
  have m: "word_like (mk_cipher_id k)" using assms(1) by (simp add: key_text_ok_def)
  let ?tail = "[''# Host <host>'', ''#     IdentityFile '' @ arg k, ''#     IdentitiesOnly yes'', []]"
  have tail: "\<forall>l \<in> set ?tail. idle_line known l"
    using plain_fixed identity_line_idle(2) [OF assms(4)] by (auto intro: plain_idle)
  have "unbound_block arg k @ ls =
    (SSHWARDEN_KEY_MARKER_PREFIX @ mk_cipher_id k) # (''# '' @ mk_name k @ '' ('' @ mk_cipher_id k @ '')'') # ?tail @ ls"
    by (simp add: unbound_block_def key_comment_def)
  then show ?thesis
    by (simp only: import_named [OF marker_line [OF m assms(2)]] comment_line [OF assms(1-3)] import_idles [OF tail])
qed

section \<open>The whole snippet\<close>

lemma hosts_of_import_hosts: "hosts_of (import_hosts now i hs b) j = (if j = i then Some hs else hosts_of b j)"
  by (simp add: import_hosts_def hosts_of_def)

lemma import_hosts_wf: "wf_bindings b \<Longrightarrow> importable hs \<Longrightarrow> wf_bindings (import_hosts now i hs b)"
  by (auto simp: import_hosts_def wf_bindings_def am_inv_insert importable_def)

definition import_all :: "i64 \<Rightarrow> HostBindingsFile \<Rightarrow> ManagedKey list \<Rightarrow> HostBindingsFile \<Rightarrow> HostBindingsFile" where
  "import_all now b0 ks b = fold (\<lambda>k. import_hosts now (mk_cipher_id k) (bound_hosts b0 k)) ks b"

definition differs :: "HostBindingsFile \<Rightarrow> ManagedKey list \<Rightarrow> HostBindingsFile \<Rightarrow> bool" where
  "differs b0 ks b \<longleftrightarrow> (\<exists>k \<in> set ks. hosts_of b (mk_cipher_id k) \<noteq> Some (bound_hosts b0 k))"

lemma hosts_of_import_all:
  "hosts_of (import_all now b0 ks b) j
     = (if j \<in> mk_cipher_id ` set ks then Some (unwrap_or [] (hosts_of b0 j)) else hosts_of b j)"
  by (induction ks arbitrary: b) (auto simp: import_all_def hosts_of_import_hosts bound_hosts_def)

lemma differs_step:
  "differs b0 (k # ks) b \<longleftrightarrow> hosts_of b (mk_cipher_id k) \<noteq> Some (bound_hosts b0 k)
     \<or> differs b0 ks (import_hosts now (mk_cipher_id k) (bound_hosts b0 k) b)"
  unfolding differs_def hosts_of_import_hosts bound_hosts_def by simp metis

definition keys_ok :: "(ManagedKey \<Rightarrow> string) \<Rightarrow> ManagedKey list \<Rightarrow> bool" where
  "keys_ok arg keys \<longleftrightarrow> (\<forall>k \<in> set keys. key_text_ok k \<and> quoted (arg k) \<and> {LF, CR} \<inter> set (arg k) = {})"

lemma keys_ok_ids: "keys_ok arg keys \<Longrightarrow> ids_ok (map mk_cipher_id keys)"
  by (auto simp: keys_ok_def ids_ok_def key_text_ok_def)

lemma bound_blocks_import:
  assumes "ids_ok known"
    and "\<forall>k \<in> set ks. key_text_ok k \<and> mk_cipher_id k \<in> set known \<and> quoted (arg k) \<and> importable (bound_hosts b0 k)"
  shows "\<exists>p'. import_loop now known (concat (map (bound_block arg b0) ks) @ ls) p ch b
    = import_loop now known ls p' (ch \<or> differs b0 ks b) (import_all now b0 ks b)"
  using assms(2)
proof (induction ks arbitrary: p ch b)
  case Nil
  then show ?case by (auto simp: differs_def import_all_def)
next
  case (Cons k ks)
  have k: "key_text_ok k" "mk_cipher_id k \<in> set known" "quoted (arg k)" "importable (bound_hosts b0 k)" using Cons.prems by simp_all
  let ?b = "import_hosts now (mk_cipher_id k) (bound_hosts b0 k) b"
  let ?ch = "ch \<or> hosts_of b (mk_cipher_id k) \<noteq> Some (bound_hosts b0 k)"
  have step: "import_loop now known (concat (map (bound_block arg b0) (k # ks)) @ ls) p ch b
      = import_loop now known (concat (map (bound_block arg b0) ks) @ ls) None ?ch ?b"
    unfolding list.map concat.simps append_assoc by (rule bound_block_import) (use k assms(1) in simp_all)
  have "\<forall>k \<in> set ks. key_text_ok k \<and> mk_cipher_id k \<in> set known \<and> quoted (arg k) \<and> importable (bound_hosts b0 k)"
    using Cons.prems by simp
  from Cons.IH [OF this, of None ?ch ?b] obtain p' where
    IH: "import_loop now known (concat (map (bound_block arg b0) ks) @ ls) None ?ch ?b
      = import_loop now known ls p' (?ch \<or> differs b0 ks ?b) (import_all now b0 ks ?b)" by blast
  have "(?ch \<or> differs b0 ks ?b) = (ch \<or> differs b0 (k # ks) b)"
    using differs_step [of b0 k ks b now] by blast
  moreover have "import_all now b0 ks ?b = import_all now b0 (k # ks) b" by (simp add: import_all_def)
  ultimately show ?case by (intro exI [of _ p']) (simp only: step IH)
qed

lemma unbound_blocks_import:
  assumes "ids_ok known" and "\<forall>k \<in> set ks. key_text_ok k \<and> mk_cipher_id k \<in> set known \<and> quoted (arg k)"
  shows "\<exists>p'. import_loop now known (concat (map (unbound_block arg) ks) @ ls) p ch b = import_loop now known ls p' ch b"
  using assms(2)
proof (induction ks arbitrary: p)
  case (Cons k ks)
  have k: "key_text_ok k" "mk_cipher_id k \<in> set known" "quoted (arg k)" using Cons.prems by simp_all
  have step: "import_loop now known (concat (map (unbound_block arg) (k # ks)) @ ls) p ch b
      = import_loop now known (concat (map (unbound_block arg) ks) @ ls) (Some (mk_cipher_id k)) ch b"
    unfolding list.map concat.simps append_assoc by (rule unbound_block_import) (use k assms(1) in simp_all)
  have "\<forall>k \<in> set ks. key_text_ok k \<and> mk_cipher_id k \<in> set known \<and> quoted (arg k)" using Cons.prems by simp
  from Cons.IH [OF this, of "Some (mk_cipher_id k)"] show ?case unfolding step .
qed auto

lemma import_blank_end:
  "import_loop now known (ls @ [[]]) p ch b = import_loop now known ls p ch b"
proof (induction now known ls p ch b rule: import_loop.induct)
  case (1 now known p ch b)
  then show ?case using import_idle [OF plain_idle [OF plain_fixed(2)], where ls = "[]"] by simp
next
  case (2 now known l ls p ch b)
  then show ?case by (auto simp: Let_def split: option.splits list.splits sum.splits)
qed

lemma snippet_import:
  assumes ok: "keys_ok arg keys" and imp: "\<forall>k \<in> set keys. bound_hosts b0 k \<noteq> [] \<longrightarrow> importable (bound_hosts b0 k)"
  shows "import_loop now (map mk_cipher_id keys) (snippet_lines arg keys b0) p ch b
    = Inr (ch \<or> differs b0 (filter (\<lambda>k. bound_hosts b0 k \<noteq> []) keys) b,
           import_all now b0 (filter (\<lambda>k. bound_hosts b0 k \<noteq> []) keys) b)"
proof -
  let ?known = "map mk_cipher_id keys" and ?bk = "filter (\<lambda>k. bound_hosts b0 k \<noteq> []) keys"
  define uk where "uk = filter (\<lambda>k. bound_hosts b0 k = []) keys"
  define tl where "tl = (if uk = [] then [] else [unbound_heading, []] @ concat (map (unbound_block arg) uk))"
  have ids: "ids_ok ?known" using ok by (rule keys_ok_ids)
  have sl: "snippet_lines arg keys b0 = header_lines @ concat (map (bound_block arg b0) ?bk) @ tl"
    by (simp add: snippet_lines_def Let_def tl_def uk_def)
  have "import_loop now ?known (snippet_lines arg keys b0) p ch b = import_loop now ?known (concat (map (bound_block arg b0) ?bk) @ tl) p ch b"
    unfolding sl using plain_header plain_idle by (intro import_idles) blast
  moreover obtain p' where "import_loop now ?known (concat (map (bound_block arg b0) ?bk) @ tl) p ch b
      = import_loop now ?known tl p' (ch \<or> differs b0 ?bk b) (import_all now b0 ?bk b)"
    using bound_blocks_import [OF ids, of ?bk arg b0 now tl p ch b] ok imp by (auto simp: keys_ok_def)
  moreover have "import_loop now ?known tl q c x = Inr (c, x)" for q c x
  proof (cases "uk = []")
    case False
    have "import_loop now ?known tl q c x = import_loop now ?known (concat (map (unbound_block arg) uk) @ []) q c x"
      unfolding tl_def using False plain_fixed plain_idle
      by (simp del: import_loop.simps add: import_idle)
    then show ?thesis
      using unbound_blocks_import [OF ids, of uk arg now "[]" q c x] ok by (auto simp: keys_ok_def uk_def)
  qed (simp add: tl_def)
  ultimately show ?thesis by simp
qed

text \<open>The text of the snippet has exactly its lines.\<close>

lemma host_no_lf: "\<forall>h \<in> set hs. LF \<notin> set h \<and> CR \<notin> set h \<Longrightarrow> LF \<notin> set (join '' '' hs) \<and> CR \<notin> set (join '' '' hs)"
  by (induction "'' '' :: string" hs rule: join.induct) auto

definition hosts_text_ok :: "HostBindingsFile \<Rightarrow> ManagedKey list \<Rightarrow> bool" where
  "hosts_text_ok b keys \<longleftrightarrow>
     (\<forall>k \<in> set keys. \<forall>h \<in> set (bound_hosts b k). h \<noteq> ''<host>'' \<and> \<not> is_cont (hd h) \<and> LF \<notin> set h \<and> CR \<notin> set h)"

lemma block_lines_ok:
  assumes "key_text_ok k" and "{LF, CR} \<inter> set (arg k) = {}"
    and "\<forall>h \<in> set (bound_hosts b k). LF \<notin> set h \<and> CR \<notin> set h"
  shows "\<forall>l \<in> set (bound_block arg b k). LF \<notin> set l \<and> CR \<notin> set l"
    and "\<forall>l \<in> set (unbound_block arg k). LF \<notin> set l \<and> CR \<notin> set l"
  using assms(1,2) host_no_lf [OF assms(3)]
  by (auto simp: bound_block_def unbound_block_def key_comment_def key_text_ok_def SSHWARDEN_KEY_MARKER_PREFIX_def)

lemma header_lines_ok: "\<forall>l \<in> set header_lines. LF \<notin> set l \<and> CR \<notin> set l"
  by (simp add: header_lines_def)

lemma snippet_lines_ok:
  assumes "keys_ok arg keys" and "hosts_text_ok b keys"
  shows "\<forall>l \<in> set (snippet_lines arg keys b). LF \<notin> set l \<and> CR \<notin> set l"
proof -
  have b: "\<forall>l \<in> set (bound_block arg b k). LF \<notin> set l \<and> CR \<notin> set l" "\<forall>l \<in> set (unbound_block arg k). LF \<notin> set l \<and> CR \<notin> set l"
    if "k \<in> set keys" for k
  proof -
    have k: "key_text_ok k" "{LF, CR} \<inter> set (arg k) = {}" using assms(1) that by (simp_all add: keys_ok_def)
    have h: "\<forall>h \<in> set (bound_hosts b k). LF \<notin> set h \<and> CR \<notin> set h"
      using assms(2) that by (simp add: hosts_text_ok_def)
    show "\<forall>l \<in> set (bound_block arg b k). LF \<notin> set l \<and> CR \<notin> set l" by (rule block_lines_ok(1) [where arg = arg, OF k h])
    show "\<forall>l \<in> set (unbound_block arg k). LF \<notin> set l \<and> CR \<notin> set l" by (rule block_lines_ok(2) [where arg = arg, OF k h])
  qed
  have src: "l \<in> set header_lines \<or> l = [] \<or> l = unbound_heading
      \<or> (\<exists>k \<in> set keys. l \<in> set (bound_block arg b k) \<union> set (unbound_block arg k))"
    if "l \<in> set (snippet_lines arg keys b)" for l
    using that by (auto simp: snippet_lines_def Let_def split: if_splits)
  have u: "LF \<notin> set unbound_heading \<and> CR \<notin> set unbound_heading" by (simp add: unbound_heading_def)
  show ?thesis
  proof
    fix l
    assume "l \<in> set (snippet_lines arg keys b)"
    from src [OF this] show "LF \<notin> set l \<and> CR \<notin> set l"
    proof (elim disjE bexE)
      fix k
      assume "k \<in> set keys" and "l \<in> set (bound_block arg b k) \<union> set (unbound_block arg k)"
      then show ?thesis using b [of k] by blast
    qed (use header_lines_ok u in \<open>blast, simp, simp\<close>)
  qed
qed

lemma concat_ends_blank: "bs \<noteq> [] \<Longrightarrow> \<forall>x \<in> set bs. \<exists>ls. x = ls @ [[]] \<Longrightarrow> \<exists>ls. concat bs = ls @ [[]]"
  by (cases bs rule: rev_cases) fastforce+

lemma blocks_end_blank: "\<exists>ls. bound_block arg b k = ls @ [[]]" "\<exists>ls. unbound_block arg k = ls @ [[]]"
  by (simp_all add: bound_block_def unbound_block_def)

lemma append_ends_blank: "\<exists>ls. x = ls @ [[]] \<Longrightarrow> \<exists>ls. y @ x = ls @ [[]]"
  by (metis append.assoc)

lemma snippet_ends_blank: "\<exists>ls. snippet_lines arg keys b = ls @ [[]]"
proof -
  let ?uk = "filter (\<lambda>k. bound_hosts b k = []) keys" and ?bk = "filter (\<lambda>k. bound_hosts b k \<noteq> []) keys"
  have h: "\<exists>ls. header_lines = ls @ [[]]" by (simp add: header_lines_def)
  consider "?uk \<noteq> []" | "?uk = []" "?bk \<noteq> []" | "?uk = []" "?bk = []" by blast
  then show ?thesis
  proof cases
    case 1
    have "\<exists>ls. concat (map (unbound_block arg) ?uk) = ls @ [[]]"
      using 1 blocks_end_blank by (intro concat_ends_blank) auto
    moreover have "snippet_lines arg keys b
        = (header_lines @ concat (map (bound_block arg b) ?bk) @ [unbound_heading, []]) @ concat (map (unbound_block arg) ?uk)"
      using 1 by (simp only: snippet_lines_def Let_def if_False append_assoc)
    ultimately show ?thesis by (simp only: append_ends_blank)
  next
    case 2
    have "\<exists>ls. concat (map (bound_block arg b) ?bk) = ls @ [[]]"
      using 2 blocks_end_blank by (intro concat_ends_blank) auto
    from append_ends_blank [OF this, of header_lines] show ?thesis
      unfolding snippet_lines_def Let_def 2(1) by simp
  next
    case 3
    then show ?thesis using h unfolding snippet_lines_def Let_def 3 by simp
  qed
qed

lemma snippet_text_lines:
  assumes "keys_ok (identity_arg home dir st) keys" and "hosts_text_ok b keys"
  shows "import_loop now known (lines (ssh_config_snippet_with_bindings_in home keys b dir st)) p ch b'
    = import_loop now known (snippet_lines (identity_arg home dir st) keys b) p ch b'"
proof -
  obtain ls where ls: "snippet_lines (identity_arg home dir st) keys b = ls @ [[]]" using snippet_ends_blank by blast
  have "lines (terminated ls) = ls"
    using lines_terminated [of ls "[]"] snippet_lines_ok [OF assms] ls by simp
  then show ?thesis
    unfolding ssh_config_snippet_with_bindings_in_def ls join_snoc_Nil by (simp add: import_blank_end)
qed

section \<open>Refreshing the snippet\<close>

lemma import_all_same: "\<not> differs b0 ks b \<Longrightarrow> import_all now b0 ks b = b"
  by (induction ks) (auto simp: import_all_def differs_def import_hosts_def)

lemma import_all_inv: "am_inv (bindings b) \<Longrightarrow> am_inv (bindings (import_all now b0 ks b))"
  by (induction ks arbitrary: b) (auto simp: import_all_def import_hosts_def am_inv_insert)

lemma bound_hosts_wf: "wf_bindings b \<Longrightarrow> bound_hosts b k = [] \<longleftrightarrow> hosts_of b (mk_cipher_id k) = None"
  by (cases "am_get (bindings b) (mk_cipher_id k)") (auto simp: bound_hosts_def hosts_of_def wf_bindings_def)

lemma wf_importable:
  assumes "wf_bindings b" and "hosts_text_ok b keys" and "k \<in> set keys" and "bound_hosts b k \<noteq> []"
  shows "importable (bound_hosts b k)"
proof -
  obtain kb where "am_get (bindings b) (mk_cipher_id k) = Some kb" "bound_hosts b k = hosts kb"
    using assms(4) by (cases "am_get (bindings b) (mk_cipher_id k)") (auto simp: bound_hosts_def hosts_of_def)
  then have "host_list_ok (bound_hosts b k)" using assms(1) by (auto simp: wf_bindings_def)
  with assms(2-4) show ?thesis by (auto simp: importable_def hosts_text_ok_def)
qed

lemma import_own_snippet:
  fixes keys b0 b
  defines "bk \<equiv> filter (\<lambda>k. bound_hosts b0 k \<noteq> []) keys"
  assumes "wf_bindings b0" and "hosts_text_ok b0 keys" and "keys_ok (identity_arg home dir st) keys"
  shows "import_host_bindings_from_managed_file now path (Text (ssh_config_snippet_with_bindings_in home keys b0 dir st)) keys b
      = Inr (differs b0 bk b, import_all now b0 bk b)"
    and "hosts_of (import_all now b0 bk b) j
      = (if j \<in> mk_cipher_id ` set keys \<and> hosts_of b0 j \<noteq> None then hosts_of b0 j else hosts_of b j)"
proof -
  have "\<forall>k \<in> set keys. bound_hosts b0 k \<noteq> [] \<longrightarrow> importable (bound_hosts b0 k)"
    using wf_importable [OF assms(2,3)] by blast
  from snippet_import [OF assms(4) this, of now None False b]
  show "import_host_bindings_from_managed_file now path (Text (ssh_config_snippet_with_bindings_in home keys b0 dir st)) keys b
      = Inr (differs b0 bk b, import_all now b0 bk b)"
    by (simp add: import_host_bindings_from_managed_file_def snippet_text_lines [OF assms(4,3)] bk_def)
  have "mk_cipher_id ` set bk = {j \<in> mk_cipher_id ` set keys. hosts_of b0 j \<noteq> None}"
    using bound_hosts_wf [OF assms(2)] by (auto simp: bk_def)
  then show "hosts_of (import_all now b0 bk b) j
      = (if j \<in> mk_cipher_id ` set keys \<and> hosts_of b0 j \<noteq> None then hosts_of b0 j else hosts_of b j)"
    by (auto simp: hosts_of_import_all split: option.splits)
qed

text \<open>An environment in which every call works.\<close>

definition env_works :: "ssh_env \<Rightarrow> string \<Rightarrow> string \<Rightarrow> bool" where
  "env_works E dir ip \<longleftrightarrow> (\<exists>bp up n. env_bindings E = Inr bp \<and> env_user_config E = Inr up \<and> env_lock E = Inr n)
     \<and> managed_sshwarden_include_path E = Inr ip \<and> env_selector_dir E = Inr dir
     \<and> (\<forall>s. env_save E s = (True, Written)) \<and> (\<forall>p. env_private E p = Pw_Ok \<and> env_dir E p = Inr ())"

lemma save_works: "env_works E dir ip \<Longrightarrow> save_bindings E site b fs = (Inr (), fs\<lparr>bindings_disk := Present b\<rparr>)"
  by (auto simp: env_works_def save_bindings_def save_to_def replaced_def)

lemma filter_same_length: "length (filter P xs) = length xs \<Longrightarrow> filter P xs = xs"
  by (metis filter_id_conv filter_shorter)

lemma prune_known_works:
  assumes "env_works E dir ip" and "keys \<noteq> []" and "am_inv (bindings b)" and "bindings_disk fs = Present b"
  shows "\<exists>b'. prune_known E keys b fs = (Inr b', fs\<lparr>bindings_disk := Present b'\<rparr>)
    \<and> (\<forall>j. hosts_of b' j = (if j \<in> mk_cipher_id ` set keys then hosts_of b j else None))"
proof -
  let ?ids = "map mk_cipher_id keys"
  define b' where "b' = b\<lparr>bindings := am_retain (\<lambda>i _. i \<in> set ?ids) (bindings b)\<rparr>"
  have look: "hosts_of b' j = (if j \<in> mk_cipher_id ` set keys then hosts_of b j else None)" for j
    using am.get_retain [OF assms(3)] by (cases "am_get (bindings b) j") (auto simp: hosts_of_def b'_def)
  have pr: "prune_orphans ?ids b = (length (bindings b) - length (bindings b'), b')"
    by (simp add: prune_orphans_def Let_def b'_def)
  have "length (bindings b') \<le> length (bindings b)" by (simp add: b'_def am_retain_def)
  moreover have "b' = b" if "length (bindings b') = length (bindings b)"
    using that filter_same_length [of _ "bindings b"] by (simp add: b'_def am_retain_def)
  ultimately have "prune_known E keys b fs = (Inr b', fs\<lparr>bindings_disk := Present b'\<rparr>)"
    using assms(2,4) pr save_works [OF assms(1), of Prune_Save b' fs]
    by (cases "length (bindings b') = length (bindings b)") (simp_all add: prune_known_def)
  with look show ?thesis by blast
qed

lemma sync_works:
  assumes E: "env_works E dir ip" and "env_style E = Inr st" and "keys \<noteq> []" and d: "bindings_disk fs = Present b1"
    and imp: "import_host_bindings_from_managed_file (now_secs (env_clock E)) ip (managed_file fs) keys b1 = Inr (ch, b2)"
    and same: "\<not> ch \<Longrightarrow> b2 = b1" and inv: "am_inv (bindings b2)"
  shows "\<exists>b3. sync_managed_ssh_config_inner E keys True fs
      = (Inr (), fs\<lparr>bindings_disk := Present b3, managed_file := Text (ssh_config_snippet_with_bindings_in (env_home E) keys b3 dir st)\<rparr>)
    \<and> (\<forall>j. hosts_of b3 j = (if j \<in> mk_cipher_id ` set keys then hosts_of b2 j else None))"
proof -
  let ?fs = "fs\<lparr>bindings_disk := Present b2\<rparr>"
  obtain bp where bp: "env_bindings E = Inr bp" using E by (auto simp: env_works_def)
  have ip: "managed_sshwarden_include_path E = Inr ip" using E by (simp add: env_works_def)
  have "fs = ?fs" if "\<not> ch" using d same that by (cases fs) auto
  then have l: "load_host_bindings_importing_managed E keys fs = (Inr b2, ?fs)"
    using bp ip d imp assms(3) save_works [OF E, of Import_Save b2 fs]
    by (cases ch) (simp_all add: load_host_bindings_importing_managed_def load_from_def)
  obtain b3 where b3: "prune_known E keys b2 ?fs = (Inr b3, fs\<lparr>bindings_disk := Present b3\<rparr>)"
    "\<forall>j. hosts_of b3 j = (if j \<in> mk_cipher_id ` set keys then hosts_of b2 j else None)"
    using prune_known_works [OF E assms(3) inv, of ?fs] by auto
  then show ?thesis
    using E l ip assms(2)
    by (intro exI [of _ b3]) (simp add: sync_managed_ssh_config_inner_def ssh_config_snippet_with_bindings_def
        env_works_def write_private_file_def)
qed

text \<open>
  An edit under the lock followed by the refresh, on a snippet that is up to date: the refresh imports
  the hosts of the old snippet again.
\<close>

lemma edit_then_sync:
  assumes E: "env_works E dir ip" and st: "env_style E = Inr st" and "keys \<noteq> []"
    and b0: "wf_bindings b0" "hosts_text_ok b0 keys" "keys_ok (identity_arg (env_home E) dir st) keys"
    and fs: "bindings_disk fs = Present b0" "managed_file fs = Text (ssh_config_snippet_with_bindings_in (env_home E) keys b0 dir st)"
    and m: "mutate b0 = Inr (v, b1)" "am_inv (bindings b1)"
  shows "\<exists>fs1 b3. with_host_bindings_locked E keys mutate fs = (Inr v, fs1)
    \<and> sync_managed_ssh_config_inner E keys True fs1 = (Inr (), fs\<lparr>bindings_disk := Present b3,
        managed_file := Text (ssh_config_snippet_with_bindings_in (env_home E) keys b3 dir st)\<rparr>)
    \<and> (\<forall>j. hosts_of b3 j = (if j \<notin> mk_cipher_id ` set keys then None
          else if hosts_of b0 j \<noteq> None then hosts_of b0 j else hosts_of b1 j))"
proof -
  let ?now = "now_secs (env_clock E)" and ?bk = "filter (\<lambda>k. bound_hosts b0 k \<noteq> []) keys"
  let ?fs1 = "fs\<lparr>bindings_disk := Present b1\<rparr>"
  note imp = import_own_snippet [OF b0]
  have nd: "\<not> differs b0 ?bk b0"
    unfolding differs_def bound_hosts_def by (auto simp: unwrap_or_def split: option.splits)
  obtain bp n where bp: "env_bindings E = Inr bp" "env_lock E = Inr n" using E by (auto simp: env_works_def)
  have ip: "managed_sshwarden_include_path E = Inr ip" using E by (simp add: env_works_def)
  have 1: "with_host_bindings_locked E keys mutate fs = (Inr v, ?fs1)"
    using E bp ip fs m(1) assms(3) imp(1) [of ?now ip b0] import_all_same [OF nd, of ?now]
    by (simp add: with_host_bindings_locked_def update_locked_def locked_section_def load_from_def env_works_def
        save_to_def replaced_def)
  define b2 where "b2 = import_all ?now b0 ?bk b1"
  have inv: "am_inv (bindings b2)"
    unfolding b2_def using m(2) by (rule import_all_inv)
  have "import_host_bindings_from_managed_file ?now ip (managed_file ?fs1) keys b1 = Inr (differs b0 ?bk b1, b2)"
    using imp(1) [of ?now ip b1] fs(2) by (simp add: b2_def)
  from sync_works [OF E st assms(3) _ this _ inv] obtain b3 where b3:
    "sync_managed_ssh_config_inner E keys True ?fs1 = (Inr (), ?fs1\<lparr>bindings_disk := Present b3,
        managed_file := Text (ssh_config_snippet_with_bindings_in (env_home E) keys b3 dir st)\<rparr>)"
    "\<forall>j. hosts_of b3 j = (if j \<in> mk_cipher_id ` set keys then hosts_of b2 j else None)"
    using import_all_same [of b0 ?bk b1 ?now] by (auto simp: b2_def)
  have "\<forall>j. hosts_of b3 j = (if j \<notin> mk_cipher_id ` set keys then None
          else if hosts_of b0 j \<noteq> None then hosts_of b0 j else hosts_of b1 j)"
    using b3(2) imp(2) [of ?now b1] by (auto simp: b2_def)
  with 1 b3(1) show ?thesis by (intro exI [of _ ?fs1] exI [of _ b3]) simp
qed

lemma set_all_wf: "wf_bindings b \<Longrightarrow> set_all now payload b = Inr (u, b') \<Longrightarrow> wf_bindings b'"
proof (induction now payload b rule: set_all.induct)
  case (2 now i hs payload b)
  then obtain x where x: "set_hosts now i hs b = Inr x" "set_all now payload x = Inr (u, b')"
    by (cases "set_hosts now i hs b") auto
  with set_hosts_spec [OF "2.prems"(1) x(1)] "2.IH" show ?case by blast
qed simp

lemma add_all_wf: "wf_bindings b \<Longrightarrow> add_all now i hs b = Inr (u, b') \<Longrightarrow> wf_bindings b'"
proof (induction now i hs b rule: add_all.induct)
  case (2 now i h hs b)
  then obtain x where x: "add_host now i h b = Inr x" "add_all now i hs x = Inr (u, b')"
    by (cases "add_host now i h b") auto
  with add_host_spec [OF "2.prems"(1) x(1)] "2.IH" show ?case by blast
qed simp

lemma removal_wf: "wf_bindings b \<Longrightarrow> removal now i host all b = Inr (r, b') \<Longrightarrow> wf_bindings b'"
  using clear_key_spec [of b i] remove_host_spec [of b now i]
  by (auto simp: removal_def split: option.splits bool.splits prod.splits)

lemma wf_inv: "wf_bindings b \<Longrightarrow> am_inv (bindings b)"
  by (simp add: wf_bindings_def)

lemma ensure_include_works:
  assumes "env_works E dir ip"
  shows "\<exists>c. ensure_include E fs = (Inr (), fs\<lparr>user_config_file := c\<rparr>)"
  using assms by (auto simp: ensure_include_def env_works_def)

lemma resolve_exact:
  assumes "cache = Inr (Some c)" and "keys = from_cache_header (hdr_keys (cache_header c))" and "i \<in> mk_cipher_id ` set keys"
  shows "resolve_cipher_id cache i = Inr i" and "managed_keys_from_cache cache = Inr keys"
proof -
  have "\<exists>k \<in> set (hdr_keys (cache_header c)). ki_vault_item_id k = i"
    using assms(2,3) by (auto simp: from_cache_header_def)
  then show "resolve_cipher_id cache i = Inr i" using assms(1) by (simp add: resolve_cipher_id_def list_ex_iff Let_def)
  show "managed_keys_from_cache cache = Inr keys" using assms(1,2) by (simp add: managed_keys_from_cache_def)
qed

section \<open>Properties\<close>

text \<open>
  C27: the managed snippet carries the bindings. Importing a generated snippet gives every key of the
  snippet that was bound its hosts back, in order, and leaves every other key's hosts as they were;
  it reports a change exactly when one of those keys had other hosts. So bindings that were lost are
  recovered from the snippet, and an import right after a generation changes nothing.
\<close>

theorem snippet_import_roundtrip:
  assumes "wf_bindings b0" and "hosts_text_ok b0 keys" and "keys_ok (identity_arg home dir st) keys"
  shows "\<exists>changed b'. import_host_bindings_from_managed_file now path
        (Text (ssh_config_snippet_with_bindings_in home keys b0 dir st)) keys b = Inr (changed, b')
    \<and> (\<forall>j. hosts_of b' j = (if j \<in> mk_cipher_id ` set keys \<and> hosts_of b0 j \<noteq> None then hosts_of b0 j else hosts_of b j))
    \<and> (changed \<longleftrightarrow> (\<exists>j \<in> mk_cipher_id ` set keys. hosts_of b0 j \<noteq> None \<and> hosts_of b j \<noteq> hosts_of b0 j))
    \<and> (\<not> changed \<longrightarrow> b' = b)"
proof -
  let ?bk = "filter (\<lambda>k. bound_hosts b0 k \<noteq> []) keys"
  have "differs b0 ?bk b \<longleftrightarrow> (\<exists>k \<in> set keys. bound_hosts b0 k \<noteq> [] \<and> hosts_of b (mk_cipher_id k) \<noteq> Some (bound_hosts b0 k))"
    by (auto simp: differs_def)
  also have "\<dots> \<longleftrightarrow> (\<exists>k \<in> set keys. hosts_of b0 (mk_cipher_id k) \<noteq> None \<and> hosts_of b (mk_cipher_id k) \<noteq> hosts_of b0 (mk_cipher_id k))"
  proof (rule bex_cong [OF refl])
    fix k
    show "bound_hosts b0 k \<noteq> [] \<and> hosts_of b (mk_cipher_id k) \<noteq> Some (bound_hosts b0 k)
        \<longleftrightarrow> hosts_of b0 (mk_cipher_id k) \<noteq> None \<and> hosts_of b (mk_cipher_id k) \<noteq> hosts_of b0 (mk_cipher_id k)"
      using bound_hosts_wf [OF assms(1), of k] by (cases "hosts_of b0 (mk_cipher_id k)") (simp_all add: bound_hosts_def)
  qed
  finally have "differs b0 ?bk b \<longleftrightarrow> (\<exists>j \<in> mk_cipher_id ` set keys. hosts_of b0 j \<noteq> None \<and> hosts_of b j \<noteq> hosts_of b0 j)" by simp
  then show ?thesis
    using import_own_snippet [OF assms] import_all_same [of b0 ?bk b now] by auto
qed

definition demo_keys :: "ManagedKey list" where
  "demo_keys = [\<lparr>mk_name = ''web'', mk_cipher_id = ''id1''\<rparr>]"

definition demo_bound :: HostBindingsFile where
  "demo_bound = \<lparr>bf_version = 1, bindings = [(''id1'', \<lparr>hosts = [''a''], updated_at = 0\<rparr>)]\<rparr>"

lemma demo_bound_wf: "wf_bindings demo_bound"
proof -
  have "validate_host_pattern ''a'' = Inr ()" "trim ''a'' = ''a''" by code_simp+
  then show ?thesis by (simp add: demo_bound_def wf_bindings_def am_inv_def host_list_ok_def host_ok_def)
qed

lemma demo_text_ok: "hosts_text_ok demo_bound demo_keys" "keys_ok (identity_arg None ''/k'' Absolute) demo_keys"
proof -
  show "hosts_text_ok demo_bound demo_keys"
    by (simp add: hosts_text_ok_def demo_bound_def demo_keys_def bound_hosts_def hosts_of_def is_cont_def)
  have "word_like ''id1''" by code_simp
  moreover have "{LF, CR} \<inter> set (identity_arg None ''/k'' Absolute \<lparr>mk_name = ''web'', mk_cipher_id = ''id1''\<rparr>) = {}"
    by code_simp
  ultimately show "keys_ok (identity_arg None ''/k'' Absolute) demo_keys"
    by (simp add: keys_ok_def demo_keys_def key_text_ok_def is_cont_def identity_arg_def path_arg_quoted)
qed

theorem snippet_import_roundtrip_witness:
  "\<exists>b'. import_host_bindings_from_managed_file 7 ''m''
     (Text (ssh_config_snippet_with_bindings_in None demo_keys demo_bound ''/k'' Absolute)) demo_keys bindings_default = Inr (True, b')
   \<and> hosts_of b' ''id1'' = Some [''a'']"
proof -
  have h: "''id1'' \<in> mk_cipher_id ` set demo_keys" "hosts_of demo_bound ''id1'' = Some [''a'']" "hosts_of bindings_default ''id1'' = None"
    by (simp_all add: demo_keys_def demo_bound_def hosts_of_def bindings_default_def)
  obtain ch b' where b': "import_host_bindings_from_managed_file 7 ''m''
      (Text (ssh_config_snippet_with_bindings_in None demo_keys demo_bound ''/k'' Absolute)) demo_keys bindings_default = Inr (ch, b')"
    "\<forall>j. hosts_of b' j = (if j \<in> mk_cipher_id ` set demo_keys \<and> hosts_of demo_bound j \<noteq> None then hosts_of demo_bound j
        else hosts_of bindings_default j)" "\<not> ch \<longrightarrow> b' = bindings_default"
    using snippet_import_roundtrip [OF demo_bound_wf demo_text_ok, of 7 "''m''" bindings_default] by blast
  from b'(2) have "hosts_of b' ''id1'' = Some [''a'']" using h by simp
  moreover from this have ch using b'(3) h(3) by auto
  ultimately show ?thesis using b'(1) by auto
qed

definition refreshed_to :: "HostBindingsFile \<Rightarrow> HostBindingsFile \<Rightarrow> ManagedKey list \<Rightarrow> ssh_files \<Rightarrow> bool" where
  "refreshed_to b0 b1 keys fs \<longleftrightarrow>
     (\<exists>b3. bindings_disk fs = Present b3 \<and> (\<forall>j. hosts_of b3 j = (if j \<notin> mk_cipher_id ` set keys then None
        else if hosts_of b0 j \<noteq> None then hosts_of b0 j else hosts_of b1 j)))"

text \<open>
  What becomes of a change to the bindings. When the snippet is up to date and every call works,
  saving the bind dialog, \<open>keys bind\<close> and \<open>keys unbind\<close> report success, but the refresh that
  follows imports the old snippet again: afterwards every key that was bound before has exactly its
  old hosts, and only keys that had no host get the new ones.
\<close>

theorem rebinding_is_reverted:
  assumes "env_works E dir ip" and "env_style E = Inr st" and "keys \<noteq> []"
    and "wf_bindings b0" and "hosts_text_ok b0 keys" and "keys_ok (identity_arg (env_home E) dir st) keys"
    and "bindings_disk fs = Present b0"
    and "managed_file fs = Text (ssh_config_snippet_with_bindings_in (env_home E) keys b0 dir st)"
    and "cache = Inr (Some c)" and "keys = from_cache_header (hdr_keys (cache_header c))" and "i \<in> mk_cipher_id ` set keys"
  shows "(\<forall>payload b1. set_all (now_secs (env_clock E)) payload b0 = Inr ((), b1) \<longrightarrow>
            (\<exists>fs'. persist_bind_payload E (Inr keys) payload fs = (Inr (), fs') \<and> refreshed_to b0 b1 keys fs'))
    \<and> (\<forall>hs b1. add_all (now_secs (env_clock E)) i hs b0 = Inr ((), b1) \<longrightarrow>
            (\<exists>fs'. cmd_bindings_add E cache i hs fs = (Inr (), fs') \<and> refreshed_to b0 b1 keys fs'))
    \<and> (\<forall>host all b1. removal (now_secs (env_clock E)) i host all b0 = Inr (True, b1) \<longrightarrow>
            (\<exists>fs'. cmd_bindings_remove E cache i host all fs = (Inr (), fs') \<and> refreshed_to b0 b1 keys fs'))"
proof (intro conjI allI impI)
  note run = edit_then_sync [OF assms(1-8)] and wf = assms(4)
  note res = resolve_exact [OF assms(9-11)]
  { fix payload b1
    assume a: "set_all (now_secs (env_clock E)) payload b0 = Inr ((), b1)"
    from run [where mutate = "set_all (now_secs (env_clock E)) payload", OF a wf_inv [OF set_all_wf [OF wf a]]] show
      "\<exists>fs'. persist_bind_payload E (Inr keys) payload fs = (Inr (), fs') \<and> refreshed_to b0 b1 keys fs'"
      using ensure_include_works [OF assms(1)] by (fastforce simp: persist_bind_payload_def Let_def refreshed_to_def) }
  { fix hs b1
    assume a: "add_all (now_secs (env_clock E)) i hs b0 = Inr ((), b1)"
    from run [where mutate = "add_all (now_secs (env_clock E)) i hs", OF a wf_inv [OF add_all_wf [OF wf a]]] show
      "\<exists>fs'. cmd_bindings_add E cache i hs fs = (Inr (), fs') \<and> refreshed_to b0 b1 keys fs'"
      using ensure_include_works [OF assms(1)] res by (fastforce simp: cmd_bindings_add_def Let_def refreshed_to_def) }
  { fix host all b1
    assume a: "removal (now_secs (env_clock E)) i host all b0 = Inr (True, b1)"
    from run [where mutate = "removal (now_secs (env_clock E)) i host all", OF a wf_inv [OF removal_wf [OF wf a]]] show
      "\<exists>fs'. cmd_bindings_remove E cache i host all fs = (Inr (), fs') \<and> refreshed_to b0 b1 keys fs'"
      using res by (fastforce simp: cmd_bindings_remove_def Let_def refreshed_to_def) }
qed

definition demo_ssh_env :: ssh_env where
  "demo_ssh_env = \<lparr>env_home = None, env_paths = demo_path_env, env_style = Inr Absolute, env_managed = Inr ''/sw'',
     env_user_config = Inr ''/c'', env_selector_dir = Inr ''/k'', env_bindings = Inr ''/bindings.json'',
     env_clock = Some 9, env_lock = Inr 0, env_save = (\<lambda>_. (True, Written)), env_dir = (\<lambda>_. Inr ()),
     env_private = (\<lambda>_. Pw_Ok)\<rparr>"

definition demo_ssh_files :: ssh_files where
  "demo_ssh_files = \<lparr>bindings_disk = Present demo_bound,
     managed_file = Text (ssh_config_snippet_with_bindings_in None demo_keys demo_bound ''/k'' Absolute), user_config_file = No_File\<rparr>"

definition demo_key_cache :: LocalKeyCacheFile where
  "demo_key_cache = \<lparr>cache_version = 3,
     cache_header = \<lparr>hdr_email = [], hdr_server_url = [],
       hdr_keys = [\<lparr>ki_name = ''web'', ki_vault_item_id = ''id1'', ki_public_key_openssh = []\<rparr>]\<rparr>,
     encrypted_payload = [], local_cache_key = \<lparr>pin_encrypted = None, pin_salt = None, hello_challenge = None,
       hello_encrypted = None, native_encrypted = None\<rparr>\<rparr>"

theorem rebinding_is_reverted_witness:
  "\<exists>fs' b3. persist_bind_payload demo_ssh_env (Inr demo_keys) [(''id1'', [''b''])] demo_ssh_files = (Inr (), fs')
     \<and> bindings_disk fs' = Present b3 \<and> hosts_of b3 ''id1'' = Some [''a'']"
proof -
  have "managed_sshwarden_include_path demo_ssh_env = Inr ''/sw''" by code_simp
  then have E: "env_works demo_ssh_env ''/k'' ''/sw''" by (simp add: env_works_def demo_ssh_env_def)
  have k: "demo_keys \<noteq> []" "demo_keys = from_cache_header (hdr_keys (cache_header demo_key_cache))" "''id1'' \<in> mk_cipher_id ` set demo_keys"
    by (simp_all add: demo_keys_def from_cache_header_def demo_key_cache_def)
  have "\<exists>b1. set_all (now_secs (env_clock demo_ssh_env)) [(''id1'', [''b''])] demo_bound = Inr ((), b1)"
  proof -
    have "validate_host_pattern ''b'' = Inr ()" by code_simp
    then show ?thesis by (simp add: set_hosts_cases)
  qed
  then obtain b1 where "set_all (now_secs (env_clock demo_ssh_env)) [(''id1'', [''b''])] demo_bound = Inr ((), b1)" by blast
  moreover have "env_style demo_ssh_env = Inr Absolute" "env_home demo_ssh_env = None" by (simp_all add: demo_ssh_env_def)
  moreover have "bindings_disk demo_ssh_files = Present demo_bound"
    "managed_file demo_ssh_files = Text (ssh_config_snippet_with_bindings_in None demo_keys demo_bound ''/k'' Absolute)"
    by (simp_all add: demo_ssh_files_def)
  ultimately have "\<exists>fs'. persist_bind_payload demo_ssh_env (Inr demo_keys) [(''id1'', [''b''])] demo_ssh_files = (Inr (), fs')
      \<and> refreshed_to demo_bound b1 demo_keys fs'"
    using rebinding_is_reverted [OF E _ k(1) demo_bound_wf demo_text_ok(1) _ _ _ refl k(2,3), of Absolute demo_ssh_files] demo_text_ok(2)
    by metis
  then obtain fs' where
    "persist_bind_payload demo_ssh_env (Inr demo_keys) [(''id1'', [''b''])] demo_ssh_files = (Inr (), fs')" "refreshed_to demo_bound b1 demo_keys fs'"
    by blast
  moreover have "hosts_of demo_bound ''id1'' = Some [''a'']" by (simp add: demo_bound_def hosts_of_def)
  ultimately show ?thesis using k(3) unfolding refreshed_to_def by auto
qed

text \<open>
  Nothing keeps a vault item's name on its comment line: a name with a line feed in it puts directives of
  its own into the snippet.
\<close>

lemma name_can_inject_directives:
  "''ProxyCommand x'' \<in> set (lines (ssh_config_snippet_with_bindings_in None
     [\<lparr>mk_name = ''n'' @ [LF] @ ''Host *'' @ [LF] @ ''ProxyCommand x'' @ [LF], mk_cipher_id = ''i''\<rparr>] bindings_default ''/k'' Absolute))"
  by code_simp

end
