(* ===== verification/Ssh_Target.thy ===== *)
theory Ssh_Target
  imports Agent Paths
begin

text \<open>
  Guessing the host of a waiting SSH client from its command line, for the host-binding dialog:
  \<open>src/ssh_target.rs\<close> and \<open>infer_ssh_target_from_pid\<close> of \<open>src/main.rs\<close>. The process table
  is the parameter of \<open>get_peer_cmd\<close>.
\<close>

definition SSH_VALUE_TAKING_FLAGS :: string where
  "SSH_VALUE_TAKING_FLAGS = ''BbcDEeFIiJLlmOopQRSWw''"

definition parse_ssh_target :: "string \<Rightarrow> string" where
  "parse_ssh_target arg = (case rsplit_once ''@'' arg of Some (_, host) \<Rightarrow> host | None \<Rightarrow> arg)"

text \<open>The combined short options of one word: does the last one take the next word as its value?\<close>

fun consume_next :: "string \<Rightarrow> bool" where
  "consume_next [] = False"
| "consume_next (c # cs) = (if c \<in> set SSH_VALUE_TAKING_FLAGS then cs = [] else consume_next cs)"

fun first_positional :: "string list \<Rightarrow> string option" where
  "first_positional [] = None"
| "first_positional (arg # args) =
     (if arg = ''--'' then (case args of [] \<Rightarrow> None | s # _ \<Rightarrow> Some (parse_ssh_target s))
      else case strip_prefix ''-'' arg of
        Some rest \<Rightarrow>
          if rest = [] then first_positional args
          else if consume_next rest then (case args of [] \<Rightarrow> None | _ # args' \<Rightarrow> first_positional args')
          else first_positional args
      | None \<Rightarrow> Some (parse_ssh_target arg))"

definition ssh_client_names :: "string list" where
  "ssh_client_names = [''ssh'', ''scp'', ''sftp'', ''ssh-keyscan'', ''ssh-copy-id'']"

definition client_name :: "string \<Rightarrow> string option" where
  "client_name argv0 =
     map_option (\<lambda>base. let b = map to_ascii_lower base in unwrap_or b (strip_suffix ''.exe'' b)) (file_name argv0)"

definition infer_ssh_target_from_pid :: "(u32 \<Rightarrow> process_entry option) \<Rightarrow> u32 \<Rightarrow> string option" where
  "infer_ssh_target_from_pid ps pid =
     (if pid = 0 then None
      else Option.bind (get_peer_cmd ps pid) (\<lambda>argv.
        case argv of
          [] \<Rightarrow> None
        | argv0 # args \<Rightarrow>
            Option.bind (client_name argv0) (\<lambda>base.
              if base \<in> set ssh_client_names then first_positional args else None)))"

section \<open>What a command line is\<close>

text \<open>
  The words before the target: options without a value, options with the value in the same word, and
  options followed by their value, which may be any word.
\<close>

inductive option_words :: "string list \<Rightarrow> bool" where
  no_words: "option_words []"
| lone_dash: "option_words ws \<Longrightarrow> option_words (''-'' # ws)"
| flags: "rest \<noteq> [] \<Longrightarrow> rest \<noteq> ''-'' \<Longrightarrow> \<not> consume_next rest \<Longrightarrow> option_words ws \<Longrightarrow> option_words ((''-'' @ rest) # ws)"
| flag_value: "consume_next rest \<Longrightarrow> option_words ws \<Longrightarrow> option_words ((''-'' @ rest) # val # ws)"

inductive command_line :: "string list \<Rightarrow> string \<Rightarrow> bool" where
  positional: "option_words ws \<Longrightarrow> \<not> starts_with ''-'' target \<Longrightarrow> command_line (ws @ target # rest) target"
| after_dashes: "option_words ws \<Longrightarrow> command_line (ws @ ''--'' # target # rest) target"

lemma dash_cases:
  "strip_prefix ''-'' w = None \<longleftrightarrow> \<not> starts_with ''-'' w"
  "strip_prefix ''-'' (''-'' @ r) = Some r"
  using strip_prefix_append [of "''-''" r] by (simp_all add: starts_with_def)

lemma consume_next_dash [simp]: "\<not> consume_next []" "\<not> consume_next ''-''"
  by (simp_all add: SSH_VALUE_TAKING_FLAGS_def)

lemma skip_options: "option_words ws \<Longrightarrow> first_positional (ws @ args) = first_positional args"
proof (induction rule: option_words.induct)
  case (flags rest ws)
  then show ?case using dash_cases(2) [of rest] by (cases rest) auto
next
  case (flag_value rest ws val)
  have "rest \<noteq> []" "rest \<noteq> ''-''" using flag_value(1) consume_next_dash by metis+
  then show ?case using flag_value dash_cases(2) [of rest] by (cases rest) auto
qed (simp_all add: dash_cases(2) [of "[]", simplified])

lemma command_line_found: "command_line args t \<Longrightarrow> first_positional args = Some (parse_ssh_target t)"
proof (induction rule: command_line.induct)
  case (positional ws target rest)
  have "target \<noteq> ''--''" using positional(2) by (auto simp: starts_with_iff)
  then show ?case using positional skip_options [OF positional(1)] dash_cases(1) [of target] by simp
next
  case (after_dashes ws target rest)
  then show ?case using skip_options by simp
qed

lemma command_line_prepend:
  assumes "\<And>ws. option_words ws \<Longrightarrow> option_words (pre @ ws)" and "command_line args t"
  shows "command_line (pre @ args) t"
  using assms(2)
proof cases
  case (positional ws rest)
  then show ?thesis using command_line.positional [OF assms(1) [OF positional(2)], of t rest] by simp
next
  case (after_dashes ws rest)
  then show ?thesis using command_line.after_dashes [OF assms(1) [OF after_dashes(2)], of t rest] by simp
qed

lemma found_command_line: "first_positional args = Some t \<Longrightarrow> \<exists>target. command_line args target \<and> t = parse_ssh_target target"
proof (induction args rule: first_positional.induct)
  case (2 arg args)
  show ?case
  proof (cases "arg = ''--''")
    case True
    then obtain s rest where "args = s # rest" "t = parse_ssh_target s" using "2.prems" by (cases args) auto
    then show ?thesis using after_dashes [OF no_words, of s rest] True by auto
  next
    case nd: False
    show ?thesis
    proof (cases "strip_prefix ''-'' arg")
      case None
      then have "t = parse_ssh_target arg" using "2.prems" nd by simp
      moreover have "command_line (arg # args) arg"
        using positional [OF no_words, of arg args] None dash_cases(1) by simp
      ultimately show ?thesis by blast
    next
      case (Some rest)
      then have arg: "arg = ''-'' @ rest" by (simp add: strip_prefix_Some_iff)
      have nd': "rest \<noteq> ''-''" using nd arg by auto
      show ?thesis
      proof (cases "rest = []")
        case True
        then obtain target where "command_line args target" "t = parse_ssh_target target"
          using "2.IH"(1) [OF nd Some] "2.prems" nd Some by auto
        then show ?thesis using command_line_prepend [of "[''-'']"] lone_dash arg True by auto
      next
        case ne: False
        show ?thesis
        proof (cases "consume_next rest")
          case True
          then obtain v args' where a: "args = v # args'" "first_positional args' = Some t"
            using "2.prems" nd Some ne by (cases args) auto
          then obtain target where "command_line args' target" "t = parse_ssh_target target"
            using "2.IH"(2) [OF nd Some ne True] by auto
          then show ?thesis using command_line_prepend [of "[''-'' @ rest, v]"] flag_value [OF True] arg a by auto
        next
          case False
          then obtain target where "command_line args target" "t = parse_ssh_target target"
            using "2.IH"(3) [OF nd Some ne] "2.prems" nd Some ne by auto
          then show ?thesis using command_line_prepend [of "[''-'' @ rest]"] flags [OF ne nd' False] arg by auto
        qed
      qed
    qed
  qed
qed simp

section \<open>The host of a target\<close>

definition host_of :: "string \<Rightarrow> string \<Rightarrow> bool" where
  "host_of target t \<longleftrightarrow> CHR ''@'' \<notin> set t \<and> (target = t \<or> (\<exists>user. target = user @ ''@'' @ t))"

lemma split_once_char: "c \<notin> set xs \<Longrightarrow> split_once [c] (xs @ c # ys) = Some (xs, ys)"
  by (induction xs) auto

lemma split_once_char_None: "c \<notin> set xs \<Longrightarrow> split_once [c] xs = None"
  by (induction xs) auto

lemma parse_ssh_target_iff: "t = parse_ssh_target target \<longleftrightarrow> host_of target t"
proof (cases "CHR ''@'' \<in> set target")
  case True
  then obtain us hs where r: "rev target = hs @ CHR ''@'' # us" "CHR ''@'' \<notin> set hs"
    using split_list_first [of "CHR ''@''" "rev target"] by auto
  then have target: "target = rev us @ ''@'' @ rev hs" by (metis append.assoc append_Cons append_Nil rev.simps(2) rev_append rev_rev_ident)
  have p: "parse_ssh_target target = rev hs"
    using split_once_char [OF r(2), of us] r(1) by (simp add: parse_ssh_target_def rsplit_once_def)
  moreover have "t = rev hs" if "host_of target t"
  proof -
    note h = that
    have n: "CHR ''@'' \<notin> set t" using h by (simp add: host_of_def)
    then have "target \<noteq> t" using True by auto
    then obtain u where "target = u @ ''@'' @ t" using h unfolding host_of_def by blast
    then have "split_once [CHR ''@''] (rev target) = Some (rev t, rev u)" using split_once_char [of "CHR ''@''" "rev t" "rev u"] n by simp
    then show ?thesis using split_once_char [OF r(2), of us] r(1) by simp
  qed
  moreover have "host_of target (rev hs)" using target r(2) by (auto simp: host_of_def)
  ultimately show ?thesis by auto
next
  case False
  then have "parse_ssh_target target = target"
    using split_once_char_None [of "CHR ''@''" "rev target"] by (simp add: parse_ssh_target_def rsplit_once_def)
  then show ?thesis using False by (auto simp: host_of_def)
qed

section \<open>Properties\<close>


lemma option_value_skipped: "first_positional [''-p'', ''2222'', ''-vi'', ''key'', ''git@host'', ''ls''] = Some ''host''"
  by code_simp

end
