(* ===== verification/Bind_Dialog.thy ===== *)
theory Bind_Dialog
  imports Dialogs Managed_Config Ssh_Target
begin

text \<open>
  The host-binding dialog: \<open>crates/sshwarden-ui/src/bind_hosts/slint_dialog.rs\<close>, as a state machine
  over the user's actions, and the two places that open it, \<open>run_bind_hosts_flow\<close> and
  \<open>dispatch_standalone_bind_hosts_dialog\<close> of \<open>src/bindings_cli.rs\<close>. What is shown (the list of
  hosts, the counts, the label, the message) is part of the state; drawing is not.
\<close>

section \<open>The request\<close>

record BindHostsKeyEntry =
  bk_cipher_id :: string
  bk_name :: string
  bk_hosts :: "string list"

record BindHostsRequest =
  br_keys :: "BindHostsKeyEntry list"
  initial_selection :: "string option"
  prefill_host :: "string option"
  approve_on_save :: bool

definition bind_entries :: "ManagedKey list \<Rightarrow> HostBindingsFile \<Rightarrow> BindHostsKeyEntry list" where
  "bind_entries keys b =
     map (\<lambda>k. \<lparr>bk_cipher_id = mk_cipher_id k, bk_name = mk_name k,
               bk_hosts = (case am_get (bindings b) (mk_cipher_id k) of Some e \<Rightarrow> hosts e | None \<Rightarrow> [])\<rparr>) keys"

section \<open>Checks\<close>

definition quick_validate_host_pattern :: "string \<Rightarrow> string option" where
  "quick_validate_host_pattern pattern =
     (let trimmed = trim pattern
      in if trimmed = [] then Some ''Host pattern is empty''
         else if list_ex is_whitespace (rust_chars trimmed) then Some ''Host pattern must not contain whitespace''
         else if list_ex is_control (rust_chars trimmed) then Some ''Host pattern must not contain control characters''
         else if list_ex (\<lambda>g. g \<in> {[CHR 0x22], [CHR 0x27], [CHR 0x5C], ''#''}) (rust_chars trimmed)
         then Some ''Host pattern contains a character unsafe in ssh_config''
         else None)"

definition host_pattern_warning :: "string \<Rightarrow> string option" where
  "host_pattern_warning pattern =
     (if trim pattern \<in> {''*'', ''!*''}
      then Some ''Warning: this pattern can match many hosts and may reintroduce MaxAuthTries failures.'' else None)"

lemma quick_validate_iff: "quick_validate_host_pattern h = None \<longleftrightarrow> validate_host_pattern h = Inr ()"
  by (simp add: quick_validate_host_pattern_def validate_host_pattern_def Let_def unsafe_char_def [abs_def])

section \<open>State\<close>

record bind_dialog =
  bd_ids :: "string list"
  bd_names :: "(string, string) amap"
  working :: "(string, string list) amap"
  touched :: "string list"
  bd_counts :: "nat list"
  shown_hosts :: "string list"
  selected :: int
  new_host_text :: string
  bd_error :: string
  key_label :: string
  bd_reply :: "BindHostsResult option"
  bd_visible :: bool

text \<open>\<open>key_ids.get(idx as usize)\<close>: a negative index is out of range.\<close>

definition key_at :: "bind_dialog \<Rightarrow> int \<Rightarrow> string option" where
  "key_at d idx = (if 0 \<le> idx \<and> nat idx < length (bd_ids d) then Some (bd_ids d ! nat idx) else None)"

definition refresh_hosts_for :: "int \<Rightarrow> bind_dialog \<Rightarrow> bind_dialog" where
  "refresh_hosts_for idx d =
     d\<lparr>shown_hosts := (case Option.bind (key_at d idx) (am_get (working d)) of Some hs \<Rightarrow> hs | None \<Rightarrow> [])\<rparr>"

definition update_selected_label :: "int \<Rightarrow> bind_dialog \<Rightarrow> bind_dialog" where
  "update_selected_label idx d =
     d\<lparr>key_label := (case Option.bind (key_at d idx) (am_get (bd_names d)) of Some n \<Rightarrow> ''Hosts for: '' @ n | None \<Rightarrow> ''(no key)'')\<rparr>"

definition update_key_count :: "int \<Rightarrow> nat \<Rightarrow> bind_dialog \<Rightarrow> bind_dialog" where
  "update_key_count idx n d =
     (if 0 \<le> idx \<and> nat idx < length (bd_counts d) then d\<lparr>bd_counts := (bd_counts d)[nat idx := n]\<rparr> else d)"

fun position :: "string \<Rightarrow> string list \<Rightarrow> nat option" where
  "position x [] = None"
| "position x (y # ys) = (if y = x then Some 0 else map_option Suc (position x ys))"

definition bind_dialog_open :: "BindHostsRequest \<Rightarrow> bind_dialog" where
  "bind_dialog_open r =
     (let ids = map bk_cipher_id (br_keys r);
          idx = (case initial_selection r of Some i \<Rightarrow> unwrap_or 0 (position i ids) | None \<Rightarrow> 0)
      in update_selected_label (int idx) (refresh_hosts_for (int idx)
           \<lparr>bd_ids = ids, bd_names = am_of_pairs (map (\<lambda>k. (bk_cipher_id k, bk_name k)) (br_keys r)),
            working = am_of_pairs (map (\<lambda>k. (bk_cipher_id k, bk_hosts k)) (br_keys r)), touched = [],
            bd_counts = map (\<lambda>k. length (bk_hosts k)) (br_keys r), shown_hosts = [], selected = int idx,
            new_host_text = unwrap_or [] (prefill_host r), bd_error = [], key_label = [], bd_reply = None, bd_visible = True\<rparr>))"

section \<open>Actions\<close>

datatype bind_event =
    Select_Key int
  | Edit_Host string
  | Add_Host
  | Remove_Host int
  | Press_Save
  | Press_Cancel_Bind
  | Close_Bind

definition on_key_selected :: "int \<Rightarrow> bind_dialog \<Rightarrow> bind_dialog" where
  "on_key_selected idx d =
     (update_selected_label idx (refresh_hosts_for idx (d\<lparr>selected := idx, new_host_text := []\<rparr>)))\<lparr>bd_error := []\<rparr>"

definition touch :: "string \<Rightarrow> bind_dialog \<Rightarrow> bind_dialog" where
  "touch i d = d\<lparr>touched := (if i \<in> set (touched d) then touched d else touched d @ [i])\<rparr>"

definition on_add_host :: "bind_dialog \<Rightarrow> bind_dialog" where
  "on_add_host d =
     (let trimmed = trim (new_host_text d)
      in case quick_validate_host_pattern trimmed of
           Some msg \<Rightarrow> d\<lparr>bd_error := msg\<rparr>
         | None \<Rightarrow>
             (case key_at d (selected d) of
                None \<Rightarrow> d
              | Some i \<Rightarrow>
                  if (case am_get (working d) i of Some hs \<Rightarrow> list_ex (\<lambda>h. eq_ignore_ascii_case h trimmed) hs | None \<Rightarrow> False)
                  then d\<lparr>bd_error := ''Host pattern already bound to this key''\<rparr>
                  else let d1 = touch i d;
                           d2 = d1\<lparr>working := am_insert i (unwrap_or [] (am_get (working d1) i) @ [trimmed]) (working d1),
                                   shown_hosts := shown_hosts d1 @ [trimmed]\<rparr>
                       in (update_key_count (selected d) (length (shown_hosts d2)) d2)
                            \<lparr>new_host_text := [], bd_error := unwrap_or [] (host_pattern_warning trimmed)\<rparr>))"

definition remove_at :: "nat \<Rightarrow> 'a list \<Rightarrow> 'a list" where
  "remove_at n xs = take n xs @ drop (Suc n) xs"

definition on_remove_host :: "int \<Rightarrow> bind_dialog \<Rightarrow> bind_dialog" where
  "on_remove_host host_idx d =
     (case key_at d (selected d) of
        None \<Rightarrow> d
      | Some i \<Rightarrow>
          if host_idx < 0 then d
          else (case am_get (working d) i of
                  None \<Rightarrow> d
                | Some hs \<Rightarrow>
                    if nat host_idx < length hs
                    then let d1 = touch i d;
                             d2 = d1\<lparr>working := am_insert i (remove_at (nat host_idx) hs) (working d1),
                                     shown_hosts := (if nat host_idx < length (shown_hosts d1) then remove_at (nat host_idx) (shown_hosts d1)
                                                     else shown_hosts d1)\<rparr>
                         in (update_key_count (selected d) (length (shown_hosts d2)) d2)\<lparr>bd_error := []\<rparr>
                    else d))"

definition save_payload :: "bind_dialog \<Rightarrow> (string \<times> string list) list" where
  "save_payload d = List.map_filter (\<lambda>i. map_option (Pair i) (am_get (working d) i)) (touched d)"

definition answer_bind :: "BindHostsResult \<Rightarrow> bind_dialog \<Rightarrow> bind_dialog" where
  "answer_bind r d = d\<lparr>bd_reply := reply_once (bd_reply d) r, bd_visible := False\<rparr>"

fun bind_step :: "bind_event \<Rightarrow> bind_dialog \<Rightarrow> bind_dialog" where
  "bind_step (Select_Key idx) d = (if bd_visible d then on_key_selected idx d else d)"
| "bind_step (Edit_Host s) d = (if bd_visible d then d\<lparr>new_host_text := s\<rparr> else d)"
| "bind_step Add_Host d = (if bd_visible d then on_add_host d else d)"
| "bind_step (Remove_Host n) d = (if bd_visible d then on_remove_host n d else d)"
| "bind_step Press_Save d = (if bd_visible d then answer_bind (Saved (save_payload d)) d else d)"
| "bind_step Press_Cancel_Bind d = (if bd_visible d then answer_bind Cancelled d else d)"
| "bind_step Close_Bind d = (if bd_visible d then answer_bind Cancelled d else d)"

definition show_bind_hosts_dialog :: "bool \<Rightarrow> bool \<Rightarrow> BindHostsRequest \<Rightarrow> bind_event list \<Rightarrow> bind_dialog" where
  "show_bind_hosts_dialog created shown r events =
     (if \<not> created \<or> \<not> shown then (bind_dialog_open r)\<lparr>bd_reply := Some Cancelled, bd_visible := False\<rparr>
      else fold bind_step events (bind_dialog_open r))"

section \<open>Opening the dialog\<close>

text \<open>
  \<open>user\<close> is what comes back for the request that is shown: the dialog's answer, a closed channel,
  or nothing for ten minutes; \<open>sent\<close> says whether the request reached the UI thread.
\<close>

definition load_or_default :: "ssh_env \<Rightarrow> ManagedKey list \<Rightarrow> ssh_files \<Rightarrow> HostBindingsFile \<times> ssh_files" where
  "load_or_default E keys fs =
     (case load_host_bindings_importing_managed E keys fs of
        (Inl _, fs') \<Rightarrow> (bindings_default, fs')
      | (Inr b, fs') \<Rightarrow> (b, fs'))"

definition run_bind_hosts_flow ::
  "ssh_env \<Rightarrow> ManagedKey list result \<Rightarrow> (u32 \<Rightarrow> process_entry option) \<Rightarrow> u32 \<Rightarrow> string option \<Rightarrow> bool \<Rightarrow>
     (BindHostsRequest \<Rightarrow> BindHostsResult received) \<Rightarrow> ManagedKey list result \<Rightarrow> ssh_files \<Rightarrow> bool \<times> ssh_files" where
  "run_bind_hosts_flow E cached ps pid initial_cipher_id sent user cached_later fs =
     (case cached of
        Inl _ \<Rightarrow> (False, fs)
      | Inr keys \<Rightarrow>
          (case load_or_default E keys fs of (b, fs1) \<Rightarrow>
             if bind_entries keys b = [] then (False, fs1)
             else if \<not> sent then (False, fs1)
             else (case user \<lparr>br_keys = bind_entries keys b, initial_selection = initial_cipher_id,
                              prefill_host = infer_ssh_target_from_pid ps pid, approve_on_save = True\<rparr> of
                     Answer (Saved payload) \<Rightarrow>
                       (case persist_bind_payload E cached_later payload fs1 of
                          (Inl _, fs2) \<Rightarrow> (False, fs2)
                        | (Inr _, fs2) \<Rightarrow> (True, fs2))
                   | _ \<Rightarrow> (False, fs1))))"

definition dispatch_standalone_bind_hosts_dialog ::
  "ssh_env \<Rightarrow> ManagedKey list result \<Rightarrow> bool \<Rightarrow> (BindHostsRequest \<Rightarrow> BindHostsResult received) \<Rightarrow> ManagedKey list result \<Rightarrow>
     ssh_files \<Rightarrow> (error + bool) \<times> ssh_files" where
  "dispatch_standalone_bind_hosts_dialog E cached sent user cached_later fs =
     (case cached of
        Inl e \<Rightarrow> (Inl (Message e), fs)
      | Inr keys \<Rightarrow>
          (case load_or_default E keys fs of (b, fs1) \<Rightarrow>
             if bind_entries keys b = []
             then (Inl (Message (''No SSH keys available '' @ [CHR 0xE2, CHR 0x80, CHR 0x94] @ '' run `sshwarden sync` or login first'')), fs1)
             else if \<not> sent then (Inl (Message ''UI request channel closed''), fs1)
             else (case user \<lparr>br_keys = bind_entries keys b, initial_selection = None, prefill_host = None, approve_on_save = False\<rparr> of
                     Answer (Saved payload) \<Rightarrow>
                       (case persist_bind_payload E cached_later payload fs1 of
                          (Inl e, fs2) \<Rightarrow> (Inl e, fs2)
                        | (Inr _, fs2) \<Rightarrow> (Inr True, fs2))
                   | Answer Cancelled \<Rightarrow> (Inr False, fs1)
                   | Channel_Closed \<Rightarrow> (Inl (Message ''Dialog response channel closed unexpectedly''), fs1)
                   | Timed_Out \<Rightarrow> (Inl (Message ''Host-binding dialog timed out after 600s''), fs1))))"

section \<open>What the dialog keeps true\<close>

definition hosts_at :: "bind_dialog \<Rightarrow> string \<Rightarrow> string list" where
  "hosts_at d i = unwrap_or [] (am_get (working d) i)"

definition displayed :: "bind_dialog \<Rightarrow> bool" where
  "displayed d \<longleftrightarrow>
     shown_hosts d = (case key_at d (selected d) of Some i \<Rightarrow> hosts_at d i | None \<Rightarrow> [])
     \<and> bd_counts d = map (\<lambda>i. length (hosts_at d i)) (bd_ids d)"

definition bind_ok :: "(string \<Rightarrow> string list) \<Rightarrow> bind_dialog \<Rightarrow> bool" where
  "bind_ok init d \<longleftrightarrow>
     distinct (bd_ids d) \<and> displayed d \<and> distinct (touched d) \<and> set (touched d) \<subseteq> set (bd_ids d)
     \<and> (\<forall>i \<in> set (bd_ids d). am_get (working d) i \<noteq> None)
     \<and> (\<forall>i \<in> set (bd_ids d) - set (touched d). hosts_at d i = init i)
     \<and> (\<forall>i \<in> set (bd_ids d). host_list_ok (hosts_at d i))
     \<and> (bd_visible d \<longleftrightarrow> bd_reply d = None)
     \<and> (\<forall>p. bd_reply d = Some (Saved p) \<longrightarrow> p = save_payload d)"

lemma key_at_Some: "key_at d idx = Some i \<Longrightarrow> 0 \<le> idx \<and> nat idx < length (bd_ids d) \<and> bd_ids d ! nat idx = i \<and> i \<in> set (bd_ids d)"
  by (auto simp: key_at_def split: if_splits)

lemma key_at_cong: "bd_ids d' = bd_ids d \<Longrightarrow> key_at d' idx = key_at d idx"
  by (simp add: key_at_def)

text \<open>Changing the hosts of the selected key, with the shown list and its count.\<close>

definition edited :: "string \<Rightarrow> string list \<Rightarrow> bind_dialog \<Rightarrow> bind_dialog" where
  "edited i hs d = update_key_count (selected d) (length hs) ((touch i d)\<lparr>working := am_insert i hs (working d), shown_hosts := hs\<rparr>)"

lemma counts_update:
  assumes "distinct ids" and "n < length ids" and "ids ! n = i" and "\<forall>j. j \<noteq> i \<longrightarrow> g j = f j"
  shows "(map f ids)[n := g i] = map g ids"
  using assms by (auto intro!: nth_equalityI simp: nth_list_update nth_eq_iff_index_eq)

lemma edited_ok:
  assumes "bind_ok init d" and "key_at d (selected d) = Some i" and "host_list_ok hs" and "bd_visible d"
  shows "bind_ok init ((edited i hs d)\<lparr>new_host_text := x, bd_error := y\<rparr>)" and "bind_ok init ((edited i hs d)\<lparr>bd_error := y\<rparr>)"
proof -
  note k = key_at_Some [OF assms(2)]
  have d: "distinct (bd_ids d)" "bd_counts d = map (\<lambda>i. length (hosts_at d i)) (bd_ids d)" "bd_reply d = None"
    using assms(1,4) by (auto simp: bind_ok_def displayed_def)
  have e: "working (edited i hs d) = am_insert i hs (working d)" "shown_hosts (edited i hs d) = hs" "bd_ids (edited i hs d) = bd_ids d"
    "selected (edited i hs d) = selected d" "bd_reply (edited i hs d) = None" "bd_visible (edited i hs d)"
    "touched (edited i hs d) = touched (touch i d)"
    "bd_counts (edited i hs d) = (bd_counts d)[nat (selected d) := length hs]"
    using k d assms(4) by (simp_all add: edited_def update_key_count_def touch_def)
  let ?g = "\<lambda>j. length (unwrap_or [] (am_get (am_insert i hs (working d)) j))"
  have c: "bd_counts (edited i hs d) = map ?g (bd_ids d)"
    using counts_update [of "bd_ids d" "nat (selected d)" i ?g "\<lambda>i. length (hosts_at d i)"] k d
    by (simp add: e hosts_at_def)
  show "bind_ok init ((edited i hs d)\<lparr>bd_error := y\<rparr>)" "bind_ok init ((edited i hs d)\<lparr>new_host_text := x, bd_error := y\<rparr>)"
    using assms k c e
    by (auto simp: bind_ok_def displayed_def key_at_def hosts_at_def touch_def)
qed

lemma host_list_ok_remove: "host_list_ok hs \<Longrightarrow> host_list_ok (remove_at n hs)"
proof -
  assume ok: "host_list_ok hs"
  have "set (remove_at n hs) \<subseteq> set hs" using set_take_subset set_drop_subset unfolding remove_at_def by fastforce
  moreover have "distinct (map lower (remove_at n hs))"
  proof -
    have "distinct (map lower (take n hs) @ map lower (drop n hs))" using ok by (simp add: host_list_ok_def flip: map_append)
    moreover have "drop (Suc n) hs = drop 1 (drop n hs)" by simp
    ultimately show ?thesis unfolding remove_at_def map_append
      by (cases "drop n hs") auto
  qed
  ultimately show ?thesis using ok by (auto simp: host_list_ok_def)
qed

lemma host_list_ok_add:
  assumes "host_list_ok hs" and "quick_validate_host_pattern (trim h) = None" and "\<not> list_ex (\<lambda>x. eq_ignore_ascii_case x (trim h)) hs"
  shows "host_list_ok (hs @ [trim h])"
proof -
  have "host_ok (trim h)" using assms(2) quick_validate_iff by (simp add: host_ok_def)
  moreover have "lower (trim h) \<notin> lower ` set hs" using assms(3) has_host_iff [of "trim h" hs] by (simp add: has_host_def)
  ultimately show ?thesis using assms(1) by (simp add: host_list_ok_def)
qed

lemma on_add_host_cases:
  assumes "bind_ok init d" and "bd_visible d"
  shows "(\<exists>m. on_add_host d = d\<lparr>bd_error := m\<rparr>)
    \<or> (\<exists>i x y. key_at d (selected d) = Some i \<and> host_list_ok (hosts_at d i @ [trim (new_host_text d)])
         \<and> on_add_host d = (edited i (hosts_at d i @ [trim (new_host_text d)]) d)\<lparr>new_host_text := x, bd_error := y\<rparr>)"
proof (cases "quick_validate_host_pattern (trim (new_host_text d))")
  case (Some m)
  then have "on_add_host d = d\<lparr>bd_error := m\<rparr>" by (simp add: on_add_host_def)
  then show ?thesis by blast
next
  case q: None
  show ?thesis
  proof (cases "key_at d (selected d)")
    case None
    then have "on_add_host d = d\<lparr>bd_error := bd_error d\<rparr>" using q by (simp add: on_add_host_def)
    then show ?thesis by blast
  next
    case (Some i)
    have i: "i \<in> set (bd_ids d)" using key_at_Some [OF Some] by simp
    obtain hs where hs: "am_get (working d) i = Some hs" using assms(1) i by (auto simp: bind_ok_def)
    have h: "hosts_at d i = hs" "shown_hosts d = hs" "host_list_ok hs"
      using assms(1) Some hs i by (auto simp: bind_ok_def displayed_def hosts_at_def)
    show ?thesis
    proof (cases "list_ex (\<lambda>h. eq_ignore_ascii_case h (trim (new_host_text d))) hs")
      case True
      then have "on_add_host d = d\<lparr>bd_error := ''Host pattern already bound to this key''\<rparr>"
        using q Some hs by (simp add: on_add_host_def)
      then show ?thesis by blast
    next
      case False
      then have "on_add_host d = (edited i (hs @ [trim (new_host_text d)]) d)
          \<lparr>new_host_text := [], bd_error := unwrap_or [] (host_pattern_warning (trim (new_host_text d)))\<rparr>"
        using q Some hs h by (simp add: on_add_host_def edited_def Let_def touch_def)
      then show ?thesis using Some h host_list_ok_add [OF h(3) q False] by blast
    qed
  qed
qed

lemma on_remove_host_cases:
  assumes "bind_ok init d" and "bd_visible d"
  shows "on_remove_host n d = d
    \<or> (\<exists>i y. key_at d (selected d) = Some i \<and> host_list_ok (remove_at (nat n) (hosts_at d i))
         \<and> on_remove_host n d = (edited i (remove_at (nat n) (hosts_at d i)) d)\<lparr>bd_error := y\<rparr>)"
proof (cases "key_at d (selected d)")
  case None
  then show ?thesis by (simp add: on_remove_host_def)
next
  case (Some i)
  have i: "i \<in> set (bd_ids d)" using key_at_Some [OF Some] by simp
  obtain hs where hs: "am_get (working d) i = Some hs" using assms(1) i by (auto simp: bind_ok_def)
  have h: "hosts_at d i = hs" "shown_hosts d = hs" "host_list_ok hs"
    using assms(1) Some hs i by (auto simp: bind_ok_def displayed_def hosts_at_def)
  show ?thesis
  proof (cases "n < 0 \<or> \<not> nat n < length hs")
    case True
    then show ?thesis using Some hs by (auto simp: on_remove_host_def)
  next
    case False
    then have "on_remove_host n d = (edited i (remove_at (nat n) hs) d)\<lparr>bd_error := []\<rparr>"
      using Some hs h by (simp add: on_remove_host_def edited_def Let_def touch_def)
    then show ?thesis using Some h host_list_ok_remove [OF h(3)] by blast
  qed
qed

lemma bind_ok_select: "bind_ok init d \<Longrightarrow> bd_visible d \<Longrightarrow> bind_ok init (on_key_selected idx d)"
  by (auto simp: bind_ok_def displayed_def on_key_selected_def update_selected_label_def refresh_hosts_for_def key_at_def hosts_at_def
      save_payload_def split: option.splits)

lemma bind_ok_answer: "bind_ok init d \<Longrightarrow> bd_visible d \<Longrightarrow> r = Cancelled \<or> r = Saved (save_payload d) \<Longrightarrow> bind_ok init (answer_bind r d)"
  by (auto simp: bind_ok_def displayed_def answer_bind_def key_at_def hosts_at_def save_payload_def)

lemma bind_ok_text: "bind_ok init d \<Longrightarrow> bind_ok init (d\<lparr>bd_error := m\<rparr>)" "bind_ok init d \<Longrightarrow> bind_ok init (d\<lparr>new_host_text := m\<rparr>)"
  by (auto simp: bind_ok_def displayed_def key_at_def hosts_at_def save_payload_def)

lemma bind_ok_step: "bind_ok init d \<Longrightarrow> bind_ok init (bind_step e d)"
proof (cases "bd_visible d")
  case False
  then show "bind_ok init d \<Longrightarrow> ?thesis" by (cases e) simp_all
next
  case v: True
  assume ok: "bind_ok init d"
  show ?thesis
  proof (cases e)
    case (Select_Key idx)
    then show ?thesis using bind_ok_select ok v by simp
  next
    case (Edit_Host s)
    then show ?thesis using bind_ok_text(2) ok v by simp
  next
    case Add_Host
    then show ?thesis using on_add_host_cases [OF ok v] bind_ok_text(1) [OF ok] edited_ok(1) [OF ok _ _ v] v by auto
  next
    case (Remove_Host n)
    then show ?thesis using on_remove_host_cases [OF ok v, of n] edited_ok(2) [OF ok _ _ v] ok v by auto
  next
    case Press_Save
    then show ?thesis using bind_ok_answer [OF ok v] v by simp
  next
    case Press_Cancel_Bind
    then show ?thesis using bind_ok_answer [OF ok v] v by simp
  next
    case Close_Bind
    then show ?thesis using bind_ok_answer [OF ok v] v by simp
  qed
qed

lemma bind_reply_kept: "bd_reply d = Some r \<Longrightarrow> bd_reply (bind_step e d) = Some r"
  by (cases e) (simp_all add: on_key_selected_def on_add_host_def on_remove_host_def answer_bind_def touch_def
      refresh_hosts_for_def update_selected_label_def update_key_count_def Let_def split: option.split)

interpretation bind_w: one_shot bind_step bd_reply "bind_ok init"
  by unfold_locales (rule bind_reply_kept bind_ok_step; assumption)+

lemma position_less: "position x ys = Some n \<Longrightarrow> n < length ys"
  by (induction ys arbitrary: n) (auto split: if_splits)

definition initial_hosts :: "BindHostsRequest \<Rightarrow> string \<Rightarrow> string list" where
  "initial_hosts r i = unwrap_or [] (map_of (map (\<lambda>k. (bk_cipher_id k, bk_hosts k)) (br_keys r)) i)"

lemma map_of_rev: "distinct (map fst ps) \<Longrightarrow> map_of (rev ps) = map_of ps"
  using map_of_inject_set [of "rev ps" ps] by (simp add: rev_map [symmetric])

lemma bind_ok_open:
  assumes "distinct (map bk_cipher_id (br_keys r))" and "\<forall>k \<in> set (br_keys r). host_list_ok (bk_hosts k)"
  shows "bind_ok (initial_hosts r) (bind_dialog_open r)"
proof -
  let ?ps = "map (\<lambda>k. (bk_cipher_id k, bk_hosts k)) (br_keys r)"
  let ?d = "bind_dialog_open r"
  have fst: "map fst ?ps = map bk_cipher_id (br_keys r)" by simp
  have w: "am_get (working ?d) i = map_of ?ps i" for i
  proof -
    have "map_of (rev ?ps) = map_of ?ps" by (rule map_of_rev) (simp only: fst assms(1))
    then show ?thesis
      by (simp add: bind_dialog_open_def Let_def update_selected_label_def refresh_hosts_for_def amap_simps)
  qed
  have m: "map_of ?ps (bk_cipher_id k) = Some (bk_hosts k)" if "k \<in> set (br_keys r)" for k
    using that assms(1) by (intro map_of_is_SomeI) (auto simp: comp_def)
  have ids: "bd_ids ?d = map bk_cipher_id (br_keys r)" "touched ?d = []" "bd_visible ?d" "bd_reply ?d = None"
    "bd_counts ?d = map (\<lambda>k. length (bk_hosts k)) (br_keys r)"
    "shown_hosts ?d = (case Option.bind (key_at ?d (selected ?d)) (am_get (working ?d)) of Some hs \<Rightarrow> hs | None \<Rightarrow> [])"
    by (simp_all add: bind_dialog_open_def Let_def update_selected_label_def refresh_hosts_for_def key_at_def)
  have "displayed ?d"
    using m by (auto simp: displayed_def ids hosts_at_def w split: option.split)
  then show ?thesis using assms m by (auto simp: bind_ok_def ids hosts_at_def initial_hosts_def w)
qed

lemma save_payload_get: "map_of (save_payload d) i = (if i \<in> set (touched d) then am_get (working d) i else None)"
proof -
  have "map_of (List.map_filter (\<lambda>i. map_option (Pair i) (f i)) xs) i = (if i \<in> set xs then f i else None)"
    for f :: "string \<Rightarrow> string list option" and xs
    by (induction xs) (auto simp: List.map_filter_simps split: option.splits)
  then show ?thesis by (simp add: save_payload_def)
qed

lemma save_payload_keys:
  assumes "distinct (touched d)"
  shows "distinct (map fst (save_payload d))" and "(i, hs) \<in> set (save_payload d) \<Longrightarrow> i \<in> set (touched d) \<and> am_get (working d) i = Some hs"
proof -
  have 1: "set (map fst (List.map_filter (\<lambda>i. map_option (Pair i) (f i)) xs)) \<subseteq> set xs" for f :: "string \<Rightarrow> string list option" and xs
    by (induction xs) (auto simp: List.map_filter_simps split: option.splits)
  have "distinct xs \<Longrightarrow> distinct (map fst (List.map_filter (\<lambda>i. map_option (Pair i) (f i)) xs))" for f :: "string \<Rightarrow> string list option" and xs
  proof (induction xs)
    case (Cons x xs)
    then show ?case using 1 [of f xs] by (auto simp: List.map_filter_simps split: option.splits)
  qed (simp add: List.map_filter_simps)
  then show "distinct (map fst (save_payload d))" using assms by (simp add: save_payload_def)
  show "(i, hs) \<in> set (save_payload d) \<Longrightarrow> i \<in> set (touched d) \<and> am_get (working d) i = Some hs"
    by (auto simp: save_payload_def List.map_filter_def)
qed

text \<open>Applying a list of well-formed host lists to the bindings file.\<close>

lemma set_all_result:
  assumes "wf_bindings b" and "distinct (map fst p)" and "\<forall>(i, hs) \<in> set p. host_list_ok hs"
  shows "\<exists>b'. set_all now p b = Inr ((), b') \<and> wf_bindings b'
    \<and> (\<forall>i. hosts_of b' i = (case map_of p i of Some hs \<Rightarrow> (if hs = [] then None else Some hs) | None \<Rightarrow> hosts_of b i))"
  using assms
proof (induction p arbitrary: b)
  case Nil
  then show ?case by simp
next
  case (Cons x p)
  obtain i hs where x: "x = (i, hs)" by (cases x)
  have ok: "host_list_ok hs" using Cons.prems(3) x by simp
  then have v: "validate_all hs = Inr ()" by (auto simp: validate_all_ok host_list_ok_def host_ok_def)
  define b1 where "b1 = b\<lparr>bindings := (if hs = [] then am_remove i (bindings b)
      else am_insert i \<lparr>hosts = dedup_hosts [] hs, updated_at = now\<rparr> (bindings b))\<rparr>"
  have 1: "set_hosts now i hs b = Inr b1" by (simp add: set_hosts_cases v b1_def)
  have wf: "wf_bindings b1" using set_hosts_spec [OF Cons.prems(1) 1] by simp
  have inv: "am_inv (bindings b)" using Cons.prems(1) by (simp add: wf_bindings_def)
  have h1: "hosts_of b1 j = (if j = i then (if hs = [] then None else Some hs) else hosts_of b j)" for j
    using dedup_id [of "[]" hs] ok inv by (simp add: hosts_of_def b1_def amap_simps)
  obtain b' where "set_all now p b1 = Inr ((), b')" "wf_bindings b'"
    and h: "\<forall>j. hosts_of b' j = (case map_of p j of Some hs \<Rightarrow> (if hs = [] then None else Some hs) | None \<Rightarrow> hosts_of b1 j)"
    using Cons.IH [OF wf] Cons.prems(2,3) x by auto
  moreover have "map_of p i = None" using Cons.prems(2) x by (simp add: map_of_eq_None_iff)
  ultimately show ?case using 1 x h1 by (auto split: option.split)
qed

lemma bind_step_ids: "bd_ids (bind_step e d) = bd_ids d"
  by (cases e)
     (auto simp: on_key_selected_def update_selected_label_def refresh_hosts_for_def on_add_host_def on_remove_host_def touch_def
       update_key_count_def answer_bind_def Let_def split: option.splits)

lemma bind_run_ids: "bd_ids (fold bind_step es d) = bd_ids d"
  by (induction es arbitrary: d) (simp_all add: bind_step_ids)

lemma initial_bind_entries:
  assumes "distinct (map mk_cipher_id keys)" and "br_keys r = bind_entries keys b" and "i \<in> mk_cipher_id ` set keys"
  shows "initial_hosts r i = unwrap_or [] (hosts_of b i)"
proof -
  obtain k where k: "k \<in> set keys" "i = mk_cipher_id k" using assms(3) by auto
  let ?ps = "map (\<lambda>k. (bk_cipher_id k, bk_hosts k)) (br_keys r)"
  have "(i, unwrap_or [] (hosts_of b i)) \<in> set ?ps"
    using k by (force simp: assms(2) bind_entries_def hosts_of_def split: option.split)
  moreover have "distinct (map fst ?ps)" using assms(1) by (simp add: assms(2) bind_entries_def comp_def)
  ultimately have "map_of ?ps i = Some (unwrap_or [] (hosts_of b i))" by (metis map_of_is_SomeI)
  then show ?thesis by (simp add: initial_hosts_def)
qed

section \<open>Properties\<close>

lemma wf_hosts_ok:
  assumes "wf_bindings b"
  shows "hosts_of b i \<noteq> Some []" and "host_list_ok (unwrap_or [] (hosts_of b i))"
  using assms by (auto simp: wf_bindings_def hosts_of_def host_list_ok_def split: option.splits)
    (cases "am_get (bindings b) i"; auto simp: host_list_ok_def)+

text \<open>Applying what a window saved, when it was opened on the hosts of the bindings.\<close>

lemma saved_hosts:
  assumes "wf_bindings b" and ok: "bind_ok init d" and init: "\<forall>i \<in> set (bd_ids d). init i = unwrap_or [] (hosts_of b i)"
    and "bd_reply d = Some (Saved p)"
  shows "\<exists>b'. set_all now p b = Inr ((), b') \<and> wf_bindings b'
    \<and> (\<forall>i. hosts_of b' i = (if i \<in> set (bd_ids d) then (if hosts_at d i = [] then None else Some (hosts_at d i))
         else hosts_of b i))"
proof -
  have p: "p = save_payload d" and t: "distinct (touched d)" "set (touched d) \<subseteq> set (bd_ids d)"
    using ok assms(4) by (auto simp: bind_ok_def)
  have hl: "\<forall>(i, hs) \<in> set p. host_list_ok hs"
    using save_payload_keys(2) [OF t(1)] t(2) ok by (fastforce simp: p bind_ok_def hosts_at_def)
  obtain b' where b': "set_all now p b = Inr ((), b')" "wf_bindings b'"
    and h: "\<forall>i. hosts_of b' i = (case map_of p i of Some hs \<Rightarrow> (if hs = [] then None else Some hs) | None \<Rightarrow> hosts_of b i)"
    using set_all_result [OF assms(1) _ hl, of now] save_payload_keys(1) [OF t(1)] p by auto
  have "hosts_of b' i = (if i \<in> set (bd_ids d) then (if hosts_at d i = [] then None else Some (hosts_at d i)) else hosts_of b i)" for i
  proof (cases "i \<in> set (touched d)")
    case True
    then have i: "i \<in> set (bd_ids d)" using t(2) by blast
    then obtain hs where "am_get (working d) i = Some hs" using ok unfolding bind_ok_def by blast
    then have "map_of p i = Some (hosts_at d i)" using True by (simp add: p save_payload_get hosts_at_def)
    then show ?thesis using h i by simp
  next
    case False
    then have "hosts_of b' i = hosts_of b i" using h by (simp add: p save_payload_get)
    moreover have "hosts_at d i = unwrap_or [] (hosts_of b i)" if "i \<in> set (bd_ids d)"
      using False that ok init by (auto simp: bind_ok_def)
    ultimately show ?thesis using wf_hosts_ok(1) [OF assms(1), of i] by (cases "hosts_of b i") auto
  qed
  then show ?thesis using b' by blast
qed

definition demo_bind_request :: BindHostsRequest where
  "demo_bind_request = \<lparr>br_keys = bind_entries demo_keys demo_bound, initial_selection = None, prefill_host = Some ''web.example'', approve_on_save = True\<rparr>"

text \<open>
  C34: The host-binding dialog saves what it shows. Whatever the user selects, types, adds and removes,
  the list on the screen is the working list of the selected key and every count is the length of its
  list; and when the user saves, applying the answer to the bindings file the dialog was opened on always
  works and leaves every offered key with exactly the hosts the dialog had for it, a key without hosts
  unbound, and every other key as it was.
\<close>

theorem bind_dialog_saves_what_it_shows:
  assumes "wf_bindings b" and "distinct (map mk_cipher_id keys)" and "br_keys r = bind_entries keys b"
    and "d = show_bind_hosts_dialog True True r events"
  shows "displayed d \<and> (\<forall>p. bd_reply d = Some (Saved p) \<longrightarrow> (\<exists>b'. set_all now p b = Inr ((), b') \<and> wf_bindings b'
    \<and> (\<forall>i. hosts_of b' i = (if i \<in> mk_cipher_id ` set keys then (if hosts_at d i = [] then None else Some (hosts_at d i))
         else hosts_of b i))))"
proof -
  have "distinct (map bk_cipher_id (br_keys r))" using assms(2) by (simp add: assms(3) bind_entries_def comp_def)
  moreover have "\<forall>k \<in> set (br_keys r). host_list_ok (bk_hosts k)"
    using wf_hosts_ok(2) [OF assms(1)]
    by (auto simp: assms(3) bind_entries_def hosts_of_def split: option.split) (metis unwrap_or_simps option.map)+
  ultimately have ok: "bind_ok (initial_hosts r) d"
    using bind_w.run_ok [OF bind_ok_open] by (simp add: assms(4) show_bind_hosts_dialog_def)
  have ids: "set (bd_ids d) = mk_cipher_id ` set keys"
    using assms(3) bind_run_ids [of events "bind_dialog_open r"]
    by (auto simp: assms(4) show_bind_hosts_dialog_def bind_dialog_open_def Let_def update_selected_label_def
        refresh_hosts_for_def bind_entries_def)
  have "\<forall>i \<in> set (bd_ids d). initial_hosts r i = unwrap_or [] (hosts_of b i)"
    using initial_bind_entries [OF assms(2,3)] ids by auto
  from saved_hosts [OF assms(1) ok this] have "\<exists>b'. set_all now p b = Inr ((), b') \<and> wf_bindings b'
      \<and> (\<forall>i. hosts_of b' i = (if i \<in> mk_cipher_id ` set keys then (if hosts_at d i = [] then None else Some (hosts_at d i))
           else hosts_of b i))" if "bd_reply d = Some (Saved p)" for p
    using that ids by auto
  then show ?thesis using ok by (auto simp: bind_ok_def)
qed

theorem bind_dialog_saves_what_it_shows_witness:
  "\<exists>b'. set_all 5 [(''id1'', [''a'', ''web.example''])] demo_bound = Inr ((), b')
     \<and> hosts_of b' ''id1'' = Some [''a'', ''web.example'']"
proof -
  let ?d = "show_bind_hosts_dialog True True demo_bind_request [Add_Host, Edit_Host ''A'', Add_Host, Press_Save]"
  have 1: "bd_reply ?d = Some (Saved [(''id1'', [''a'', ''web.example''])])" by code_simp
  have 2: "hosts_at ?d ''id1'' = [''a'', ''web.example'']" by code_simp
  have 3: "distinct (map mk_cipher_id demo_keys)" "''id1'' \<in> mk_cipher_id ` set demo_keys" by (simp_all add: demo_keys_def)
  have 4: "br_keys demo_bind_request = bind_entries demo_keys demo_bound" by (simp add: demo_bind_request_def)
  show ?thesis using bind_dialog_saves_what_it_shows [OF demo_bound_wf 3(1) 4 refl, of "[Add_Host, Edit_Host ''A'', Add_Host, Press_Save]" 5] 1 2 3(2)
    by auto
qed

end
