(* ===== verification/Status_Report.thy ===== *)
theory Status_Report
  imports Vault_Safety
begin

text \<open>
  \<open>src/status_report.rs\<close> and \<open>cmd_status\<close> of \<open>src/status.rs\<close>: the text view of a daemon's status
  response, the view of an agent that does not answer, and the keys the JSON view promises. What
  the PID file says to this process (\<open>running_agent_pid\<close>) is an argument.
\<close>

section \<open>Reading the JSON object\<close>

text \<open>
  A number of the model is a non-negative integer; \<open>serde_json\<close> keeps one as an integer up to
  64 bits and as a floating-point number beyond.
\<close>

fun json_bool :: "json \<Rightarrow> bool option" where
  "json_bool (JBool b) = Some b"
| "json_bool _ = None"

fun json_u64 :: "json \<Rightarrow> nat option" where
  "json_u64 (JNum n) = (if n < 2 ^ 64 then Some n else None)"
| "json_u64 _ = None"

definition json_flag :: "json \<Rightarrow> string \<Rightarrow> bool option" where
  "json_flag v k = Option.bind (json_get k v) json_bool"

definition json_count :: "json \<Rightarrow> string \<Rightarrow> nat" where
  "json_count v k = unwrap_or 0 (Option.bind (json_get k v) json_u64)"

definition DETAIL_JSON_KEYS :: "string list" where
  "DETAIL_JSON_KEYS =
     [''schema_version'', ''agent_running'', ''agent_pid'', ''authenticated'', ''locked'', ''key_count'',
      ''signable_key_count'', ''has_pin'', ''has_local_key_cache'', ''pending_sync'', ''data_dir'',
      ''shared_data_dir'', ''device_data_dir'', ''local_state_dir'', ''log_path'', ''device_id'',
      ''multi_device'', ''ssh_config_path_style'', ''notification'']"

definition missing_detail_keys :: "json \<Rightarrow> string list" where
  "missing_detail_keys details = filter (\<lambda>k. json_get k details = None) DETAIL_JSON_KEYS"

section \<open>The report\<close>

record StatusReport =
  sr_agent :: string
  sr_device :: string
  sr_vault :: string
  sr_bitwarden :: string
  sr_notify :: string
  sr_sync :: string
  sr_cache :: "string option"
  sr_keys :: string
  sr_log_path :: "string option"
  sr_next :: "string option"

record Facts =
  f_agent_running :: bool
  f_device_remembered :: bool
  f_locked :: "bool option"
  f_authenticated :: "bool option"
  f_pending_sync :: "bool option"
  f_has_pin :: bool
  f_key_count :: nat
  f_signable_key_count :: nat
  f_agent_pid :: "nat option"
  f_log_path :: "string option"
  f_notification :: json

definition json_health_label :: "json \<Rightarrow> bool \<Rightarrow> string" where
  "json_health_label n authenticated =
     notification_health_label
       \<lparr>nh_state = unwrap_or ''unknown'' (Option.bind (json_get ''state'' n) json_str),
        nh_connects = word_of_nat (json_count n ''connects''),
        nh_consecutive_failures = word_of_nat (json_count n ''consecutive_failures''),
        nh_next_retry_in_secs = Option.bind (json_get ''next_retry_in_secs'' n) json_u64,
        nh_last_error = Option.bind (json_get ''last_error'' n) json_str,
        nh_up_for_secs = Option.bind (json_get ''last_connected_age_secs'' n) json_u64,
        nh_authenticated = authenticated\<rparr>"

definition sync_row :: "Facts \<Rightarrow> string \<Rightarrow> string" where
  "sync_row f notify_state =
     (if f_pending_sync f = Some True then ''pending (loads on next unlock)''
      else if f_authenticated f = Some False then ''unknown (no Bitwarden session)''
      else case Option.bind (json_get ''last_sync_age_secs'' (f_notification f)) json_u64 of
             None \<Rightarrow> ''unknown (no successful sync yet)''
           | Some age \<Rightarrow>
               if notify_state = ''running'' then ''up to date (last sync '' @ humanize_age age @ '')''
               else ''last sync '' @ humanize_age age @ '' ago, notifications not delivering'')"

definition next_step :: "Facts \<Rightarrow> string option" where
  "next_step f =
     (if \<not> f_device_remembered f then Some ''sshwarden login      (set up this device)''
      else if f_locked f = Some True
      then Some (if f_has_pin f then ''sshwarden unlock      (PIN available, works offline)''
                 else ''sshwarden unlock'')
      else if f_key_count f = 0 then Some ''sshwarden sync       (no keys cached yet)''
      else if unwrap_or False (json_flag (f_notification f) ''stale_cache'')
      then Some ''sshwarden sync       (refresh the local key cache)''
      else None)"

definition em_dash :: string where "em_dash = [CHR 0xE2, CHR 0x80, CHR 0x94]"

definition keys_row :: "Facts \<Rightarrow> string" where
  "keys_row f =
     (let base = show_nat (f_key_count f) @ '' listed, '' @ show_nat (f_signable_key_count f) @ '' signable''
      in if f_signable_key_count f < f_key_count f
         then (case f_locked f of
                 Some True \<Rightarrow> base @ '' (signing resumes after unlock)''
               | Some False \<Rightarrow> base @ '' (no private material for some keys)''
               | None \<Rightarrow> base)
         else base)"

definition agent_row :: "nat option \<Rightarrow> Facts \<Rightarrow> string" where
  "agent_row local_pid f =
     (if f_agent_running f
      then (case (case f_agent_pid f of Some p \<Rightarrow> Some p | None \<Rightarrow> local_pid) of
              Some pid \<Rightarrow> ''running (pid '' @ show_nat pid @ '')''
            | None \<Rightarrow> ''running'')
      else ''not serving SSH '' @ em_dash @ '' run `sshwarden doctor`'')"

definition remembered_row :: "bool \<Rightarrow> string" where
  "remembered_row r = (if r then ''remembered'' else ''not set up'')"

definition build_report :: "nat option \<Rightarrow> Facts \<Rightarrow> StatusReport" where
  "build_report local_pid f =
     (let n = f_notification f;
          notify_state = unwrap_or ''unknown'' (Option.bind (json_get ''state'' n) json_str);
          cache = (if unwrap_or False (json_flag n ''stale_cache'')
                   then Some (''out of date '' @ em_dash @ '' refresh failed: '' @
                          unwrap_or ''unknown refresh error''
                            (Option.bind (json_get ''stale_cache_error'' n) json_str))
                   else None)
      in \<lparr>sr_agent = agent_row local_pid f,
          sr_device = remembered_row (f_device_remembered f),
          sr_vault = (case f_locked f of Some True \<Rightarrow> ''locked'' | Some False \<Rightarrow> ''unlocked''
                      | None \<Rightarrow> ''unknown (not reported by the daemon)''),
          sr_bitwarden = (case f_authenticated f of Some True \<Rightarrow> ''logged in''
                          | Some False \<Rightarrow> ''no session''
                          | None \<Rightarrow> ''unknown (not reported by the daemon)''),
          sr_notify = json_health_label n (unwrap_or False (f_authenticated f)),
          sr_sync = sync_row f notify_state,
          sr_cache = cache,
          sr_keys = keys_row f,
          sr_log_path = f_log_path f,
          sr_next = next_step f\<rparr>)"

definition facts_of :: "json \<Rightarrow> Facts" where
  "facts_of details =
     \<lparr>f_agent_running = unwrap_or False (json_flag details ''agent_running''),
      f_device_remembered = unwrap_or False (json_flag details ''has_local_key_cache''),
      f_locked = json_flag details ''locked'',
      f_authenticated = json_flag details ''authenticated'',
      f_pending_sync = json_flag details ''pending_sync'',
      f_has_pin = unwrap_or False (json_flag details ''has_pin''),
      f_key_count = json_count details ''key_count'',
      f_signable_key_count = json_count details ''signable_key_count'',
      f_agent_pid = Option.bind (Option.bind (json_get ''agent_pid'' details) json_u64)
                      (\<lambda>pid. if pid < 2 ^ 32 then Some pid else None),
      f_log_path = Option.bind (json_get ''log_path'' details) json_str,
      f_notification = unwrap_or JNull (json_get ''notification'' details)\<rparr>"

definition from_details :: "nat option \<Rightarrow> json \<Rightarrow> StatusReport" where
  "from_details local_pid details = build_report local_pid (facts_of details)"

definition offline_report :: "bool \<Rightarrow> string \<Rightarrow> StatusReport" where
  "offline_report device_remembered log_path =
     \<lparr>sr_agent = ''not running'', sr_device = remembered_row device_remembered,
      sr_vault = ''unknown'', sr_bitwarden = ''unknown'', sr_notify = ''unknown'', sr_sync = ''unknown'',
      sr_cache = None, sr_keys = ''unknown'', sr_log_path = Some log_path,
      sr_next = Some (if device_remembered
                      then ''sshwarden run        (start the agent, then `unlock`)''
                      else ''sshwarden login      (set up this device)'')\<rparr>"

definition LABEL_WIDTH :: nat where "LABEL_WIDTH = 11"

text \<open>The labels are ASCII, so that characters and bytes of the label column agree.\<close>

definition row :: "string \<Rightarrow> string \<Rightarrow> string" where
  "row label val =
     (let line = label @ '':''
      in line @ replicate (LABEL_WIDTH - length (rust_chars line)) CHR '' '' @ val)"

definition opt_row :: "string \<Rightarrow> string option \<Rightarrow> string list" where
  "opt_row label v = (case v of None \<Rightarrow> [] | Some x \<Rightarrow> [row label x])"

definition render_lines :: "StatusReport \<Rightarrow> string list" where
  "render_lines r =
     [row ''Agent'' (sr_agent r), row ''Device'' (sr_device r), row ''Vault'' (sr_vault r),
      row ''Bitwarden'' (sr_bitwarden r), row ''Notify'' (sr_notify r), row ''Sync'' (sr_sync r)]
     @ opt_row ''Cache'' (sr_cache r) @ [row ''Keys'' (sr_keys r)]
     @ opt_row ''Log'' (sr_log_path r) @ opt_row ''Next'' (sr_next r)"

definition offline_details_json :: "bool \<Rightarrow> string \<Rightarrow> string \<Rightarrow> json" where
  "offline_details_json device_remembered log_path local_state_dir = JObj
     [(''schema_version'', JNum STATUS_SCHEMA_VERSION),
      (''agent_running'', JBool False),
      (''agent_pid'', JNull),
      (''authenticated'', JNull),
      (''locked'', JNull),
      (''key_count'', JNull),
      (''signable_key_count'', JNull),
      (''has_pin'', JNull),
      (''has_local_key_cache'', JBool device_remembered),
      (''has_remembered_device'', JBool device_remembered),
      (''pending_sync'', JNull),
      (''data_dir'', JNull),
      (''shared_data_dir'', JNull),
      (''device_data_dir'', JNull),
      (''local_state_dir'', JStr local_state_dir),
      (''log_path'', JStr log_path),
      (''device_id'', JNull),
      (''multi_device'', JNull),
      (''ssh_config_path_style'', JNull),
      (''notification'', JObj (map (\<lambda>k. (k, JNull)) NOTIFICATION_JSON_KEYS))]"

section \<open>The command\<close>

text \<open>A response as \<open>serde_json\<close> writes it: absent options are left out.\<close>

definition json_field :: "string \<Rightarrow> ('a \<Rightarrow> json) \<Rightarrow> 'a option \<Rightarrow> (string \<times> json) list" where
  "json_field k f v = (case v of None \<Rightarrow> [] | Some x \<Rightarrow> [(k, f x)])"

definition response_to_json :: "ControlResponse \<Rightarrow> json" where
  "response_to_json r = JObj
     ([(''ok'', JBool (resp_ok r))] @ json_field ''message'' JStr (resp_message r)
      @ json_field ''error'' JStr (resp_error r) @ json_field ''locked'' JBool (resp_locked r)
      @ json_field ''key_count'' JNum (resp_key_count r) @ json_field ''details'' id (resp_details r))"

datatype printed = Pretty json | Lines "string list"

text \<open>
  \<open>cmd_status\<close>: the reply of the daemon to \<open>status-json\<close> or the failure to get one, the PID this
  process reads, and the two directories, which may be unresolved.
\<close>

definition cmd_status ::
  "ControlResponse result \<Rightarrow> nat option \<Rightarrow> bool \<Rightarrow> string result \<Rightarrow> string result \<Rightarrow> bool \<Rightarrow> printed" where
  "cmd_status reply local_pid device_remembered local_state_dir log_path as_json =
     (case reply of
        Inl _ \<Rightarrow>
          if as_json
          then Pretty (offline_details_json device_remembered (unresolved log_path) (unresolved local_state_dir))
          else Lines (render_lines (offline_report device_remembered (unresolved log_path)))
      | Inr r \<Rightarrow>
          let details = (case resp_details r of Some d \<Rightarrow> d | None \<Rightarrow> response_to_json r)
          in if as_json then Pretty details else Lines (render_lines (from_details local_pid details)))"

section \<open>Properties\<close>

text \<open>The lookups the report makes in a live response.\<close>

lemma details_lookup:
  "json_get ''agent_running'' (status_details W s) = Some (JBool (is_running (d_agent s)))"
  "json_get ''has_local_key_cache'' (status_details W s) = Some (JBool (local_key_cache_data s \<noteq> None))"
  "json_get ''locked'' (status_details W s) = Some (JBool (vault_locked s))"
  "json_get ''authenticated'' (status_details W s) = Some (JBool (api_client s \<noteq> None))"
  "json_get ''pending_sync'' (status_details W s) = Some (JBool (pending_sync s))"
  "json_get ''has_pin'' (status_details W s) = Some (JBool (case local_key_cache_data s of
     Some c \<Rightarrow> pin_encrypted (local_cache_key c) \<noteq> None | None \<Rightarrow> False))"
  "json_get ''key_count'' (status_details W s) = Some (JNum (key_count (d_agent s)))"
  "json_get ''signable_key_count'' (status_details W s) = Some (JNum (signable_key_count (d_agent s)))"
  "json_get ''agent_pid'' (status_details W s) = Some (JNum (sp_pid (w_paths W)))"
  "json_get ''log_path'' (status_details W s) = Some (JStr (unresolved (sp_log_path (w_paths W))))"
  "json_get ''notification'' (status_details W s) = Some (runtime_to_json (w_now W) (notification_state s))"
  by (simp_all add: status_details_def Let_def)

lemma runtime_lookup:
  "json_get ''state'' (runtime_to_json now n) = Some (JStr (state_name (rs_state n)))"
  "json_get ''connects'' (runtime_to_json now n) = Some (JNum (unat (rs_connects n)))"
  "json_get ''consecutive_failures'' (runtime_to_json now n) = Some (JNum (unat (rs_consecutive_failures n)))"
  "json_get ''next_retry_in_secs'' (runtime_to_json now n) = Some (json_opt JNum (rs_next_retry_in_secs n))"
  "json_get ''last_error'' (runtime_to_json now n) = Some (json_opt JStr (rs_last_error n))"
  "json_get ''last_connected_age_secs'' (runtime_to_json now n)
     = Some (json_opt JNum (age_secs now (rs_last_connected_at n)))"
  "json_get ''last_sync_age_secs'' (runtime_to_json now n) = Some (json_opt JNum (age_secs now (rs_last_sync_at n)))"
  "json_get ''stale_cache'' (runtime_to_json now n) = Some (JBool (rs_stale_cache n))"
  "json_get ''stale_cache_error'' (runtime_to_json now n) = Some (json_opt JStr (rs_stale_cache_error n))"
  by (simp_all add: runtime_to_json_def)

lemma json_opt_reads [simp]:
  "json_str (json_opt JStr v) = v"
  "(\<forall>n. v' = Some n \<longrightarrow> n < 2 ^ 64) \<Longrightarrow> json_u64 (json_opt JNum v') = v'"
  by (cases v; simp add: json_opt_def) (cases v'; simp add: json_opt_def)

lemma age_fits: "as_secs now < 2 ^ 64 \<Longrightarrow> age_secs now t = Some n \<Longrightarrow> n < 2 ^ 64"
  by (auto simp: age_secs_def as_secs_def intro: le_less_trans [OF div_le_mono])

lemma u64_fits: "unat (w :: u64) < 2 ^ 64"
  using unsigned_less [of w, where 'a = nat] by simp

lemma u32_fits: "unat (w :: u32) < 2 ^ 64"
  using unsigned_less [of w, where 'a = nat] by simp

text \<open>Numbers as the program holds them: 64-bit counts and clocks, a 32-bit process id.\<close>

definition status_fits :: "world \<Rightarrow> daemon \<Rightarrow> bool" where
  "status_fits W s \<longleftrightarrow> key_count (d_agent s) < 2 ^ 64 \<and> sp_pid (w_paths W) < 2 ^ 32
     \<and> as_secs (w_now W) < 2 ^ 64
     \<and> (\<forall>n. rs_next_retry_in_secs (notification_state s) = Some n \<longrightarrow> n < 2 ^ 64)"

lemma health_label_read_back:
  assumes "as_secs now < 2 ^ 64" "\<forall>k. rs_next_retry_in_secs n = Some k \<longrightarrow> k < 2 ^ 64"
  shows "json_health_label (runtime_to_json now n) a = health_label now a n"
proof -
  have "json_u64 (json_opt JNum (age_secs now (rs_last_connected_at n))) = age_secs now (rs_last_connected_at n)"
    using age_fits [OF assms(1)] by (intro json_opt_reads(2)) auto
  then show ?thesis
    using assms(2) u64_fits [of "rs_connects n"] u32_fits [of "rs_consecutive_failures n"]
    by (simp add: json_health_label_def health_label_def runtime_lookup json_count_def)
qed

lemma signable_le: "signable_key_count a \<le> key_count a"
  by (simp add: signable_key_count_def key_count_def)

lemma live_facts:
  assumes "status_fits W s"
  shows "facts_of (status_details W s) =
    \<lparr>f_agent_running = is_running (d_agent s), f_device_remembered = (local_key_cache_data s \<noteq> None),
     f_locked = Some (vault_locked s), f_authenticated = Some (api_client s \<noteq> None),
     f_pending_sync = Some (pending_sync s),
     f_has_pin = (case local_key_cache_data s of
                    Some c \<Rightarrow> pin_encrypted (local_cache_key c) \<noteq> None | None \<Rightarrow> False),
     f_key_count = key_count (d_agent s), f_signable_key_count = signable_key_count (d_agent s),
     f_agent_pid = Some (sp_pid (w_paths W)), f_log_path = Some (unresolved (sp_log_path (w_paths W))),
     f_notification = runtime_to_json (w_now W) (notification_state s)\<rparr>"
proof -
  have "signable_key_count (d_agent s) < 2 ^ 64" "sp_pid (w_paths W) < 2 ^ 64"
    using assms signable_le [of "d_agent s"] by (auto simp: status_fits_def)
  then show ?thesis
    using assms by (simp add: facts_of_def details_lookup json_flag_def json_count_def status_fits_def)
qed

lemma status_keys_complete:
  "missing_detail_keys (status_details W s) = []"
  "missing_detail_keys (offline_details_json remembered log dir) = []"
  by (simp_all add: missing_detail_keys_def DETAIL_JSON_KEYS_def status_details_def
      offline_details_json_def Let_def)

lemma sync_row_fresh:
  "starts_with ''up to date'' (sync_row f st) \<longleftrightarrow>
     f_pending_sync f \<noteq> Some True \<and> f_authenticated f \<noteq> Some False \<and> st = ''running''
     \<and> Option.bind (json_get ''last_sync_age_secs'' (f_notification f)) json_u64 \<noteq> None"
  by (simp add: sync_row_def split: option.split)

lemma connected_name [simp]: "state_name st = ''running'' \<longleftrightarrow> st = Connected"
  by (cases st) simp_all

text \<open>
  C35: the status view of a daemon that answers states the daemon's facts. Every key the JSON view
  promises is there, in a live response and in the one printed when nothing answers. The vault row
  says what the vault's state is, the notification row is the daemon's own health label, the sync row
  claims to be up to date exactly when there is a session, no sync is pending, a sync has succeeded
  and the hub connection is reported as delivering, the cache row appears exactly when the last refresh
  failed, with its error, and no next step is suggested exactly when the device is remembered,
  unlocked, has keys and its cache is current.
\<close>

theorem status_report_honest:
  fixes W :: world and s :: daemon and local_pid :: "nat option"
  assumes "status_fits W s"
  defines "r \<equiv> from_details local_pid (status_details W s)"
    and "n \<equiv> notification_state s"
  shows "missing_detail_keys (status_details W s) = []
    \<and> missing_detail_keys (offline_details_json remembered log dir) = []
    \<and> sr_vault r = (if vault_locked s then ''locked'' else ''unlocked'')
    \<and> sr_notify r = health_label (w_now W) (api_client s \<noteq> None) n
    \<and> (starts_with ''up to date'' (sr_sync r) \<longleftrightarrow>
         \<not> pending_sync s \<and> api_client s \<noteq> None \<and> rs_last_sync_at n \<noteq> None \<and> rs_state n = Connected)
    \<and> (sr_cache r \<noteq> None \<longleftrightarrow> rs_stale_cache n)
    \<and> (sr_next r = None \<longleftrightarrow>
         local_key_cache_data s \<noteq> None \<and> \<not> vault_locked s \<and> 0 < key_count (d_agent s) \<and> \<not> rs_stale_cache n)"
proof -
  note facts = live_facts [OF assms(1)]
  have f: "as_secs (w_now W) < 2 ^ 64" "\<forall>k. rs_next_retry_in_secs n = Some k \<longrightarrow> k < 2 ^ 64"
    using assms(1) by (auto simp: status_fits_def n_def)
  have age: "json_u64 (json_opt JNum (age_secs (w_now W) (rs_last_sync_at n))) = age_secs (w_now W) (rs_last_sync_at n)"
    using age_fits [OF f(1)] by (intro json_opt_reads(2)) auto
  have "starts_with ''up to date'' (sr_sync r) \<longleftrightarrow>
      \<not> pending_sync s \<and> api_client s \<noteq> None \<and> rs_last_sync_at n \<noteq> None \<and> rs_state n = Connected"
    using age by (auto simp: r_def from_details_def build_report_def facts sync_row_fresh runtime_lookup
        Let_def n_def age_secs_def)
  moreover have "sr_notify r = health_label (w_now W) (api_client s \<noteq> None) n"
    using health_label_read_back [OF f] by (simp add: r_def from_details_def build_report_def facts Let_def n_def)
  moreover have "sr_next r = None \<longleftrightarrow>
      local_key_cache_data s \<noteq> None \<and> \<not> vault_locked s \<and> 0 < key_count (d_agent s) \<and> \<not> rs_stale_cache n"
    by (simp add: r_def from_details_def build_report_def facts Let_def n_def next_step_def json_flag_def runtime_lookup)
  moreover have "sr_vault r = (if vault_locked s then ''locked'' else ''unlocked'')"
    and "sr_cache r \<noteq> None \<longleftrightarrow> rs_stale_cache n"
    by (simp_all add: r_def from_details_def build_report_def facts Let_def n_def json_flag_def runtime_lookup)
  ultimately show ?thesis using status_keys_complete by blast
qed

lemma demo_status_fits: "status_fits demo_world demo_daemon"
proof -
  have "key_count (d_agent demo_daemon) = 1"
    by (simp add: demo_daemon_def demo_key_def demo_defs set_keys_def load_key_def key_count_def parse_key_safe_def Let_def)
  then show ?thesis
    by (simp add: status_fits_def demo_world_def demo_daemon_def runtime_default_def as_secs_def)
qed

theorem status_report_honest_witness:
  "sr_vault (from_details None (status_details demo_world demo_daemon)) = ''unlocked''"
  using status_report_honest [OF demo_status_fits, of False "[]" "[]" None]
  by (simp add: demo_daemon_def)

text \<open>
  A response without the facts: vault, session, connection and sync are unknown, but the device row
  says that the device is not set up and the keys row counts none.
\<close>

lemma show_zero: "show_nat 0 = ''0''" by code_simp

lemma empty_response_claims:
  "from_details None (JObj []) =
     \<lparr>sr_agent = ''not serving SSH '' @ em_dash @ '' run `sshwarden doctor`'', sr_device = ''not set up'',
      sr_vault = ''unknown (not reported by the daemon)'',
      sr_bitwarden = ''unknown (not reported by the daemon)'', sr_notify = ''unknown'',
      sr_sync = ''unknown (no successful sync yet)'', sr_cache = None,
      sr_keys = ''0 listed, 0 signable'', sr_log_path = None,
      sr_next = Some ''sshwarden login      (set up this device)''\<rparr>"
  by (simp add: from_details_def build_report_def facts_of_def Let_def json_flag_def json_count_def
      json_health_label_def notification_health_label_def agent_row_def remembered_row_def sync_row_def
      keys_row_def next_step_def show_zero)

text \<open>Every row's value starts in the same column.\<close>

definition plain_label :: "string \<Rightarrow> bool" where
  "plain_label l \<longleftrightarrow> list_all (\<lambda>c. \<not> is_cont c) l \<and> length l < 11"

lemma row_value:
  assumes "plain_label label"
  shows "drop LABEL_WIDTH (row label val) = val"
proof -
  have chars: "length (rust_chars l) = length l" if "list_all (\<lambda>c. \<not> is_cont c) l" for l
    using that
  proof (induction l)
    case (Cons c l)
    then have "rust_chars (c # l) = [c] # rust_chars l"
      by (intro rust_chars_Cons_nocont) (cases l; simp)
    then show ?case using Cons by simp
  qed simp
  let ?line = "label @ '':''"
  have "length (rust_chars ?line) = length ?line"
    using assms by (intro chars) (simp add: plain_label_def is_cont_def)
  then have "length (?line @ replicate (LABEL_WIDTH - length (rust_chars ?line)) CHR '' '') = LABEL_WIDTH"
    using assms by (simp add: plain_label_def LABEL_WIDTH_def)
  moreover have "row label val = (?line @ replicate (LABEL_WIDTH - length (rust_chars ?line)) CHR '' '') @ val"
    by (simp add: row_def Let_def)
  ultimately show ?thesis by (metis append_eq_conv_conj)
qed

lemma plain_labels:
  "list_all plain_label [''Agent'', ''Device'', ''Vault'', ''Bitwarden'', ''Notify'', ''Sync'', ''Cache'', ''Keys'', ''Log'', ''Next'']"
  by (simp add: plain_label_def is_cont_def)

lemma render_lines_aligned:
  "map (drop LABEL_WIDTH) (render_lines r) =
     [sr_agent r, sr_device r, sr_vault r, sr_bitwarden r, sr_notify r, sr_sync r]
     @ (case sr_cache r of None \<Rightarrow> [] | Some c \<Rightarrow> [c]) @ [sr_keys r]
     @ (case sr_log_path r of None \<Rightarrow> [] | Some l \<Rightarrow> [l])
     @ (case sr_next r of None \<Rightarrow> [] | Some x \<Rightarrow> [x])"
  using plain_labels by (simp add: render_lines_def opt_row_def row_value split: option.split)

end
