(* ===== verification/Agent_Commands.thy ===== *)
theory Agent_Commands
  imports Status_Report Pid_File
begin

text \<open>
  The client side of the control channel: \<open>send_control_command\<close> of
  \<open>crates/sshwarden-agent/src/control.rs\<close>, and the commands of \<open>src/control.rs\<close> that talk to a
  running agent (\<open>cmd_control\<close>, \<open>contact_daemon\<close>, \<open>cmd_stop\<close>, \<open>cmd_restart\<close>). The socket, the
  JSON texts (serde) and the successive answers of the PID file are arguments.
\<close>

section \<open>One exchange over the channel\<close>

text \<open>
  The two kinds of failure a caller tells apart: \<open>ControlUnreachable\<close>, when nothing listens, and any
  other error. What the peer writes back up to the first line feed, or to the end of the stream,
  depends on the bytes it was sent.
\<close>

datatype send_error = Unreachable string | Other_Error string

fun error_text :: "send_error \<Rightarrow> string" where
  "error_text (Unreachable e) = ''Failed to connect to SSHWarden daemon (is it running?): '' @ e"
| "error_text (Other_Error e) = e"

record channel =
  ch_path :: "string result"
  ch_connect :: "string \<Rightarrow> unit result"
  ch_encode :: "string \<Rightarrow> string result"
  ch_write :: "bytes \<Rightarrow> unit result"
  ch_shutdown :: "unit result"
  ch_reply :: "bytes \<Rightarrow> bytes result"
  ch_decode :: "string \<Rightarrow> ControlResponse result"

definition newline :: string where "newline = [CHR 0x0A]"

definition send_control_command :: "channel \<Rightarrow> string \<Rightarrow> send_error + ControlResponse" where
  "send_control_command ch cmd =
     (case ch_path ch of
        Inl e \<Rightarrow> Inl (Other_Error e)
      | Inr path \<Rightarrow>
          (case ch_connect ch path of
             Inl e \<Rightarrow> Inl (Unreachable (path @ '': '' @ e))
           | Inr _ \<Rightarrow>
               (case ch_encode ch cmd of
                  Inl e \<Rightarrow> Inl (Other_Error e)
                | Inr cmd_json \<Rightarrow>
                    let sent = as_bytes (cmd_json @ newline)
                    in case bind_res (ch_write ch sent) (\<lambda>_. bind_res (ch_shutdown ch) (\<lambda>_.
                              bind_res (ch_reply ch sent) (\<lambda>raw.
                              bind_res (ok_or ''stream did not contain valid UTF-8'' (from_utf8 (first_line raw)))
                                (\<lambda>line. ch_decode ch (trim line))))) of
                         Inl e \<Rightarrow> Inl (Other_Error e)
                       | Inr r \<Rightarrow> Inr r)))"

text \<open>The bytes the daemon writes for a response; one that cannot be encoded leaves an empty line.\<close>

definition write_control_response :: "(ControlResponse \<Rightarrow> string result) \<Rightarrow> ControlResponse \<Rightarrow> bytes" where
  "write_control_response encode_response r =
     as_bytes (unwrap_or [] (res_ok (encode_response r)) @ newline)"

text \<open>What the connection's task of the server writes before it closes the stream.\<close>

definition connection_output ::
  "(string \<Rightarrow> string result) \<Rightarrow> (ControlResponse \<Rightarrow> string result) \<Rightarrow> main_loop \<Rightarrow> u32 \<Rightarrow> u32 result \<Rightarrow>
     bytes \<Rightarrow> bytes" where
  "connection_output parse_command encode_response tx our_uid peer received =
     (case serve_control_connection parse_command tx our_uid peer received of
        None \<Rightarrow> []
      | Some r \<Rightarrow> write_control_response encode_response r)"

section \<open>Contacting the agent\<close>

datatype DaemonContact = Replied ControlResponse | Unconfirmed string | NotRunning

text \<open>\<open>timely\<close> says whether the exchange ended within the five seconds.\<close>

definition contact_daemon :: "bool \<Rightarrow> channel \<Rightarrow> string \<Rightarrow> DaemonContact" where
  "contact_daemon timely ch cmd =
     (if \<not> timely then Unconfirmed ''no reply within 5s''
      else case send_control_command ch cmd of
             Inr resp \<Rightarrow> Replied resp
           | Inl (Unreachable _) \<Rightarrow> NotRunning
           | Inl (Other_Error e) \<Rightarrow> Unconfirmed e)"

text \<open>Lines on the two streams, and how the process ends.\<close>

datatype term_line = Out string | Err string

datatype ending = Returns | Fails string | Exits nat

text \<open>
  The wait loop: up to fifty looks at the PID file, a tenth of a second apart; \<open>running k\<close> is what the
  \<open>k\<close>-th look says.
\<close>

definition WAIT_LOOKS :: nat where "WAIT_LOOKS = 50"

definition first_gone :: "(nat \<Rightarrow> bool) \<Rightarrow> nat option" where
  "first_gone running = find (\<lambda>k. \<not> running k) [0..<WAIT_LOOKS]"

definition wait_stopped :: "(nat \<Rightarrow> bool) \<Rightarrow> term_line list \<Rightarrow> term_line list \<times> ending" where
  "wait_stopped running out =
     (case first_gone running of
        Some _ \<Rightarrow> (out @ [Out ''Agent stopped.''], Returns)
      | None \<Rightarrow> (out @ [Err ''Agent acknowledged stop but is still running after 5s.''], Exits 1))"

definition cmd_stop :: "DaemonContact \<Rightarrow> (nat \<Rightarrow> bool) \<Rightarrow> term_line list \<times> ending" where
  "cmd_stop contact running =
     (case contact of
        Replied resp \<Rightarrow>
          if resp_ok resp
          then wait_stopped running [Out (unwrap_or ''Stopping agent'' (resp_message resp))]
          else ([Err (''Stop failed: '' @ unwrap_or ''unknown error'' (resp_error resp))], Exits 1)
      | NotRunning \<Rightarrow> ([Out ''No running SSHWarden agent.''], Returns)
      | Unconfirmed reason \<Rightarrow>
          wait_stopped running
            [Err (''No stop confirmation from the agent ('' @ reason @ ''); confirming it exited'' @ ellipsis)])"

text \<open>
  \<open>cmd_restart\<close>; the last component says whether \<open>spawn_background_agent\<close> was called. The path of the
  executable may not be found, and spawning may fail.
\<close>

definition start_replacement ::
  "string result \<Rightarrow> (string \<Rightarrow> unit result) \<Rightarrow> term_line list \<Rightarrow> term_line list \<times> ending \<times> bool" where
  "start_replacement exe spawn_agent out =
     (case context_msg ''Failed to find the SSHWarden executable'' exe of
        Inl e \<Rightarrow> (out, Fails e, False)
      | Inr path \<Rightarrow>
          (case spawn_agent path of
             Inl e \<Rightarrow> (out, Fails e, True)
           | Inr _ \<Rightarrow> (out @ [Out ''Started agent in the background.''], Returns, True)))"

definition cmd_restart ::
  "DaemonContact \<Rightarrow> (nat \<Rightarrow> bool) \<Rightarrow> string result \<Rightarrow> (string \<Rightarrow> unit result) \<Rightarrow>
     term_line list \<times> ending \<times> bool" where
  "cmd_restart contact running exe spawn_agent =
     (if contact \<noteq> NotRunning
      then (case first_gone running of
              None \<Rightarrow> ([Err ''Existing agent did not stop within 5s; not restarting.''], Exits 1, False)
            | Some _ \<Rightarrow> start_replacement exe spawn_agent [Out ''Stopped existing agent.''])
      else start_replacement exe spawn_agent [])"

section \<open>Other commands\<close>

text \<open>
  \<open>cmd_control\<close>: the answer to a command on the terminal and in the exit code. \<open>show_json\<close> and
  \<open>pretty\<close> are the two texts of a JSON value.
\<close>

fun bool_text :: "bool \<Rightarrow> string" where
  "bool_text True = ''true''"
| "bool_text False = ''false''"

definition detail_line :: "(json \<Rightarrow> string) \<Rightarrow> string \<Rightarrow> string \<Rightarrow> json \<Rightarrow> term_line list" where
  "detail_line show_json label k details =
     (case json_get k details of None \<Rightarrow> [] | Some v \<Rightarrow> [Out (''  '' @ label @ '': '' @ show_json v)])"

definition response_lines :: "(json \<Rightarrow> string) \<Rightarrow> ControlResponse \<Rightarrow> term_line list" where
  "response_lines show_json r =
     (case resp_message r of None \<Rightarrow> [] | Some m \<Rightarrow> [Out m])
     @ (case resp_locked r of None \<Rightarrow> [] | Some l \<Rightarrow> [Out (''  Locked: '' @ bool_text l)])
     @ (case resp_key_count r of None \<Rightarrow> [] | Some n \<Rightarrow> [Out (''  Keys: '' @ show_nat n)])
     @ (case resp_details r of
          None \<Rightarrow> []
        | Some d \<Rightarrow> detail_line show_json ''Notification'' ''notification'' d
                    @ detail_line show_json ''Pending sync'' ''pending_sync'' d
                    @ detail_line show_json ''Authenticated'' ''authenticated'' d)"

definition cmd_control ::
  "(json \<Rightarrow> string) \<Rightarrow> (json \<Rightarrow> string result) \<Rightarrow>
     send_error + ControlResponse \<Rightarrow> string \<Rightarrow> term_line list \<times> ending" where
  "cmd_control show_json pretty reply cmd =
     (case reply of
        Inl e \<Rightarrow>
          ([Err (''Could not connect to SSHWarden agent: '' @ error_text e),
            Err ''Is the agent running? Start it with: sshwarden run''], Exits 2)
      | Inr r \<Rightarrow>
          if \<not> resp_ok r
          then ([Err (''Error: '' @ unwrap_or ''Unknown error'' (resp_error r))], Exits 1)
          else if cmd = ''status-json''
          then (case pretty (unwrap_or (response_to_json r) (resp_details r)) of
                  Inl e \<Rightarrow> ([], Fails e)
                | Inr text \<Rightarrow> ([Out text], Returns))
          else (response_lines show_json r, Returns))"

section \<open>Lines on the channel\<close>

lemma utf8_valid_newline: "utf8_valid bs \<Longrightarrow> utf8_valid (bs @ [10])"
proof (induction bs rule: utf8_valid.induct)
  case (2 a bs)
  note u = utf8_valid.simps(2)
  show ?case
  proof (cases "unat a < 128")
    case True
    with 2(1,7) show ?thesis by (simp add: u [of a])
  next
    case a: False
    then obtain b cs where bs: "bs = b # cs" using 2(7) by (cases bs) simp_all
    show ?thesis
    proof (cases "in_range 194 223 a")
      case True
      with 2(2) [OF a bs] 2(7) a show ?thesis by (simp add: u [of a] bs del: u)
    next
      case b: False
      then obtain c ds where cs: "cs = c # ds" using 2(7) a bs by (cases cs) (simp_all add: u [of a] del: u)
      show ?thesis
      proof (cases "unat a = 224 \<or> unat a = 237 \<or> in_range 225 239 a")
        case True
        with 2(3-5) [OF a bs b cs] 2(7) a b show ?thesis
          by (simp add: u [of a] bs cs del: u split: if_splits)
      next
        case c: False
        then obtain d es where ds: "ds = d # es" using 2(7) a bs b cs by (cases ds) (simp_all add: u [of a] del: u)
        with 2(6) [OF a bs b cs _ _ _ ds] 2(7) a b c show ?thesis
          by (simp add: u [of a] bs cs ds del: u split: if_splits)
      qed
    qed
  qed
qed simp

lemma first_line_whole: "10 \<notin> set bs \<Longrightarrow> first_line (bs @ 10 # rest) = bs @ [10]"
  by (induction bs) auto

lemma trim_newline:
  assumes "trim s = s"
  shows "trim (s @ newline) = s"
proof -
  have ws: "is_whitespace newline" by (simp add: newline_def is_whitespace_def unicode_spaces_def)
  have "\<not> is_cont CHR 0x0A" by (simp add: is_cont_def)
  then have chars: "rust_chars (s @ newline) = rust_chars s @ [newline]"
    using rust_chars_append [of newline s] rust_chars_Cons_nocont [of "[]" "CHR 0x0A"] by (simp add: newline_def)
  show ?thesis
  proof (cases "s = []")
    case True
    then show ?thesis using chars ws by (simp add: trim_def)
  next
    case False
    then have "rust_chars s \<noteq> []" by (metis concat.simps(1) concat_rust_chars)
    with False have h: "\<not> is_whitespace (hd (rust_chars s))" "\<not> is_whitespace (last (rust_chars s))" "rust_chars s \<noteq> []"
      using trim_ends [of s] assms by simp_all
    then have "dropWhile is_whitespace (rust_chars s @ [newline]) = rust_chars s @ [newline]"
      by (cases "rust_chars s") auto
    moreover have "dropWhile is_whitespace (newline # rev (rust_chars s)) = rev (rust_chars s)"
      using h ws by (cases "rust_chars s" rule: rev_cases) auto
    ultimately show ?thesis using chars by (simp add: trim_def)
  qed
qed

text \<open>
  What the documentation of \<open>serde_json\<close> promises of the text of a value: it is on one line, in
  UTF-8, with no white space around it, and it is read back.
\<close>

definition line_text :: "('a \<Rightarrow> string result) \<Rightarrow> (string \<Rightarrow> 'a result) \<Rightarrow> 'a \<Rightarrow> string \<Rightarrow> bool" where
  "line_text encode decode x j \<longleftrightarrow> encode x = Inr j \<and> decode j = Inr x \<and> trim j = j
     \<and> 10 \<notin> set (as_bytes j) \<and> utf8_valid (as_bytes j)"

lemma read_line_text:
  assumes "line_text encode decode x j"
  shows "from_utf8 (first_line (as_bytes (j @ newline))) = Some (j @ newline)" and "trim (j @ newline) = j"
proof -
  have nl: "as_bytes newline = [10]" by (simp add: newline_def as_bytes_def)
  then have "utf8_valid (as_bytes (j @ newline))"
    using assms utf8_valid_newline by (simp add: line_text_def)
  then show "from_utf8 (first_line (as_bytes (j @ newline))) = Some (j @ newline)"
    using assms nl first_line_whole [of "as_bytes j" "[]"] from_utf8_as_bytes [of "j @ newline"]
    by (simp add: line_text_def)
  show "trim (j @ newline) = j" using assms trim_newline by (simp add: line_text_def)
qed

text \<open>A client connected to the control server of this daemon, run by the same user.\<close>

definition connected_to ::
  "(string \<Rightarrow> string result) \<Rightarrow> (ControlResponse \<Rightarrow> string result) \<Rightarrow> main_loop \<Rightarrow> u32 \<Rightarrow> channel \<Rightarrow> bool" where
  "connected_to parse_command encode_response tx uid ch \<longleftrightarrow>
     is_ok (ch_path ch) \<and> (\<forall>p. is_ok (ch_connect ch p)) \<and> (\<forall>bs. is_ok (ch_write ch bs)) \<and> is_ok (ch_shutdown ch)
     \<and> ch_reply ch = (\<lambda>sent. Inr (connection_output parse_command encode_response tx uid (Inr uid) sent))"

text \<open>
  C36: the answer the client gets is the answer the daemon gave. When the command's JSON line fits
  the server's limit of 64 KiB, sending the text of any action over the channel, PINs and passwords
  included, hands exactly that action to the daemon and returns its response unchanged.
\<close>

theorem control_exchange:
  assumes "connected_to parse enc (Replies handler) uid ch"
    and "line_text (ch_encode ch) parse (command_of_action a) j" and "length j < MAX_CONTROL_LINE_BYTES"
    and "line_text enc (ch_decode ch) (handler a) k"
  shows "send_control_command ch (command_of_action a) = Inr (handler a)"
proof -
  have "r = Inr ()" if "is_ok r" for r :: "unit result" using that by (cases r) (simp_all add: is_ok_def)
  then have c: "ch_connect ch p = Inr ()" "ch_shutdown ch = Inr ()" "ch_write ch bs = Inr ()" for p bs
    using assms(1) by (simp_all add: connected_to_def)
  obtain path where path: "ch_path ch = Inr path"
    using assms(1) by (cases "ch_path ch") (auto simp: connected_to_def is_ok_def)
  note cmd = read_line_text [OF assms(2)] and rsp = read_line_text [OF assms(4)]
  have e: "ch_encode ch (command_of_action a) = Inr j" "parse j = Inr (command_of_action a)"
      "enc (handler a) = Inr k" "ch_decode ch k = Inr (handler a)"
    using assms(2,4) by (simp_all add: line_text_def)
  let ?sent = "as_bytes (j @ newline)"
  have "take MAX_CONTROL_LINE_BYTES ?sent = ?sent" using assms(3) by (simp add: newline_def)
  moreover have "first_line ?sent \<noteq> []"
    using cmd(1) by (auto simp: from_utf8_def of_bytes_def newline_def split: if_splits)
  ultimately have "serve_control_connection parse (Replies handler) uid (Inr uid) ?sent = Some (handler a)"
    using cmd e(2) action_of_command_of_action [of a]
    by (simp add: serve_control_connection_def handle_control_line_def dispatch_control_command_def Let_def
        del: as_bytes_append)
  then have "ch_reply ch ?sent = Inr (as_bytes (k @ newline))"
    using assms(1) e(3) by (simp add: connected_to_def connection_output_def write_control_response_def
        res_ok_def unwrap_or_def del: as_bytes_append)
  then show ?thesis
    using c path e rsp by (simp add: send_control_command_def Let_def ok_or_def del: as_bytes_append)
qed

definition demo_parse :: "string \<Rightarrow> string result" where
  "demo_parse t = (if t = ''{lock}'' then Inr ''lock'' else Inl ''bad'')"

definition demo_encode_response :: "ControlResponse \<Rightarrow> string result" where
  "demo_encode_response r = (if r = ctl_ok ''Vault locked'' then Inr ''{ok}'' else Inl ''unsupported'')"

definition demo_channel :: channel where
  "demo_channel = \<lparr>ch_path = Inr ''/run/control.sock'', ch_connect = (\<lambda>_. Inr ()),
     ch_encode = (\<lambda>cmd. if cmd = ''lock'' then Inr ''{lock}'' else Inl ''unsupported''),
     ch_write = (\<lambda>_. Inr ()), ch_shutdown = Inr (),
     ch_reply = (\<lambda>sent. Inr (connection_output demo_parse demo_encode_response
                               (Replies (\<lambda>_. ctl_ok ''Vault locked'')) 1000 (Inr 1000) sent)),
     ch_decode = (\<lambda>t. if t = ''{ok}'' then Inr (ctl_ok ''Vault locked'') else Inl ''bad'')\<rparr>"

theorem control_exchange_witness:
  "send_control_command demo_channel ''lock'' = Inr (ctl_ok ''Vault locked'')"
proof -
  have t: "trim ''{lock}'' = ''{lock}''" "trim ''{ok}'' = ''{ok}''" by code_simp+
  have v: "10 \<notin> set (as_bytes ''{lock}'')" "utf8_valid (as_bytes ''{lock}'')"
      "10 \<notin> set (as_bytes ''{ok}'')" "utf8_valid (as_bytes ''{ok}'')"
    by code_simp+
  have "line_text (ch_encode demo_channel) demo_parse (command_of_action ALock) ''{lock}''"
    and "line_text demo_encode_response (ch_decode demo_channel) (ctl_ok ''Vault locked'') ''{ok}''"
    using t v by (simp_all add: line_text_def demo_channel_def demo_parse_def demo_encode_response_def)
  moreover have "connected_to demo_parse demo_encode_response (Replies (\<lambda>_. ctl_ok ''Vault locked'')) 1000 demo_channel"
    by (simp add: connected_to_def demo_channel_def is_ok_def)
  ultimately show ?thesis
    using control_exchange [of demo_parse demo_encode_response "\<lambda>_. ctl_ok ''Vault locked''" 1000 demo_channel ALock
        "''{lock}''" "''{ok}''"]
    by (simp add: MAX_CONTROL_LINE_BYTES_def)
qed

text \<open>A connection the server closes without an answer, and one that nobody accepts.\<close>

lemma unanswered_is_unconfirmed:
  assumes "ch_path ch = Inr p" "ch_connect ch p = Inr ()" "ch_decode ch [] = Inl e"
    and "ch_reply ch = (\<lambda>_. Inr [])"
  shows "\<exists>reason. contact_daemon timely ch cmd = Unconfirmed reason"
proof -
  have u: "from_utf8 [] = Some []" "trim [] = []" by (simp_all add: from_utf8_def of_bytes_def)
  have "\<exists>e. bind_res w (\<lambda>_. bind_res (ch_shutdown ch) (\<lambda>_. bind_res (ch_reply ch sent) (\<lambda>raw.
      bind_res (ok_or msg (from_utf8 (first_line raw))) (\<lambda>line. ch_decode ch (trim line))))) = Inl e"
    for w :: "unit result" and sent msg
    using assms u by (cases w; cases "ch_shutdown ch") (simp_all add: ok_or_def)
  then have "\<exists>e. send_control_command ch cmd = Inl (Other_Error e)"
    using assms(1,2) by (cases "ch_encode ch cmd")
      (auto simp: send_control_command_def Let_def split: sum.splits, metis sum.distinct(1))
  then show ?thesis by (auto simp: contact_daemon_def)
qed

lemma refused_is_not_running:
  "ch_path ch = Inr p \<Longrightarrow> ch_connect ch p = Inl e \<Longrightarrow> contact_daemon True ch cmd = NotRunning"
  by (simp add: contact_daemon_def send_control_command_def)

section \<open>Stopping and restarting\<close>

lemma first_gone_iff: "first_gone running \<noteq> None \<longleftrightarrow> (\<exists>k<50. \<not> running k)"
  by (auto simp: first_gone_def find_None_iff WAIT_LOOKS_def)

text \<open>
  C37: stopping and restarting never report or rely on a stop that was not observed. \<open>stop\<close> succeeds
  exactly when nothing listens on the channel, or the agent did not refuse and within fifty looks the
  PID file no longer names a running daemon; \<open>restart\<close> spawns a new agent exactly when nothing
  listens or such a look succeeds (and the executable is found). An agent that was reached and keeps
  its PID file is never joined by a second one.
\<close>

theorem restart_waits_for_exit:
  "(snd (cmd_stop contact running) = Returns \<longleftrightarrow>
      contact = NotRunning
      \<or> (case contact of Replied r \<Rightarrow> resp_ok r | _ \<Rightarrow> True) \<and> (\<exists>k<50. \<not> running k))
   \<and> (snd (snd (cmd_restart contact running exe spawn_agent)) \<longleftrightarrow>
        is_ok exe \<and> (contact = NotRunning \<or> (\<exists>k<50. \<not> running k)))"
proof -
  have w: "snd (wait_stopped running out) = Returns \<longleftrightarrow> (\<exists>k<50. \<not> running k)" for out
    unfolding first_gone_iff [symmetric] by (simp add: wait_stopped_def split: option.split)
  have sp: "snd (snd (start_replacement exe spawn_agent out)) \<longleftrightarrow> is_ok exe" for out
    by (cases exe) (auto simp: start_replacement_def is_ok_def split: sum.split)
  have "snd (cmd_stop contact running) = Returns \<longleftrightarrow>
      contact = NotRunning \<or> (case contact of Replied r \<Rightarrow> resp_ok r | _ \<Rightarrow> True) \<and> (\<exists>k<50. \<not> running k)"
    using w by (cases contact) (simp_all add: cmd_stop_def)
  moreover have "snd (snd (cmd_restart contact running exe spawn_agent)) \<longleftrightarrow>
      is_ok exe \<and> (contact = NotRunning \<or> (\<exists>k<50. \<not> running k))"
    unfolding first_gone_iff [symmetric] using sp by (simp add: cmd_restart_def split: option.split)
  ultimately show ?thesis by blast
qed

text \<open>With the PID file of a running daemon: as long as it is owned, a reached agent is not joined.\<close>

lemma restart_spares_owner:
  assumes "\<And>k. owned C d (w k)" and "contact \<noteq> NotRunning"
  shows "cmd_restart contact (\<lambda>k. is_daemon_running C (w k)) exe spawn_agent
       = ([Err ''Existing agent did not stop within 5s; not restarting.''], Exits 1, False)"
proof -
  have "\<not> (\<exists>k<50::nat. \<not> is_daemon_running C (w k))" using owned_found [OF assms(1)] by simp
  then have "first_gone (\<lambda>k. is_daemon_running C (w k)) = None"
    using first_gone_iff [of "\<lambda>k. is_daemon_running C (w k)"] by auto
  then show ?thesis using assms(2) by (simp add: cmd_restart_def)
qed

text \<open>
  A stop that was never confirmed and not observed within the wait is reported as acknowledged.
\<close>

lemma unconfirmed_stop_called_acknowledged:
  assumes "\<forall>k. running k"
  shows "last (fst (cmd_stop (Unconfirmed reason) running))
       = Err ''Agent acknowledged stop but is still running after 5s.''"
proof -
  have "first_gone running = None" using assms first_gone_iff [of running] by blast
  then show ?thesis by (simp add: cmd_stop_def wait_stopped_def)
qed

end
