(* ===== verification/Cli.thy ===== *)
theory Cli
  imports Agent_Commands Client
begin

text \<open>
  The command line: the commands of \<open>src/cli.rs\<close> and what \<open>main\<close> runs for each, the password
  prompts and the login of \<open>src/commands/login.rs\<close>, the shell exports of \<open>src/commands/env.rs\<close> with
  the quoting of \<open>src/shell.rs\<close>, and the autostart entry of \<open>src/process.rs\<close>, on Linux. The terminal,
  the control channel, the server and the file system are arguments.
\<close>

section \<open>Commands\<close>

datatype UnlockMethod = UAuto | UPin | UHello | UNative

datatype KeysAction =
    KList
  | KBind string "string list"
  | KUnbind string "string option" bool
  | KUi

datatype SshConfigAction = ScShow | ScWrite | ScRemove

datatype StartupAction = SEnable | SDisable

datatype Commands =
    CRun bool
  | CStop
  | CRestart
  | CStatus bool
  | CDoctor bool bool
  | CLogin "string option" "string option"
  | CSync
  | CForget bool
  | CLock
  | CUnlock UnlockMethod
  | CSetPin
  | CKeys "KeysAction option"
  | CEnv string
  | CSshConfig "SshConfigAction option"
  | CStartup StartupAction
  | CConfig

text \<open>The calls of \<open>main\<close>; \<open>TAgent\<close> is the branch that claims the PID file and runs the agent.\<close>

datatype task =
    TAgent
  | TStop
  | TRestart
  | TLogin "string option" "string option"
  | TControl string
  | TStatus bool
  | TDoctor bool bool
  | TKeys KeysAction
  | TSshcfgShow
  | TSshcfgWrite
  | TSshcfgUninstall
  | TSshcfgStatus
  | TStartupEnable
  | TDaemonUninstall
  | TConfig
  | TSetPin
  | TEnv string
  | TFails string

text \<open>\<open>ask\<close> is \<open>rpassword::prompt_password\<close>, from the prompt to what was typed.\<close>

definition prompt_password :: "(string \<Rightarrow> string result) \<Rightarrow> string \<Rightarrow> string result" where
  "prompt_password ask prompt = context_msg ''Failed to read password'' (ask prompt)"

definition unlock_task :: "(string \<Rightarrow> string result) \<Rightarrow> UnlockMethod \<Rightarrow> task" where
  "unlock_task ask method =
     (case method of
        UPin \<Rightarrow> (case prompt_password ask ''Enter PIN: '' of
                   Inl e \<Rightarrow> TFails e | Inr pin \<Rightarrow> TControl (''unlock-pin:'' @ pin))
      | UHello \<Rightarrow> TControl ''unlock-hello''
      | UNative \<Rightarrow> TControl ''unlock-native''
      | UAuto \<Rightarrow> TControl ''unlock'')"

fun keys_task :: "KeysAction \<Rightarrow> task" where
  "keys_task KUi = TControl ''bind-hosts-dialog''"
| "keys_task a = TKeys a"

definition main_task :: "(string \<Rightarrow> string result) \<Rightarrow> Commands option \<Rightarrow> task" where
  "main_task ask command =
     (case command of
        None \<Rightarrow> TAgent
      | Some (CRun _) \<Rightarrow> TAgent
      | Some CStop \<Rightarrow> TStop
      | Some CRestart \<Rightarrow> TRestart
      | Some (CLogin url email) \<Rightarrow> TLogin url email
      | Some CLock \<Rightarrow> TControl ''lock''
      | Some (CUnlock method) \<Rightarrow> unlock_task ask method
      | Some (CStatus json) \<Rightarrow> TStatus json
      | Some (CDoctor json fix_it) \<Rightarrow> TDoctor json fix_it
      | Some (CKeys action) \<Rightarrow> keys_task (unwrap_or KList action)
      | Some (CSshConfig action) \<Rightarrow>
          (case action of
             Some ScShow \<Rightarrow> TSshcfgShow
           | Some ScWrite \<Rightarrow> TSshcfgWrite
           | Some ScRemove \<Rightarrow> TSshcfgUninstall
           | None \<Rightarrow> TSshcfgStatus)
      | Some (CStartup SEnable) \<Rightarrow> TStartupEnable
      | Some (CStartup SDisable) \<Rightarrow> TDaemonUninstall
      | Some CConfig \<Rightarrow> TConfig
      | Some CSetPin \<Rightarrow> TSetPin
      | Some CSync \<Rightarrow> TControl ''sync''
      | Some (CForget shared) \<Rightarrow> TControl (if shared then ''forget-shared'' else ''forget'')
      | Some (CEnv shell) \<Rightarrow> TEnv shell)"

section \<open>Running the agent\<close>

text \<open>
  The branch \<open>TAgent\<close> of \<open>main\<close>: in the background the log is opened first, then the configuration is
  loaded, then the agent's thread claims the PID file, runs the agent (\<open>run_foreground\<close>) and removes the
  PID file. The thread may panic.
\<close>

definition start_logging :: "bool \<Rightarrow> string result \<Rightarrow> string result \<Rightarrow> (string \<Rightarrow> unit result) \<Rightarrow> unit result" where
  "start_logging background state_dir log_path open_log =
     (if \<not> background then Inr ()
      else bind_res state_dir (\<lambda>_. bind_res log_path (\<lambda>p.
             context_msg (''Failed to open log file: '' @ p) (open_log p))))"

datatype run_end = Ran "unit result" | Panicked

text \<open>How the thread ends, whether the agent ran, and whether the PID file was removed afterwards.\<close>

definition agent_thread :: "bool result \<Rightarrow> run_end \<Rightarrow> run_end \<times> bool \<times> bool" where
  "agent_thread claim foreground =
     (case claim of
        Inl e \<Rightarrow> (Ran (Inl e), False, False)
      | Inr False \<Rightarrow> (Ran (Inr ()), False, False)
      | Inr True \<Rightarrow> (case foreground of Ran r \<Rightarrow> (Ran r, True, True) | Panicked \<Rightarrow> (Panicked, True, False)))"

definition agent_process ::
  "bool \<Rightarrow> string result \<Rightarrow> string result \<Rightarrow> (string \<Rightarrow> unit result) \<Rightarrow> unit result \<Rightarrow> bool result \<Rightarrow> run_end \<Rightarrow>
     unit result \<times> bool \<times> bool" where
  "agent_process background state_dir log_path open_log config claim foreground =
     (case bind_res (start_logging background state_dir log_path open_log)
             (\<lambda>_. context_msg ''Failed to load configuration'' config) of
        Inl e \<Rightarrow> (Inl e, False, False)
      | Inr _ \<Rightarrow>
          (case agent_thread claim foreground of
             (Ran r, did_run, removed) \<Rightarrow> (r, did_run, removed)
           | (Panicked, did_run, removed) \<Rightarrow> (Inl ''Tokio runtime thread panicked'', did_run, removed)))"

text \<open>
  The agent runs only behind a successful claim, the PID file is removed whenever it returns, and
  never by a process that did not claim it.
\<close>

lemma agent_runs_behind_claim:
  assumes "agent_process background state_dir log_path open_log config claim foreground = (r, did_run, removed)"
  shows "(did_run \<longrightarrow> claim = Inr True) \<and> (removed \<longrightarrow> did_run) \<and> (did_run \<and> foreground \<noteq> Panicked \<longrightarrow> removed)"
  using assms
  by (cases claim; cases foreground)
    (auto simp: agent_process_def agent_thread_def split: sum.splits bool.splits)

section \<open>Setting a PIN and logging in\<close>

text \<open>\<open>Inr\<close> is the text sent over the control channel; \<open>Inl\<close> is how the command ends without one.\<close>

definition cmd_set_pin :: "(string \<Rightarrow> string result) \<Rightarrow> (term_line list \<times> ending) + string" where
  "cmd_set_pin ask =
     (case prompt_password ask ''Enter new PIN: '' of
        Inl e \<Rightarrow> Inl ([], Fails e)
      | Inr pin \<Rightarrow>
          if length pin < 4 then Inl ([Err ''PIN must be at least 4 characters''], Returns)
          else case prompt_password ask ''Confirm PIN: '' of
                 Inl e \<Rightarrow> Inl ([], Fails e)
               | Inr pin_confirm \<Rightarrow>
                   if pin \<noteq> pin_confirm then Inl ([], Returns) else Inr (''set-pin:'' @ pin))"

record cli_terminal =
  tm_ask :: "string \<Rightarrow> string result"
  tm_line :: "string result"
  tm_lower :: "string \<Rightarrow> string"  \<comment> \<open>\<open>str::to_lowercase\<close>\<close>

text \<open>
  The commands below return the lines on the terminal, the texts they sent over the channel, in
  order, and how they end.
\<close>

definition offer_pin_setup ::
  "cli_terminal \<Rightarrow> (string \<Rightarrow> send_error + ControlResponse) \<Rightarrow> term_line list \<times> string list \<times> ending" where
  "offer_pin_setup tm send =
     (case tm_line tm of
        Inl _ \<Rightarrow> ([], [], Returns)
      | Inr raw \<Rightarrow>
          let input = tm_lower tm (trim raw)
          in if input \<noteq> [] \<and> input \<noteq> ''y'' \<and> input \<noteq> ''yes''
             then ([Out ''Skipped PIN setup. You can set it later with `sshwarden set-pin`.''], [], Returns)
             else case prompt_password (tm_ask tm) ''Enter new PIN (>= 4 chars): '' of
                    Inl e \<Rightarrow> ([], [], Fails e)
                  | Inr pin \<Rightarrow>
                      if length pin < 4
                      then ([Err (''PIN must be at least 4 characters. Skipped '' @ em_dash
                                    @ '' run `sshwarden set-pin` later.'')], [], Returns)
                      else case prompt_password (tm_ask tm) ''Confirm PIN: '' of
                             Inl e \<Rightarrow> ([], [], Fails e)
                           | Inr confirmed \<Rightarrow>
                               if pin \<noteq> confirmed
                               then ([Err (''PINs do not match. Skipped '' @ em_dash
                                             @ '' run `sshwarden set-pin` later.'')], [], Returns)
                               else let cmd = ''set-pin:'' @ pin
                                    in ([case send cmd of
                                           Inr resp \<Rightarrow>
                                             if resp_ok resp
                                             then Out (''PIN set '' @ em_dash @ '' this device is now remembered.'')
                                             else Err (''Could not set PIN: ''
                                                    @ unwrap_or ''unknown error'' (resp_error resp))
                                         | Inl e \<Rightarrow> Err (''Could not set PIN: '' @ error_text e)],
                                        [cmd], Returns))"

definition create_client_with :: "string \<Rightarrow> ServerConfig \<Rightarrow> string option \<Rightarrow> BitwardenClient" where
  "create_client_with uuid server base_url_override =
     (let base = unwrap_or (base_url server) base_url_override
      in client_new uuid base (unwrap_or (base @ ''/api'') (cfg_api_url server))
           (unwrap_or (base @ ''/identity'') (cfg_identity_url server)))"

text \<open>The login without an agent; \<open>email_input\<close> is the line read after the prompt.\<close>

definition standalone_login ::
  "crypto_lib \<Rightarrow> net \<Rightarrow> string \<Rightarrow> ServerConfig \<Rightarrow> string \<Rightarrow> string result \<Rightarrow> string option \<Rightarrow> string option \<Rightarrow>
     string \<Rightarrow> term_line list \<times> ending" where
  "standalone_login L N uuid server cfg_email email_input base_url_arg email_arg password =
     (case (case email_arg of
              Some e \<Rightarrow> Inr e
            | None \<Rightarrow> if cfg_email \<noteq> [] then Inr cfg_email
                      else map_sum id trim (context_msg ''Failed to read email'' email_input)) of
        Inl e \<Rightarrow> ([], Fails e)
      | Inr email \<Rightarrow>
          (case login_password L N email password (create_client_with uuid server base_url_arg) of
             (Inl e, _) \<Rightarrow> ([], Fails e)
           | (Inr _, client) \<Rightarrow>
               (case sync_ssh_keys L N client of
                  Inl e \<Rightarrow> ([], Fails e)
                | Inr keys \<Rightarrow>
                    if keys = []
                    then ([Out ''No SSH keys found in vault. Add SSH keys in Bitwarden to use them.''], Returns)
                    else ([Out ''Login successful. Vault SSH keys:'']
                          @ map (\<lambda>k. Out (''  SSH Key: '' @ dk_name k @ '' (cipher: '' @ dk_cipher_id k @ '')'')) keys
                          @ [Out (newline @ ''Note: no agent was running, so keys were not loaded. Start `sshwarden run --background`, then run `sshwarden login` again.'')],
                          Returns))))"

definition cmd_login ::
  "crypto_lib \<Rightarrow> net \<Rightarrow> string \<Rightarrow> ServerConfig \<Rightarrow> string \<Rightarrow> cli_terminal \<Rightarrow> string result \<Rightarrow>
     (string \<Rightarrow> send_error + ControlResponse) \<Rightarrow> bool \<Rightarrow> bool \<Rightarrow> string option \<Rightarrow> string option \<Rightarrow>
     term_line list \<times> string list \<times> ending" where
  "cmd_login L N uuid server cfg_email tm email_input send daemon_running remembered base_url_arg email_arg =
     (if (email_arg \<noteq> None \<or> base_url_arg \<noteq> None) \<and> daemon_running
      then ([], [], Fails ''A daemon is already running and logs in with its own configured account/server; --email/--base-url cannot be applied to it. Stop the daemon to log in standalone, or omit these flags.'')
      else case prompt_password (tm_ask tm) ''Master password: '' of
             Inl e \<Rightarrow> ([], [], Fails e)
           | Inr password \<Rightarrow>
               let cmd = ''unlock-password:'' @ password
               in case send cmd of
                    Inr resp \<Rightarrow>
                      if resp_ok resp
                      then let done_line = Out (unwrap_or ''Logged in; keys loaded into the running agent.'' (resp_message resp))
                           in if remembered then ([done_line], [cmd], Returns)
                              else (case offer_pin_setup tm send of
                                      (out, sent, e) \<Rightarrow> (done_line # out, cmd # sent, e))
                      else ([Err (''Login failed: '' @ unwrap_or ''unknown error'' (resp_error resp))], [cmd], Exits 1)
                  | Inl _ \<Rightarrow>
                      (case standalone_login L N uuid server cfg_email email_input base_url_arg email_arg password of
                         (out, e) \<Rightarrow> (out, [cmd], e)))"

section \<open>Shell exports\<close>

abbreviation sq :: char where "sq \<equiv> CHR 0x27"

abbreviation bs :: char where "bs \<equiv> CHR 0x5C"

definition shell_single_quote :: "string \<Rightarrow> string" where
  "shell_single_quote v = replace_char sq [sq, bs, sq, sq] v"

definition powershell_single_quote :: "string \<Rightarrow> string" where
  "powershell_single_quote v = replace_char sq [sq, sq] v"

text \<open>The lines \<open>cmd_env\<close> prints, for the endpoint of the configuration or else the default one.\<close>

definition env_endpoint :: "string option \<Rightarrow> string result \<Rightarrow> string result" where
  "env_endpoint socket_path default_path =
     bind_res default_path (\<lambda>d. Inr (unwrap_or d socket_path))"

definition env_lines :: "string \<Rightarrow> string \<Rightarrow> string list result" where
  "env_lines shell endpoint =
     (if shell = ''sh'' \<or> shell = ''bash'' \<or> shell = ''zsh'' \<or> shell = ''posix''
      then Inr [''export SSH_AUTH_SOCK='' @ [sq] @ shell_single_quote endpoint @ [sq],
                ''export SSHWARDEN_SSH_AUTH_SOCK='' @ [sq] @ shell_single_quote endpoint @ [sq]]
      else if shell = ''fish''
      then Inr [''set -gx SSH_AUTH_SOCK '' @ [sq] @ shell_single_quote endpoint @ [sq] @ '';'',
                ''set -gx SSHWARDEN_SSH_AUTH_SOCK '' @ [sq] @ shell_single_quote endpoint @ [sq] @ '';'']
      else if shell = ''powershell'' \<or> shell = ''pwsh'' \<or> shell = ''ps''
      then Inr [''$env:SSH_AUTH_SOCK = '' @ [sq] @ powershell_single_quote endpoint @ [sq],
                ''$env:SSHWARDEN_SSH_AUTH_SOCK = '' @ [sq] @ powershell_single_quote endpoint @ [sq]]
      else if shell = ''cmd''
      then Inr [''set SSH_AUTH_SOCK='' @ endpoint, ''set SSHWARDEN_SSH_AUTH_SOCK='' @ endpoint]
      else Inl (''Unsupported shell syntax '' @ [sq] @ shell @ [sq] @ ''. Use sh, fish, powershell, or cmd.''))"

definition cmd_env :: "string option \<Rightarrow> string result \<Rightarrow> string \<Rightarrow> string list result" where
  "cmd_env socket_path default_path shell = bind_res (env_endpoint socket_path default_path) (env_lines shell)"

section \<open>Starting at login\<close>

definition linux_autostart_path :: "(string \<Rightarrow> string option) \<Rightarrow> string result" where
  "linux_autostart_path var =
     (case (case var ''XDG_CONFIG_HOME'' of
              Some c \<Rightarrow> Some c | None \<Rightarrow> map_option (\<lambda>home. path_join home ''.config'') (var ''HOME'')) of
        None \<Rightarrow> Inl ''HOME or XDG_CONFIG_HOME environment variable not set''
      | Some config_home \<Rightarrow> Inr (path_join (path_join config_home ''autostart'') ''sshwarden.desktop''))"

definition desktop_exec_escape :: "string \<Rightarrow> string" where
  "desktop_exec_escape v =
     (if list_ex is_whitespace (rust_chars v)
      then CHR 0x22 # replace_char CHR 0x22 [bs, CHR 0x22] (replace_char bs [bs, bs] v) @ [CHR 0x22]
      else v)"

definition desktop_entry :: "string \<Rightarrow> string" where
  "desktop_entry exe =
     concat (map (\<lambda>l. l @ newline)
       [''[Desktop Entry]'', ''Type=Application'', ''Name=SSHWarden'', ''Comment=SSHWarden SSH Agent Daemon'',
        ''Exec='' @ desktop_exec_escape exe @ '' run --background'', ''Terminal=false'',
        ''X-GNOME-Autostart-enabled=true''])"

text \<open>The second component is the file written, with its contents.\<close>

definition cmd_daemon_install ::
  "(string \<Rightarrow> string option) \<Rightarrow> (string \<Rightarrow> unit result) \<Rightarrow> string result \<Rightarrow> (string \<Rightarrow> string \<Rightarrow> unit result) \<Rightarrow>
     unit result \<times> (string \<times> string) option" where
  "cmd_daemon_install var mkdir exe write_file =
     (case bind_res (linux_autostart_path var) (\<lambda>path.
             case parent path of
               None \<Rightarrow> Inr path
             | Some dir \<Rightarrow> bind_res (context_msg (''Failed to create autostart directory: '' @ dir) (mkdir dir))
                             (\<lambda>_. Inr path)) of
        Inl e \<Rightarrow> (Inl e, None)
      | Inr path \<Rightarrow>
          (case context_msg ''Failed to get current executable path'' exe of
             Inl e \<Rightarrow> (Inl e, None)
           | Inr exe_path \<Rightarrow>
               let content = desktop_entry exe_path
               in (case context_msg (''Failed to write autostart file: '' @ path) (write_file path content) of
                     Inl e \<Rightarrow> (Inl e, None)
                   | Inr _ \<Rightarrow> (Inr (), Some (path, content)))))"

definition cmd_startup_enable ::
  "bool \<Rightarrow> unit result \<times> (string \<times> string) option \<Rightarrow> unit result \<times> (string \<times> string) option" where
  "cmd_startup_enable remembered install =
     (if \<not> remembered
      then (Inl ''No Remembered Device yet, so an agent started at login could not unlock. Run `sshwarden login` first, then `sshwarden startup enable`.'', None)
      else install)"

datatype startup_removal = Removed | Not_There | Remove_Failed string

definition remove_startup_file :: "string \<Rightarrow> startup_removal \<Rightarrow> unit result" where
  "remove_startup_file path r =
     (case r of Removed \<Rightarrow> Inr () | Not_There \<Rightarrow> Inr ()
      | Remove_Failed e \<Rightarrow> Inl (''Failed to remove '' @ path @ '': '' @ e))"

definition cmd_daemon_uninstall :: "(string \<Rightarrow> string option) \<Rightarrow> (string \<Rightarrow> startup_removal) \<Rightarrow> unit result" where
  "cmd_daemon_uninstall var remove =
     bind_res (linux_autostart_path var) (\<lambda>path. remove_startup_file path (remove path))"

section \<open>What the shells read\<close>

text \<open>
  The POSIX shell language (Shell Command Language, 2.2): in single quotes every character stands for
  itself, outside them a backslash quotes the next one, blanks, line feeds and operators end the word.
  Characters that would be expanded are refused, so that a result is the literal word. Every result
  is the word and what follows it.
\<close>

definition sh_ends :: "char \<Rightarrow> bool" where
  "sh_ends c \<longleftrightarrow> c \<in> set '' ;&|<>()'' \<or> c = CHR 0x09 \<or> c = CHR 0x0A"

definition sh_special :: "char \<Rightarrow> bool" where
  "sh_special c \<longleftrightarrow> c \<in> set ''$`*?[]#~!{}%'' \<or> c = CHR 0x22"

fun sh_word :: "bool \<Rightarrow> string \<Rightarrow> (string \<times> string) option" where
  "sh_word True [] = None"
| "sh_word False [] = Some ([], [])"
| "sh_word True (c # cs) =
     (if c = sq then sh_word False cs else map_option (apfst (Cons c)) (sh_word True cs))"
| "sh_word False (c # cs) =
     (if c = sq then sh_word True cs
      else if c = bs
      then (case cs of [] \<Rightarrow> None | d # ds \<Rightarrow> map_option (apfst (Cons d)) (sh_word False ds))
      else if sh_ends c then Some ([], c # cs)
      else if sh_special c then None
      else map_option (apfst (Cons c)) (sh_word False cs))"

text \<open>Lines \<open>export WORD\<close>; the result is the words, that is, the assignments.\<close>

fun sh_exports :: "nat \<Rightarrow> string \<Rightarrow> string list option" where
  "sh_exports 0 text = (if text = [] then Some [] else None)"
| "sh_exports (Suc n) text =
     (case strip_prefix ''export '' text of
        None \<Rightarrow> None
      | Some rest \<Rightarrow>
          (case sh_word False rest of
             None \<Rightarrow> None
           | Some (w, after) \<Rightarrow>
               (case strip_prefix newline after of
                  None \<Rightarrow> None
                | Some next_lines \<Rightarrow> map_option (Cons w) (sh_exports n next_lines))))"

text \<open>
  A single-quoted string of fish, where backslash quotes a single quote and a backslash, up to the
  closing quote; and one of PowerShell, where a doubled quote stands for a quote and the four
  typographic single quotes (U+2018 to U+201B) count as quotes.
\<close>

fun fish_quoted :: "string \<Rightarrow> (string \<times> string) option" where
  "fish_quoted [] = None"
| "fish_quoted (c # cs) =
     (if c = sq then Some ([], cs)
      else if c = bs
      then (case cs of
              [] \<Rightarrow> None
            | d # ds \<Rightarrow> if d = sq \<or> d = bs then map_option (apfst (Cons d)) (fish_quoted ds)
                         else map_option (apfst (\<lambda>r. c # d # r)) (fish_quoted ds))
      else map_option (apfst (Cons c)) (fish_quoted cs))"

definition ps_quote :: "string \<Rightarrow> bool" where
  "ps_quote g \<longleftrightarrow> g = [sq] \<or> g \<in> set [[CHR 0xE2, CHR 0x80, CHR 0x98], [CHR 0xE2, CHR 0x80, CHR 0x99],
                                [CHR 0xE2, CHR 0x80, CHR 0x9A], [CHR 0xE2, CHR 0x80, CHR 0x9B]]"

fun ps_quoted :: "string list \<Rightarrow> (string \<times> string list) option" where
  "ps_quoted [] = None"
| "ps_quoted (g # gs) =
     (if ps_quote g
      then (case gs of
              h # hs \<Rightarrow> if ps_quote h then map_option (apfst (append h)) (ps_quoted hs) else Some ([], gs)
            | [] \<Rightarrow> Some ([], []))
      else map_option (apfst (append g)) (ps_quoted gs))"

lemma replace_char_Cons [simp]:
  "replace_char c r [] = []"
  "replace_char c r (d # s) = (if d = c then r else [d]) @ replace_char c r s"
  by (simp_all add: replace_char_def)

lemma apfst_compose: "map_option (apfst f) (map_option (apfst g) x) = map_option (apfst (f \<circ> g)) x"
  by (cases x) auto

lemma sh_word_quoted:
  "sh_word True (shell_single_quote v @ sq # rest) = map_option (apfst (append v)) (sh_word False rest)"
proof (induction v)
  case Nil
  then show ?case by (cases "sh_word False rest") (auto simp: shell_single_quote_def)
next
  case (Cons c v)
  then show ?case by (simp add: shell_single_quote_def apfst_compose comp_def)
qed

lemma sh_word_plain:
  assumes "list_all (\<lambda>c. c \<noteq> sq \<and> c \<noteq> bs \<and> \<not> sh_ends c \<and> \<not> sh_special c) w"
  shows "sh_word False (w @ rest) = map_option (apfst (append w)) (sh_word False rest)"
  using assms
proof (induction w)
  case Nil
  then show ?case by (cases "sh_word False rest") auto
next
  case (Cons c w)
  then show ?case by (simp add: apfst_compose comp_def)
qed

text \<open>An assignment with a quoted value, up to the end of its line.\<close>

lemma sh_assignment:
  assumes "list_all (\<lambda>c. c \<noteq> sq \<and> c \<noteq> bs \<and> \<not> sh_ends c \<and> \<not> sh_special c) w"
  shows "sh_word False (w @ sq # shell_single_quote v @ sq # newline @ rest) = Some (w @ v, newline @ rest)"
  using sh_word_plain [OF assms] sh_word_quoted [of v "newline @ rest"]
  by (simp add: newline_def sh_ends_def)

lemma names_plain:
  "list_all (\<lambda>c. c \<noteq> sq \<and> c \<noteq> bs \<and> \<not> sh_ends c \<and> \<not> sh_special c) ''SSH_AUTH_SOCK=''"
  "list_all (\<lambda>c. c \<noteq> sq \<and> c \<noteq> bs \<and> \<not> sh_ends c \<and> \<not> sh_special c) ''SSHWARDEN_SSH_AUTH_SOCK=''"
  by (simp_all add: sh_ends_def sh_special_def)

definition export_line :: "string \<Rightarrow> string \<Rightarrow> string" where
  "export_line w v = ''export '' @ w @ [sq] @ shell_single_quote v @ [sq]"

lemma sh_exports_step:
  assumes "list_all (\<lambda>c. c \<noteq> sq \<and> c \<noteq> bs \<and> \<not> sh_ends c \<and> \<not> sh_special c) w"
  shows "sh_exports (Suc n) (export_line w v @ newline @ rest) = map_option (Cons (w @ v)) (sh_exports n rest)"
proof -
  have "strip_prefix ''export '' (export_line w v @ newline @ rest)
      = Some (w @ sq # shell_single_quote v @ sq # newline @ rest)"
    unfolding export_line_def append_assoc by simp
  then show ?thesis by (simp add: sh_assignment [OF assms] del: strip_prefix.simps sh_word.simps)
qed

text \<open>
  C38: \<open>eval\<close> of the output of \<open>sshwarden env\<close> sets the two variables to exactly the endpoint in every
  POSIX shell, whatever characters its path has: quotes, line feeds, dollar signs and backslashes are
  all read back literally, and nothing else is executed.
\<close>

theorem env_output_read_back:
  "(\<exists>ls. env_lines ''sh'' endpoint = Inr ls
      \<and> sh_exports 2 (concat (map (\<lambda>l. l @ newline) ls))
          = Some [''SSH_AUTH_SOCK='' @ endpoint, ''SSHWARDEN_SSH_AUTH_SOCK='' @ endpoint])
   \<and> env_lines ''bash'' endpoint = env_lines ''sh'' endpoint
   \<and> env_lines ''zsh'' endpoint = env_lines ''sh'' endpoint
   \<and> env_lines ''posix'' endpoint = env_lines ''sh'' endpoint"
proof -
  let ?ls = "[export_line ''SSH_AUTH_SOCK='' endpoint, export_line ''SSHWARDEN_SSH_AUTH_SOCK='' endpoint]"
  have "concat (map (\<lambda>l. l @ newline) ?ls)
      = export_line ''SSH_AUTH_SOCK='' endpoint @ newline @ export_line ''SSHWARDEN_SSH_AUTH_SOCK='' endpoint @ newline @ []"
    by simp
  then have "sh_exports (Suc (Suc 0)) (concat (map (\<lambda>l. l @ newline) ?ls))
      = Some [''SSH_AUTH_SOCK='' @ endpoint, ''SSHWARDEN_SSH_AUTH_SOCK='' @ endpoint]"
    by (simp only: sh_exports_step [OF names_plain(1)] sh_exports_step [OF names_plain(2)] sh_exports.simps(1)
        option.map simp_thms if_True)
  moreover have "env_lines ''sh'' endpoint = Inr ?ls" by (simp add: env_lines_def export_line_def)
  ultimately show ?thesis unfolding numeral_2_eq_2 by (simp add: env_lines_def)
qed

text \<open>
  The same quoting read by fish ends in a wrong value when the path has two backslashes in a row, and
  is unterminated when it ends with one; PowerShell ends the string at a typographic quote.
\<close>

lemma fish_misreads:
  "fish_quoted (shell_single_quote [CHR ''a'', bs, bs, CHR ''b''] @ [sq]) = Some ([CHR ''a'', bs, CHR ''b''], [])"
  "fish_quoted (shell_single_quote [CHR ''a'', bs] @ [sq]) = None"
  by (simp_all add: shell_single_quote_def)

lemma powershell_misreads:
  "ps_quoted (rust_chars (powershell_single_quote ([CHR ''a'', CHR 0xE2, CHR 0x80, CHR 0x99] @ '';calc'') @ [sq]))
     = Some (''a'', rust_chars ('';calc'' @ [sq]))"
  by code_simp

lemma env_needs_default: "cmd_env (Some path) (Inl e) shell = Inl e"
  by (simp add: cmd_env_def env_endpoint_def)

section \<open>What is sent\<close>

text \<open>The action of the daemon that a command asks for, if it asks for one.\<close>

fun intended_action :: "(string \<Rightarrow> string result) \<Rightarrow> Commands \<Rightarrow> ControlAction option" where
  "intended_action ask CLock = Some ALock"
| "intended_action ask (CUnlock UAuto) = Some AUnlock"
| "intended_action ask (CUnlock UPin) = map_option AUnlockPin (res_ok (ask ''Enter PIN: ''))"
| "intended_action ask (CUnlock UHello) = Some AUnlockHello"
| "intended_action ask (CUnlock UNative) = Some AUnlockNative"
| "intended_action ask CSync = Some ASync"
| "intended_action ask (CForget shared) = Some (AForget shared)"
| "intended_action ask (CKeys (Some KUi)) = Some ABindHostsDialog"
| "intended_action ask _ = None"

lemma commands_reach_actions:
  "main_task ask (Some c) = TControl t \<longleftrightarrow> (\<exists>a. intended_action ask c = Some a \<and> t = command_of_action a)"
  by (cases "(ask, c)" rule: intended_action.cases; cases "ask ''Enter PIN: ''")
    (auto simp: main_task_def unlock_task_def prompt_password_def res_ok_def unwrap_or_def map_err_def
      split: option.split SshConfigAction.split StartupAction.split KeysAction.split)

text \<open>A PIN is sent only when it was typed twice and has at least four bytes.\<close>

lemma set_pin_sends_confirmed:
  "cmd_set_pin ask = Inr t \<longleftrightarrow>
     (\<exists>pin. ask ''Enter new PIN: '' = Inr pin \<and> ask ''Confirm PIN: '' = Inr pin \<and> 4 \<le> length pin
        \<and> t = command_of_action (ASetPin pin))"
  by (cases "ask ''Enter new PIN: ''"; cases "ask ''Confirm PIN: ''")
    (auto simp: cmd_set_pin_def prompt_password_def map_err_def)

lemma offer_sends_confirmed:
  assumes "offer_pin_setup tm send = (out, sent, e)" and "t \<in> set sent"
  shows "\<exists>pin. tm_ask tm ''Confirm PIN: '' = Inr pin \<and> 4 \<le> length pin \<and> t = command_of_action (ASetPin pin)"
  using assms
  by (cases "tm_line tm"; cases "tm_ask tm ''Enter new PIN (>= 4 chars): ''"; cases "tm_ask tm ''Confirm PIN: ''")
    (auto simp: offer_pin_setup_def prompt_password_def map_err_def Let_def split: if_splits)

text \<open>
  Login flags for another account never reach a running daemon; the password typed goes to the daemon
  first. Any failure of that exchange, also one after the daemon was reached, is taken for an absent
  agent and the login is repeated without it.
\<close>

lemma login_flags_refused:
  assumes "email_arg \<noteq> None \<or> url_arg \<noteq> None"
  shows "\<exists>e. cmd_login L N uuid server cfg tm input send True remembered url_arg email_arg = ([], [], Fails e)"
  using assms by (simp add: cmd_login_def)

lemma login_retries_without_agent:
  assumes "tm_ask tm ''Master password: '' = Inr pw" and "send (''unlock-password:'' @ pw) = Inl (Other_Error e)"
  shows "cmd_login L N uuid server cfg tm input send False remembered url_arg email_arg
       = (case standalone_login L N uuid server cfg input url_arg email_arg pw of
            (out, e) \<Rightarrow> (out, [''unlock-password:'' @ pw], e))"
  using assms by (simp add: cmd_login_def prompt_password_def map_err_def Let_def)

text \<open>
  An empty \<open>XDG_CONFIG_HOME\<close> puts the autostart entry into the working directory; a percent sign of
  the executable's path, which the Exec key reads as a field code, is written as it is.
\<close>

lemma empty_config_home_is_relative:
  "var ''XDG_CONFIG_HOME'' = Some [] \<Longrightarrow> linux_autostart_path var = Inr ''autostart/sshwarden.desktop''"
  unfolding linux_autostart_path_def by (simp, code_simp)

lemma percent_not_escaped: "desktop_exec_escape ''/opt/100%f/sshwarden'' = ''/opt/100%f/sshwarden''"
  by code_simp

end
