(* ===== verification/Endpoints.thy ===== *)
theory Endpoints
  imports Agent Paths Key_Cache
begin

text \<open>
  The two Unix sockets of the daemon: setting up the SSH agent's (\<open>crates/sshwarden-agent/src/unix.rs\<close>)
  and the control channel's (\<open>start_control_server\<close> of \<open>crates/sshwarden-agent/src/control.rs\<close>), and
  the peer of an accepted connection (\<open>peercred_unix_listener_stream.rs\<close>). Then two small pieces of
  \<open>crates/sshwarden-ui\<close>: the native key store through \<open>secret-tool\<close> (\<open>unlock/native.rs\<close>, Linux) and the
  placement of dialogs (\<open>window_placement.rs\<close>, not Windows).
\<close>

section \<open>The socket's directory\<close>

text \<open>
  The permission bits of the socket's directory and of the entry at its path, if they exist. Every
  successful call adds a moment, newest first, so that what others could see in between is part of the
  result.
\<close>

record socket_place =
  sp_dir :: "nat option"
  sp_sock :: "nat option"

type_synonym moments = "socket_place list"

text \<open>
  The operating system's answers, and the modes the process's umask gives to a new directory and a new
  socket. \<open>sa_sees\<close> says whether the path can be examined at all.
\<close>

record socket_answers =
  sa_parent :: bool
  sa_sees :: bool
  sa_mkdir :: "unit result"
  sa_chmod_dir :: "unit result"
  sa_remove :: "unit result"
  sa_bind :: "unit result"
  sa_chmod_sock :: "unit result"
  sa_dir_mode :: nat
  sa_sock_mode :: nat

definition moment :: "(socket_place \<Rightarrow> socket_place) \<Rightarrow> unit result \<Rightarrow> moments \<Rightarrow> unit result \<times> moments" where
  "moment f r ms = (case r of Inl e \<Rightarrow> (Inl e, ms) | Inr _ \<Rightarrow> (Inr (), f (hd ms) # ms))"

definition then_do :: "unit result \<times> moments \<Rightarrow> (moments \<Rightarrow> unit result \<times> moments) \<Rightarrow> unit result \<times> moments" where
  "then_do x f = (case x of (Inl e, ms) \<Rightarrow> (Inl e, ms) | (Inr _, ms) \<Rightarrow> f ms)"

text \<open>The four calls; creating a directory that exists changes nothing, binding needs a free path.\<close>

definition make_dir :: "socket_answers \<Rightarrow> moments \<Rightarrow> unit result \<times> moments" where
  "make_dir A ms =
     (if sp_dir (hd ms) \<noteq> None then (Inr (), ms)
      else moment (\<lambda>p. p\<lparr>sp_dir := Some (sa_dir_mode A)\<rparr>) (sa_mkdir A) ms)"

definition close_dir :: "socket_answers \<Rightarrow> moments \<Rightarrow> unit result \<times> moments" where
  "close_dir A = moment (\<lambda>p. p\<lparr>sp_dir := Some 448\<rparr>) (sa_chmod_dir A)"

definition remove_path :: "socket_answers \<Rightarrow> moments \<Rightarrow> unit result \<times> moments" where
  "remove_path A ms =
     (if sa_sees A \<and> sp_sock (hd ms) \<noteq> None then moment (\<lambda>p. p\<lparr>sp_sock := None\<rparr>) (sa_remove A) ms
      else (Inr (), ms))"

definition bind_socket :: "socket_answers \<Rightarrow> moments \<Rightarrow> unit result \<times> moments" where
  "bind_socket A ms =
     (if sp_sock (hd ms) \<noteq> None then (Inl ''Address already in use'', ms)
      else moment (\<lambda>p. p\<lparr>sp_sock := Some (sa_sock_mode A)\<rparr>) (sa_bind A) ms)"

definition set_user_permissions :: "socket_answers \<Rightarrow> moments \<Rightarrow> unit result \<times> moments" where
  "set_user_permissions A = moment (\<lambda>p. p\<lparr>sp_sock := Some 384\<rparr>) (sa_chmod_sock A)"

definition ensure_socket_parent_dir :: "socket_answers \<Rightarrow> moments \<Rightarrow> unit result \<times> moments" where
  "ensure_socket_parent_dir A ms =
     (if \<not> sa_parent A then (Inr (), ms)
      else let parent_existed = (sp_dir (hd ms) \<noteq> None)
           in then_do (make_dir A ms) (\<lambda>ms'. if parent_existed then (Inr (), ms') else close_dir A ms'))"

section \<open>The SSH agent's endpoint\<close>

definition get_socket_path :: "string option \<Rightarrow> string option \<Rightarrow> string result \<Rightarrow> string result" where
  "get_socket_path endpoint env_path default_path =
     (case endpoint of
        Some p \<Rightarrow> Inr p
      | None \<Rightarrow> (case env_path of Some p \<Rightarrow> Inr p | None \<Rightarrow> default_path))"

definition start_server_with_endpoint ::
  "socket_answers \<Rightarrow> string result \<Rightarrow> moments \<Rightarrow> SshWardenAgent result \<times> moments" where
  "start_server_with_endpoint A path ms =
     (case path of
        Inl e \<Rightarrow> (Inl e, ms)
      | Inr _ \<Rightarrow>
          (case then_do (then_do (then_do (ensure_socket_parent_dir A ms) (remove_path A)) (bind_socket A))
                  (set_user_permissions A) of
             (Inl e, ms') \<Rightarrow> (Inl e, ms')
           | (Inr _, ms') \<Rightarrow> (Inr (set_running True agent_new), ms')))"

text \<open>The connection of a peer whose credentials may not be readable or may lack a process id.\<close>

definition accepted_peer :: "(u32 \<Rightarrow> process_entry option) \<Rightarrow> u32 option result \<Rightarrow> PeerInfo" where
  "accepted_peer ps cred =
     (case cred of
        Inl _ \<Rightarrow> PeerInfo_unknown
      | Inr None \<Rightarrow> PeerInfo_unknown
      | Inr (Some pid) \<Rightarrow> (case get_peer_info ps pid of Inr info \<Rightarrow> info | Inl _ \<Rightarrow> PeerInfo_unknown))"

section \<open>The control channel's endpoint\<close>

text \<open>
  Everything before the accept loop; the flag says whether the loop is entered. Here a failure to
  restrict the socket is only logged.
\<close>

definition open_control_socket :: "socket_answers \<Rightarrow> string result \<Rightarrow> moments \<Rightarrow> bool \<times> moments" where
  "open_control_socket A path ms =
     (case path of
        Inl _ \<Rightarrow> (False, ms)
      | Inr _ \<Rightarrow>
          (case then_do (then_do (ensure_socket_parent_dir A ms) (remove_path A)) (bind_socket A) of
             (Inl _, ms') \<Rightarrow> (False, ms')
           | (Inr _, ms') \<Rightarrow> (True, snd (set_user_permissions A ms'))))"

text \<open>Leaving the loop when the daemon is cancelled.\<close>

definition close_control_socket :: "unit result \<Rightarrow> moments \<Rightarrow> moments" where
  "close_control_socket removed ms = snd (moment (\<lambda>p. p\<lparr>sp_sock := None\<rparr>) removed ms)"

section \<open>The native key store\<close>

text \<open>
  \<open>secret-tool\<close> of the Secret Service: one secret under the attributes of SSHWarden. \<open>None\<close> for a tool
  that cannot be run; the exit status of each command is an answer.
\<close>

record secret_service =
  runs_tool :: "string \<Rightarrow> bool"
  spawns :: bool
  tool_ok :: bool
  stored_secret :: "bytes option"

definition which_secret_tool :: "secret_service \<Rightarrow> string option" where
  "which_secret_tool T = find (runs_tool T) [''secret-tool'', ''/usr/bin/secret-tool'']"

definition native_slot_text :: string where
  "native_slot_text = ''secret-service:application=sshwarden;kind=local-cache-key''"

definition native_encrypt_local_cache_key :: "string \<Rightarrow> secret_service \<Rightarrow> string result \<times> secret_service" where
  "native_encrypt_local_cache_key encoded T =
     (case which_secret_tool T of
        None \<Rightarrow> (Inl ''secret-tool not found'', T)
      | Some _ \<Rightarrow>
          if \<not> spawns T then (Inl ''failed to run secret-tool'', T)
          else if \<not> tool_ok T then (Inl ''secret-tool store failed'', T)
          else (Inr native_slot_text, T\<lparr>stored_secret := Some (as_bytes encoded)\<rparr>))"

definition trim_end :: "string \<Rightarrow> string" where
  "trim_end s = concat (rev (dropWhile is_whitespace (rev (rust_chars s))))"

text \<open>A lookup that finds nothing fails, as the exit status of \<open>secret-tool lookup\<close> is documented.\<close>

definition native_decrypt_local_cache_key :: "string \<Rightarrow> secret_service \<Rightarrow> string result" where
  "native_decrypt_local_cache_key slot T =
     (case which_secret_tool T of
        None \<Rightarrow> Inl ''secret-tool not found''
      | Some _ \<Rightarrow>
          if \<not> spawns T then Inl ''failed to run secret-tool''
          else (case (if tool_ok T then stored_secret T else None) of
                  None \<Rightarrow> Inl ''secret-tool lookup failed''
                | Some out \<Rightarrow>
                    bind_res (ok_or ''invalid utf-8 sequence'' (from_utf8 out)) (\<lambda>text. Inr (trim_end text))))"

definition native_delete_local_cache_key :: "secret_service \<Rightarrow> unit result \<times> secret_service" where
  "native_delete_local_cache_key T =
     (case which_secret_tool T of
        None \<Rightarrow> (Inr (), T)
      | Some _ \<Rightarrow>
          if \<not> spawns T then (Inl ''secret-tool clear failed to run'', T)
          else if \<not> tool_ok T
          then (Inl ''secret-tool clear exited unsuccessfully; native unlock material may remain in the keyring'', T)
          else (Inr (), T\<lparr>stored_secret := None\<rparr>))"

section \<open>Placing dialogs\<close>

text \<open>Signed 32-bit integers with the saturating and checked conversions written out.\<close>

definition i32_max :: int where "i32_max = 2 ^ 31 - 1"

definition i32_min :: int where "i32_min = - (2 ^ 31)"

definition i32_of_u32 :: "u32 \<Rightarrow> int" where
  "i32_of_u32 w = (if uint w \<le> i32_max then uint w else i32_max)"

definition sat_add_i32 :: "int \<Rightarrow> int \<Rightarrow> int" where
  "sat_add_i32 a b = max i32_min (min i32_max (a + b))"

record ScreenBounds =
  sb_x :: int
  sb_y :: int
  sb_width :: int
  sb_height :: int

definition from_winit_monitor :: "int \<times> int \<Rightarrow> u32 \<times> u32 \<Rightarrow> ScreenBounds" where
  "from_winit_monitor position dims =
     \<lparr>sb_x = fst position, sb_y = snd position, sb_width = i32_of_u32 (fst dims), sb_height = i32_of_u32 (snd dims)\<rparr>"

definition is_valid :: "ScreenBounds \<Rightarrow> bool" where
  "is_valid b \<longleftrightarrow> sb_width b > 0 \<and> sb_height b > 0"

text \<open>The position set, if one is. Halving a number that is not negative rounds down.\<close>

definition center_window_in_bounds :: "u32 \<times> u32 \<Rightarrow> ScreenBounds \<Rightarrow> (int \<times> int) option" where
  "center_window_in_bounds outer_size b =
     (if \<not> is_valid b then None
      else let window_width = i32_of_u32 (fst outer_size); window_height = i32_of_u32 (snd outer_size)
           in if window_width \<le> 0 \<or> window_height \<le> 0 then None
              else Some (sat_add_i32 (sb_x b) (max (sb_width b - window_width) 0 div 2),
                         sat_add_i32 (sb_y b) (max (sb_height b - window_height) 0 div 2)))"

text \<open>The monitors winit offers: the current one, the primary one, the available ones.\<close>

definition center_on_winit_monitor ::
  "ScreenBounds option \<Rightarrow> ScreenBounds option \<Rightarrow> ScreenBounds list \<Rightarrow> u32 \<times> u32 \<Rightarrow> (int \<times> int) option" where
  "center_on_winit_monitor current primary available outer_size =
     (case option_or (option_or current primary) (case available of [] \<Rightarrow> None | m # _ \<Rightarrow> Some m) of
        None \<Rightarrow> None
      | Some m \<Rightarrow> center_window_in_bounds outer_size m)"

section \<open>Properties\<close>

lemma then_do_simps [simp]:
  "then_do (Inl e, ms) f = (Inl e, ms)" "then_do (Inr u, ms) f = f ms"
  by (simp_all add: then_do_def)

lemma moment_cases: "moment f r ms = (case r of Inl e \<Rightarrow> (Inl e, ms) | Inr _ \<Rightarrow> (Inr (), f (hd ms) # ms))"
  by (simp add: moment_def)

lemmas socket_defs = ensure_socket_parent_dir_def make_dir_def close_dir_def remove_path_def bind_socket_def
  set_user_permissions_def moment_cases Let_def

text \<open>What can be reached when the directory had to be made: the socket exists only in a closed directory.\<close>

definition closed_moments :: "moments \<Rightarrow> bool" where
  "closed_moments ms \<longleftrightarrow> (\<forall>m \<in> set ms. sp_sock m = None \<or> sp_dir m = Some 448)"

definition place_moments :: "socket_answers \<Rightarrow> socket_place \<Rightarrow> unit result \<times> moments" where
  "place_moments A p = then_do (then_do (ensure_socket_parent_dir A [p]) (remove_path A)) (bind_socket A)"

lemma place_moments_closed:
  assumes "sa_parent A" "sp_dir p = None" "sp_sock p = None"
  shows "closed_moments (snd (place_moments A p))
    \<and> (is_ok (fst (place_moments A p)) \<longrightarrow> sp_dir (hd (snd (place_moments A p))) = Some 448)"
  using assms
  by (cases "sa_mkdir A"; cases "sa_chmod_dir A"; cases "sa_bind A")
    (simp_all add: place_moments_def socket_defs closed_moments_def is_ok_def)

text \<open>
  C40: a socket in a directory the daemon had to create is never reachable by others. Whatever calls
  fail, at every moment the SSH agent's socket or the control socket exists its directory already has
  mode 0700; when the agent's endpoint starts, the socket itself ends with mode 0600 and the agent is
  marked as running.
\<close>

theorem socket_never_exposed:
  assumes "sa_parent A" "sp_dir p = None" "sp_sock p = None"
  shows "closed_moments (snd (start_server_with_endpoint A path [p]))
    \<and> closed_moments (snd (open_control_socket A path [p]))
    \<and> (case fst (start_server_with_endpoint A path [p]) of
         Inr ag \<Rightarrow> is_running ag \<and> sp_sock (hd (snd (start_server_with_endpoint A path [p]))) = Some 384
       | Inl _ \<Rightarrow> True)"
proof -
  obtain r ms where pm: "place_moments A p = (r, ms)" by fastforce
  note c = place_moments_closed [OF assms, unfolded pm fst_conv snd_conv]
  have p: "closed_moments [p]" using assms(3) by (simp add: closed_moments_def)
  have perm: "closed_moments (snd (set_user_permissions A ms))" if "is_ok r"
    using c that by (cases "sa_chmod_sock A") (auto simp: set_user_permissions_def moment_cases closed_moments_def)
  show ?thesis
  proof (cases path)
    case (Inl e)
    then show ?thesis using p by (simp add: start_server_with_endpoint_def open_control_socket_def)
  next
    case path: (Inr q)
    show ?thesis
    proof (cases r)
      case (Inl e)
      then show ?thesis
        using c pm path by (simp add: start_server_with_endpoint_def open_control_socket_def place_moments_def)
    next
      case (Inr u)
      then show ?thesis
        using perm pm path
        by (cases "sa_chmod_sock A")
          (simp_all add: start_server_with_endpoint_def open_control_socket_def place_moments_def is_ok_def
            set_user_permissions_def moment_cases set_running_def)
    qed
  qed
qed

definition demo_socket_answers :: socket_answers where
  "demo_socket_answers = \<lparr>sa_parent = True, sa_sees = True, sa_mkdir = Inr (), sa_chmod_dir = Inr (), sa_remove = Inr (),
     sa_bind = Inr (), sa_chmod_sock = Inr (), sa_dir_mode = 493, sa_sock_mode = 493\<rparr>"

theorem socket_never_exposed_witness:
  "snd (start_server_with_endpoint demo_socket_answers (Inr ''/run/s'') [\<lparr>sp_dir = None, sp_sock = None\<rparr>])
     = [\<lparr>sp_dir = Some 448, sp_sock = Some 384\<rparr>, \<lparr>sp_dir = Some 448, sp_sock = Some 493\<rparr>,
        \<lparr>sp_dir = Some 448, sp_sock = None\<rparr>, \<lparr>sp_dir = Some 493, sp_sock = None\<rparr>, \<lparr>sp_dir = None, sp_sock = None\<rparr>]
   \<and> closed_moments (snd (start_server_with_endpoint demo_socket_answers (Inr ''/run/s'') [\<lparr>sp_dir = None, sp_sock = None\<rparr>]))"
  using socket_never_exposed [of demo_socket_answers "\<lparr>sp_dir = None, sp_sock = None\<rparr>" "Inr ''/run/s''"]
  by (simp add: demo_socket_answers_def start_server_with_endpoint_def socket_defs)

text \<open>
  In a directory that was there before, the SSH agent's socket is reachable with the mode the umask
  gave it until it is restricted.
\<close>

lemma socket_open_before_restricted:
  assumes "sp_dir p = Some mode" "sp_sock p = None" "sa_parent A"
    and "sa_bind A = Inr ()" "sa_chmod_sock A = Inr ()"
  shows "\<lparr>sp_dir = Some mode, sp_sock = Some (sa_sock_mode A)\<rparr>
       \<in> set (snd (start_server_with_endpoint A (Inr path) [p]))"
  using assms by (cases p) (simp add: start_server_with_endpoint_def socket_defs)

text \<open>A failure to restrict the control socket leaves it with that mode, and it is served.\<close>

lemma control_socket_served_unrestricted:
  assumes "sp_dir p = Some mode" "sp_sock p = None" "sa_parent A"
    and "sa_bind A = Inr ()" "sa_chmod_sock A = Inl e"
  shows "fst (open_control_socket A (Inr path) [p])
       \<and> sp_sock (hd (snd (open_control_socket A (Inr path) [p]))) = Some (sa_sock_mode A)"
  using assms by (simp add: open_control_socket_def socket_defs)

text \<open>The native slot gives the key back, until another installation of the same user stores its own.\<close>

lemma native_slot_roundtrip:
  assumes "native_encrypt_local_cache_key key T = (Inr slot, T')" and "utf8_valid (as_bytes key)" "trim_end key = key"
  shows "native_decrypt_local_cache_key slot T' = Inr key"
proof -
  have T': "T' = T\<lparr>stored_secret := Some (as_bytes key)\<rparr>" "tool_ok T" "spawns T" "which_secret_tool T \<noteq> None"
    using assms(1) by (auto simp: native_encrypt_local_cache_key_def split: option.splits if_splits)
  then have "which_secret_tool T' = which_secret_tool T" by (simp add: which_secret_tool_def)
  then show ?thesis
    using T' assms(2,3) from_utf8_as_bytes [of key]
    by (auto simp: native_decrypt_local_cache_key_def ok_or_def)
qed

lemma second_installation_replaces:
  assumes "native_encrypt_local_cache_key key1 T = (Inr slot1, T1)" and "native_encrypt_local_cache_key key2 T1 = (Inr slot2, T2)"
    and "utf8_valid (as_bytes key2)" "trim_end key2 = key2"
  shows "slot1 = slot2 \<and> native_decrypt_local_cache_key slot1 T2 = Inr key2"
proof -
  have "slot1 = native_slot_text" "slot2 = native_slot_text"
    using assms(1,2) by (auto simp: native_encrypt_local_cache_key_def split: option.splits if_splits)
  then show ?thesis using native_slot_roundtrip [OF assms(2-4)] by simp
qed

text \<open>
  A dialog is centred on its monitor, up to one pixel, and lies within it when it fits; a dialog that is
  larger starts at the monitor's corner.
\<close>

definition centred :: "int \<Rightarrow> int \<Rightarrow> int \<Rightarrow> int \<Rightarrow> bool" where
  "centred x w d y \<longleftrightarrow>
     (if d \<le> w then x \<le> y \<and> y + d \<le> x + w \<and> \<bar>(y - x) - ((x + w) - (y + d))\<bar> \<le> 1 else y = x)"

lemma centred_axis:
  fixes x w d :: int
  assumes "0 < w" "0 < d" "i32_min \<le> x" "x + w \<le> i32_max"
  defines "y \<equiv> sat_add_i32 x (max (w - d) 0 div 2)"
  shows "centred x w d y"
proof (cases "d \<le> w")
  case True
  then have "y = x + (w - d) div 2"
    using assms by (simp add: sat_add_i32_def)
  then show ?thesis using True by (auto simp: centred_def)
next
  case False
  then show ?thesis using assms by (simp add: sat_add_i32_def centred_def)
qed

theorem dialog_centred:
  assumes "center_window_in_bounds outer_size b = Some (x, y)"
    and "i32_min \<le> sb_x b" "sb_x b + sb_width b \<le> i32_max" "i32_min \<le> sb_y b" "sb_y b + sb_height b \<le> i32_max"
  shows "centred (sb_x b) (sb_width b) (i32_of_u32 (fst outer_size)) x
       \<and> centred (sb_y b) (sb_height b) (i32_of_u32 (snd outer_size)) y"
proof -
  have "0 < sb_width b" "0 < sb_height b" "0 < i32_of_u32 (fst outer_size)" "0 < i32_of_u32 (snd outer_size)"
      "x = sat_add_i32 (sb_x b) (max (sb_width b - i32_of_u32 (fst outer_size)) 0 div 2)"
      "y = sat_add_i32 (sb_y b) (max (sb_height b - i32_of_u32 (snd outer_size)) 0 div 2)"
    using assms(1) by (auto simp: center_window_in_bounds_def is_valid_def Let_def split: if_splits)
  then show ?thesis using centred_axis assms(2-5) by blast
qed

end
