(* ===== verification/Doctor.thy ===== *)
theory Doctor
  imports Managed_Config Selectors Status_Report
begin

text \<open>
  \<open>doctor\<close> of \<open>src/status.rs\<close>, on Linux: the checks in the order the command makes them, the repairs
  of \<open>--fix\<close>, and its verdict. What the server, the daemon and the file system answer is the parameter
  \<open>doctor_env\<close>; the SSH configuration files are those of \<open>Managed_Config\<close>.
\<close>

section \<open>Checks\<close>

record DoctorCheck =
  dc_name :: string
  dc_ok :: bool
  dc_message :: string

definition check_ok :: "string \<Rightarrow> string \<Rightarrow> DoctorCheck" where
  "check_ok name message = \<lparr>dc_name = name, dc_ok = True, dc_message = message\<rparr>"

definition check_warn :: "string \<Rightarrow> string \<Rightarrow> DoctorCheck" where
  "check_warn name message = \<lparr>dc_name = name, dc_ok = False, dc_message = message\<rparr>"

text \<open>
  \<open>doc_status\<close> is the outcome of \<open>status-json\<close>; the leftovers of an older layout are those seen before
  and after the repairs of \<open>cleanup_legacy_runtime_files\<close> and \<open>migrate_legacy_log\<close>;
  \<open>doc_auth_sock\<close> is \<open>SSH_AUTH_SOCK\<close> when it is set to UTF-8 text.
\<close>

record doctor_env =
  doc_discovery :: "string option result"
  doc_notifications_url :: string
  doc_status :: "ControlResponse result"
  doc_local_dir :: "string result"
  doc_log_path :: "string result"
  doc_legacy :: "string list"
  doc_legacy_after :: "string list"
  doc_selector_dir :: "string result"
  doc_selector_exists :: bool
  doc_selector_entries :: "string list result"
  doc_socket :: "string result"
  doc_socket_exists :: bool
  doc_socket_mode :: "nat result"
  doc_auth_sock :: "string option"
  doc_ssh :: ssh_env

definition fetch_status_details_for_doctor :: "ControlResponse result \<Rightarrow> json result" where
  "fetch_status_details_for_doctor reply =
     bind_res reply (\<lambda>r. Inr (case resp_details r of Some d \<Rightarrow> d | None \<Rightarrow> response_to_json r))"

definition count_key_selector_files :: "string result \<Rightarrow> bool \<Rightarrow> string list result \<Rightarrow> (string \<times> nat) result" where
  "count_key_selector_files dir exists entries =
     bind_res dir (\<lambda>d.
       if \<not> exists then Inr (d, 0)
       else bind_res entries (\<lambda>names. Inr (d, length (filter is_pub names))))"

definition describe_paths :: "string list \<Rightarrow> string" where
  "describe_paths paths = join '', '' paths"

fun show_octal :: "nat \<Rightarrow> string" where
  "show_octal n = (if n < 8 then [char_of (48 + n)] else show_octal (n div 8) @ [char_of (48 + n mod 8)])"

declare show_octal.simps [simp del]

section \<open>The groups of checks\<close>

definition server_checks :: "doctor_env \<Rightarrow> DoctorCheck list" where
  "server_checks E =
     [case doc_discovery E of
        Inr (Some url) \<Rightarrow>
          check_ok ''server.discovery'' (''/api/config advertises notifications URL: '' @ url)
      | Inr None \<Rightarrow>
          check_warn ''server.discovery'' ''/api/config is reachable but did not advertise environment.notifications''
      | Inl e \<Rightarrow>
          check_warn ''server.discovery'' (''/api/config discovery failed; built-in URL rules will be used: '' @ e),
      check_ok ''notification.resolved_url''
        (''Configured fallback notification URL resolves to '' @ doc_notifications_url E)]"

definition notification_check :: "bool \<Rightarrow> json \<Rightarrow> DoctorCheck" where
  "notification_check authenticated n =
     (let state = unwrap_or ''unknown'' (Option.bind (json_get ''state'' n) json_str);
          health = json_health_label n authenticated
      in if state = ''running''
         then check_ok ''notification'' (''Notification hub '' @ health @ '' (''
                @ unwrap_or ''unknown URL'' (Option.bind (json_get ''url'' n) json_str) @ '')'')
         else if state = ''not_started'' \<and> \<not> authenticated
         then check_ok ''notification'' ''Notification hub not started yet: no Bitwarden API session (unlock or login first)''
         else if state = ''not_started''
         then check_warn ''notification'' ''Notification hub has not started even though a Bitwarden API session exists; live sync is not running''
         else check_warn ''notification'' (''Notification hub '' @ health))"

definition status_checks :: "json \<Rightarrow> DoctorCheck list" where
  "status_checks status =
     (let authenticated = unwrap_or False (json_flag status ''authenticated'');
          n = unwrap_or JNull (json_get ''notification'' status)
      in [if unwrap_or True (json_flag status ''agent_running'')
          then check_ok ''agent.serving'' (''SSHWarden'' @ [CHR 0x27] @ ''s SSH agent task is serving the endpoint'')
          else check_warn ''agent.serving'' (''The control channel answers but SSHWarden'' @ [CHR 0x27]
                 @ ''s SSH agent is NOT serving the endpoint '' @ em_dash
                 @ '' another agent likely owns it (on Windows, the OpenSSH '' @ [CHR 0x27] @ ''ssh-agent'' @ [CHR 0x27]
                 @ '' service: Stop-Service ssh-agent; Set-Service ssh-agent -StartupType Disabled). ssh/ssh-add will not see SSHWarden''
                 @ [CHR 0x27] @ ''s keys until this is fixed.''),
          if authenticated
          then check_ok ''session'' ''Bitwarden API session is restored in the daemon''
          else check_warn ''session'' ''Bitwarden API session is not restored; notifications and online sync will not run until login/unlock restores it'',
          if unwrap_or False (json_flag status ''pending_sync'')
          then check_warn ''sync.pending'' ''Pending Sync is recorded; unlock or restore connectivity to resolve it''
          else check_ok ''sync.pending'' ''No Pending Sync is recorded'',
          if unwrap_or False (json_flag status ''has_local_key_cache'')
          then check_ok ''local_key_cache'' ''Envelope Local Key Cache is present''
          else check_warn ''local_key_cache'' ''No remembered Local Key Cache is present'',
          if unwrap_or False (json_flag n ''stale_cache'')
          then check_warn ''local_key_cache.stale''
                 (''Local Key Cache is out of date because the refresh after a sync failed: ''
                  @ unwrap_or ''unknown refresh error'' (Option.bind (json_get ''stale_cache_error'' n) json_str))
          else check_ok ''local_key_cache.stale'' ''Local Key Cache is not marked out of date'',
          notification_check authenticated n])"

definition daemon_checks :: "doctor_env \<Rightarrow> DoctorCheck list" where
  "daemon_checks E =
     (case fetch_status_details_for_doctor (doc_status E) of
        Inr status \<Rightarrow>
          check_ok ''daemon'' ''SSHWarden daemon control channel is reachable'' # status_checks status
      | Inl e \<Rightarrow>
          [check_warn ''daemon'' (''SSHWarden daemon control channel is not reachable: '' @ e)])"

definition runtime_check :: "bool \<Rightarrow> doctor_env \<Rightarrow> DoctorCheck" where
  "runtime_check fix_it E =
     (case doc_local_dir E of
        Inl e \<Rightarrow> check_warn ''runtime_state'' (''Could not determine the machine-local state directory: '' @ e)
      | Inr dir \<Rightarrow>
          let base = ''PID/log/socket state lives in '' @ dir @ '' (log: ''
                     @ unwrap_or ''<unknown>'' (res_ok (doc_log_path E)) @ ''); machine-local, never cloud-synced''
          in if doc_legacy E = [] then check_ok ''runtime_state'' base
             else if fix_it
             then (if doc_legacy_after E = []
                   then check_ok ''runtime_state'' (base @ ''; removed legacy runtime file(s) from the shared data dir'')
                   else check_warn ''runtime_state'' (base @ ''; legacy runtime file(s) could not be cleaned up: ''
                          @ describe_paths (doc_legacy_after E)))
             else check_warn ''runtime_state'' (base @ ''; legacy runtime file(s) are still in the shared data dir: ''
                    @ describe_paths (doc_legacy E) @ '' '' @ em_dash
                    @ '' run `sshwarden doctor --fix` to move/remove them''))"

definition selector_checks :: "doctor_env \<Rightarrow> DoctorCheck list" where
  "selector_checks E =
     (case count_key_selector_files (doc_selector_dir E) (doc_selector_exists E) (doc_selector_entries E) of
        Inl e \<Rightarrow> [check_warn ''key_selectors'' (''Could not determine key selector directory: '' @ e)]
      | Inr (dir, count) \<Rightarrow>
          if 0 < count
          then [check_ok ''key_selectors'' (''Found '' @ show_nat count @ '' key selector .pub file(s) in '' @ dir),
                if 5 < count
                then check_warn ''ssh.max_auth_tries'' (show_nat count
                       @ '' selector files/keys detected; without Host-specific IdentityFile + IdentitiesOnly yes, OpenSSH servers may fail with MaxAuthTries'')
                else check_ok ''ssh.max_auth_tries'' ''Key count is not high enough to trigger the common MaxAuthTries failure by itself'']
          else if doc_selector_exists E
          then [check_warn ''key_selectors'' (''No key selector .pub files found in '' @ dir)]
          else [check_warn ''key_selectors'' (''Key selector directory does not exist: '' @ dir)])"

definition socket_mode_check :: "string \<Rightarrow> nat result \<Rightarrow> DoctorCheck" where
  "socket_mode_check path mode_bits =
     (case mode_bits of
        Inl e \<Rightarrow> check_warn ''agent_endpoint.unix_socket'' (''Could not stat agent socket '' @ path @ '': '' @ e)
      | Inr bits \<Rightarrow>
          let mode = bits mod 512
          in if mode = 384
             then check_ok ''agent_endpoint.unix_socket'' (''Agent socket present with 0600 perms: '' @ path)
             else check_warn ''agent_endpoint.unix_socket''
                    (''Agent socket '' @ path @ '' has mode '' @ show_octal mode @ '', expected 0600''))"

definition auth_sock_check :: "string \<Rightarrow> string option \<Rightarrow> DoctorCheck" where
  "auth_sock_check path sock =
     (let eval_hint = ''run `eval '' @ [CHR 0x22] @ ''$(sshwarden env)'' @ [CHR 0x22] @ ''`''
      in case sock of
           Some s \<Rightarrow>
             if path_eq path s
             then check_ok ''agent_endpoint.ssh_auth_sock'' ''SSH_AUTH_SOCK points at the SSHWarden agent socket''
             else check_warn ''agent_endpoint.ssh_auth_sock'' (''SSH_AUTH_SOCK ('' @ s
                    @ '') does not point at the SSHWarden agent socket ('' @ path @ ''); '' @ eval_hint)
         | None \<Rightarrow> check_warn ''agent_endpoint.ssh_auth_sock''
                     (''SSH_AUTH_SOCK is not set; '' @ eval_hint @ '' so ssh uses '' @ path))"

definition endpoint_checks :: "doctor_env \<Rightarrow> DoctorCheck list" where
  "endpoint_checks E =
     (case doc_socket E of
        Inl e \<Rightarrow> [check_warn ''agent_endpoint.unix_socket'' (''Could not resolve agent socket path: '' @ e)]
      | Inr path \<Rightarrow>
          if doc_socket_exists E
          then [socket_mode_check path (doc_socket_mode E), auth_sock_check path (doc_auth_sock E)]
          else [check_warn ''agent_endpoint.unix_socket''
                  (''Agent socket not present at '' @ path @ ''; is the daemon running?'')])"

section \<open>The SSH configuration\<close>

definition include_file_checks :: "string \<Rightarrow> text_file \<Rightarrow> DoctorCheck list" where
  "include_file_checks include_path f =
     (if f = No_File
      then [check_warn ''ssh_config.include_file'' (''Managed SSH config does not exist: '' @ include_path)]
      else [check_ok ''ssh_config.include_file'' (''Managed SSH config exists: '' @ include_path),
            if contains ''IdentityFile'' (read_or_default f) \<and> contains ''IdentitiesOnly yes'' (read_or_default f)
            then check_ok ''ssh_config.selector_rules'' ''Managed SSH config contains IdentityFile and IdentitiesOnly yes selector rules''
            else check_warn ''ssh_config.selector_rules'' ''Managed SSH config does not contain Host-specific IdentityFile + IdentitiesOnly yes rules; run `sshwarden ssh-config show` to print it or `sshwarden ssh-config write` to regenerate the managed include''])"

definition has_include :: "string option \<Rightarrow> string \<Rightarrow> text_file \<Rightarrow> bool" where
  "has_include home include_path config =
     (case config of
        Ssh_Config.Text content \<Rightarrow> list_ex (\<lambda>line. line_matches_sshwarden_include home line include_path) (lines content)
      | _ \<Rightarrow> False)"

definition placeholder :: string where
  "placeholder = ''# SSHWarden managed key selector snippets'' @ [CHR 0x0A]
     @ ''# Run `sshwarden ssh-config write` to populate this from your bound keys.'' @ [CHR 0x0A]"

definition dir_repair :: "ssh_env \<Rightarrow> string \<Rightarrow> DoctorCheck list" where
  "dir_repair S include_path =
     (case parent include_path of
        None \<Rightarrow> []
      | Some dir \<Rightarrow>
          (case env_dir S dir of
             Inr _ \<Rightarrow> []
           | Inl e \<Rightarrow> [check_warn ''doctor.fix.ssh_config_dir''
                          (''Failed to create managed SSH config directory '' @ dir @ '': '' @ e)]))"

definition file_repair :: "ssh_env \<Rightarrow> string \<Rightarrow> text_file \<Rightarrow> DoctorCheck list \<times> text_file" where
  "file_repair S include_path f =
     (if f \<noteq> No_File then ([], f)
      else (case write_private_file (env_private S include_path) placeholder f of
              (Inr _, f') \<Rightarrow>
                ([check_ok ''doctor.fix.include_file'' (''Created managed SSH config placeholder: '' @ include_path)], f')
            | (Inl e, f') \<Rightarrow>
                ([check_warn ''doctor.fix.include_file''
                    (''Failed to create managed SSH config '' @ include_path @ '': '' @ e)], f')))"

definition include_repair :: "ssh_env \<Rightarrow> string \<Rightarrow> string \<Rightarrow> text_file \<Rightarrow> DoctorCheck \<times> text_file" where
  "include_repair S config_path include_path config =
     (case write_sshwarden_include_line (env_home S) (env_style S) (env_dir S (unwrap_or [] (parent config_path)))
             (env_private S config_path) config_path include_path config of
        (Inr _, config') \<Rightarrow>
          (check_ok ''doctor.fix.include'' (''Added SSHWarden Include line to '' @ config_path), config')
      | (Inl e, config') \<Rightarrow>
          (check_warn ''doctor.fix.include''
             (''Failed to add SSHWarden Include line to '' @ config_path @ '': '' @ e), config'))"

definition ssh_config_checks :: "bool \<Rightarrow> ssh_env \<Rightarrow> ssh_files \<Rightarrow> DoctorCheck list \<times> ssh_files" where
  "ssh_config_checks fix_it S fs =
     (case (managed_sshwarden_include_path S, env_user_config S) of
        (Inr include_path, Inr config_path) \<Rightarrow>
          let first_checks = include_file_checks include_path (managed_file fs);
              (repairs, fs') =
                (if fix_it \<and> \<not> has_include (env_home S) include_path (user_config_file fs)
                 then (case file_repair S include_path (managed_file fs) of
                         (file_checks, managed') \<Rightarrow>
                           (case include_repair S config_path include_path (user_config_file fs) of
                              (include_check, config') \<Rightarrow>
                                (dir_repair S include_path @ file_checks @ [include_check],
                                 fs\<lparr>managed_file := managed', user_config_file := config'\<rparr>)))
                 else ([], fs))
          in (first_checks @ repairs
              @ [if has_include (env_home S) include_path (user_config_file fs')
                 then check_ok ''ssh_config.include'' (config_path @ '' includes SSHWarden managed config'')
                 else check_warn ''ssh_config.include''
                        (config_path @ '' does not include SSHWarden managed config; run `sshwarden ssh-config write` if desired'')],
              fs')
      | _ \<Rightarrow> ([check_warn ''ssh_config'' ''Could not determine ~/.ssh/config or managed include path''], fs))"

section \<open>The command\<close>

definition doctor_checks :: "bool \<Rightarrow> doctor_env \<Rightarrow> ssh_files \<Rightarrow> DoctorCheck list \<times> ssh_files" where
  "doctor_checks fix_it E fs =
     (case ssh_config_checks fix_it (doc_ssh E) fs of
        (config_checks, fs') \<Rightarrow>
          ((if fix_it
            then [check_ok ''doctor.fix'' ''doctor --fix requested; applying only explicit safe repairs implemented by doctor'']
            else [])
           @ server_checks E @ daemon_checks E @ [runtime_check fix_it E] @ selector_checks E
           @ endpoint_checks E @ config_checks, fs'))"

definition check_json :: "DoctorCheck \<Rightarrow> json" where
  "check_json c = JObj [(''name'', JStr (dc_name c)), (''ok'', JBool (dc_ok c)), (''message'', JStr (dc_message c))]"

definition cmd_doctor :: "bool \<Rightarrow> bool \<Rightarrow> doctor_env \<Rightarrow> ssh_files \<Rightarrow> printed \<times> ssh_files" where
  "cmd_doctor as_json fix_it E fs =
     (case doctor_checks fix_it E fs of
        (checks, fs') \<Rightarrow>
          (if as_json
           then Pretty (JObj [(''ok'', JBool (list_all dc_ok checks)), (''checks'', JArr (map check_json checks))])
           else Lines (map (\<lambda>c. (if dc_ok c then ''[ok] '' else ''[warn] '') @ dc_name c @ '': '' @ dc_message c) checks),
           fs'))"

section \<open>The verdict\<close>

lemma check_simps [simp]:
  "dc_ok (check_ok n m)" "\<not> dc_ok (check_warn n m)"
  by (simp_all add: check_ok_def check_warn_def)

text \<open>What a status response must say for its checks to pass.\<close>

definition healthy_status :: "json \<Rightarrow> bool" where
  "healthy_status st \<longleftrightarrow>
     (let n = unwrap_or JNull (json_get ''notification'' st)
      in json_flag st ''agent_running'' \<noteq> Some False \<and> json_flag st ''authenticated'' = Some True
         \<and> json_flag st ''pending_sync'' \<noteq> Some True \<and> json_flag st ''has_local_key_cache'' = Some True
         \<and> json_flag n ''stale_cache'' \<noteq> Some True
         \<and> Option.bind (json_get ''state'' n) json_str = Some ''running'')"

lemma unwrap_flag [simp]:
  "unwrap_or False b \<longleftrightarrow> b = Some True" "unwrap_or True b \<longleftrightarrow> b \<noteq> Some False"
  by (cases b; auto simp: unwrap_or_def)+

lemma unwrap_is: "d \<noteq> v \<Longrightarrow> unwrap_or d x = v \<longleftrightarrow> x = Some v"
  by (cases x) (auto simp: unwrap_or_def)

lemma notification_check_ok:
  "dc_ok (notification_check True n) \<longleftrightarrow> Option.bind (json_get ''state'' n) json_str = Some ''running''"
  unfolding unwrap_is [of "''unknown''" "''running''", simplified, symmetric]
  by (auto simp: notification_check_def Let_def)

lemma status_checks_ok: "list_all dc_ok (status_checks st) \<longleftrightarrow> healthy_status st"
proof (cases "json_flag st ''authenticated'' = Some True")
  case True
  then show ?thesis
    using notification_check_ok [of "unwrap_or JNull (json_get ''notification'' st)"]
    by (simp add: status_checks_def healthy_status_def Let_def)
next
  case False
  then show ?thesis by (simp add: status_checks_def healthy_status_def Let_def)
qed

lemma server_checks_ok: "list_all dc_ok (server_checks E) \<longleftrightarrow> (\<exists>url. doc_discovery E = Inr (Some url))"
  by (simp add: server_checks_def split: sum.split option.split)

lemma daemon_checks_ok:
  "list_all dc_ok (daemon_checks E) \<longleftrightarrow>
     (\<exists>st. fetch_status_details_for_doctor (doc_status E) = Inr st \<and> healthy_status st)"
  by (simp add: daemon_checks_def status_checks_ok split: sum.split)

lemma runtime_check_ok:
  "dc_ok (runtime_check fix_it E) \<longleftrightarrow>
     is_ok (doc_local_dir E) \<and> (doc_legacy E = [] \<or> fix_it \<and> doc_legacy_after E = [])"
  by (simp add: runtime_check_def is_ok_def Let_def split: sum.split)

lemma selector_checks_ok:
  "list_all dc_ok (selector_checks E) \<longleftrightarrow>
     is_ok (doc_selector_dir E) \<and> doc_selector_exists E
     \<and> (\<exists>names. doc_selector_entries E = Inr names \<and> length (filter is_pub names) \<in> {1..5})"
  by (cases "doc_selector_dir E"; cases "doc_selector_entries E")
    (auto simp: selector_checks_def count_key_selector_files_def is_ok_def Suc_le_eq)

lemma endpoint_checks_ok:
  "list_all dc_ok (endpoint_checks E) \<longleftrightarrow>
     doc_socket_exists E
     \<and> (\<exists>path bits sock. doc_socket E = Inr path \<and> doc_socket_mode E = Inr bits \<and> bits mod 512 = 384
          \<and> doc_auth_sock E = Some sock \<and> path_eq path sock)"
  by (cases "doc_socket E"; cases "doc_socket_mode E"; cases "doc_auth_sock E")
    (auto simp: endpoint_checks_def socket_mode_check_def auth_sock_check_def Let_def)

definition selector_rules :: "text_file \<Rightarrow> bool" where
  "selector_rules f \<longleftrightarrow> f \<noteq> No_File \<and> contains ''IdentityFile'' (read_or_default f)
     \<and> contains ''IdentitiesOnly yes'' (read_or_default f)"

lemma include_file_checks_ok: "list_all dc_ok (include_file_checks ip f) \<longleftrightarrow> selector_rules f"
  by (auto simp: include_file_checks_def selector_rules_def)

lemma ssh_config_checks_ok:
  "list_all dc_ok (fst (ssh_config_checks False S fs)) \<longleftrightarrow>
     (\<exists>ip cp. managed_sshwarden_include_path S = Inr ip \<and> env_user_config S = Inr cp
        \<and> selector_rules (managed_file fs) \<and> has_include (env_home S) ip (user_config_file fs))"
  by (cases "managed_sshwarden_include_path S"; cases "env_user_config S")
    (auto simp: ssh_config_checks_def include_file_checks_ok)

lemma ssh_config_checks_read_only: "snd (ssh_config_checks False S fs) = fs"
  by (simp add: ssh_config_checks_def Let_def split: sum.split)

text \<open>
  C39: the verdict of \<open>doctor\<close> is sound and complete, and without \<open>--fix\<close> it changes nothing. It is
  "ok" exactly when the server advertises its notification URL; the daemon answers, serves its
  endpoint, has a session, no pending sync, a cache that is not stale and a hub connection that
  delivers; the state directory is known and no file of an older layout is left; between one and five
  key selectors exist; the agent socket is there with mode 0600 and \<open>SSH_AUTH_SOCK\<close> names it; and the
  user's SSH configuration includes a managed file with selector rules.
\<close>

theorem doctor_verdict_exact:
  "(list_all dc_ok (fst (doctor_checks False E fs)) \<longleftrightarrow>
      (\<exists>url. doc_discovery E = Inr (Some url))
      \<and> (\<exists>st. fetch_status_details_for_doctor (doc_status E) = Inr st \<and> healthy_status st)
      \<and> is_ok (doc_local_dir E) \<and> doc_legacy E = []
      \<and> is_ok (doc_selector_dir E) \<and> doc_selector_exists E
      \<and> (\<exists>names. doc_selector_entries E = Inr names \<and> length (filter is_pub names) \<in> {1..5})
      \<and> doc_socket_exists E
      \<and> (\<exists>path bits sock. doc_socket E = Inr path \<and> doc_socket_mode E = Inr bits \<and> bits mod 512 = 384
           \<and> doc_auth_sock E = Some sock \<and> path_eq path sock)
      \<and> (\<exists>ip cp. managed_sshwarden_include_path (doc_ssh E) = Inr ip \<and> env_user_config (doc_ssh E) = Inr cp
           \<and> selector_rules (managed_file fs) \<and> has_include (env_home (doc_ssh E)) ip (user_config_file fs)))
   \<and> snd (doctor_checks False E fs) = fs"
proof -
  obtain cs fs' where c: "ssh_config_checks False (doc_ssh E) fs = (cs, fs')" by fastforce
  then have "doctor_checks False E fs =
      (server_checks E @ daemon_checks E @ [runtime_check False E] @ selector_checks E @ endpoint_checks E @ cs, fs)"
    using ssh_config_checks_read_only [of "doc_ssh E" fs] by (simp add: doctor_checks_def)
  moreover note ssh_config_checks_ok [of "doc_ssh E" fs, unfolded c fst_conv]
  ultimately show ?thesis
    by (simp add: server_checks_ok daemon_checks_ok runtime_check_ok selector_checks_ok endpoint_checks_ok)
qed

text \<open>The daemon's part, for the details the daemon builds.\<close>

lemma healthy_live:
  "healthy_status (status_details W s) \<longleftrightarrow>
     is_running (d_agent s) \<and> api_client s \<noteq> None \<and> \<not> pending_sync s \<and> local_key_cache_data s \<noteq> None
     \<and> \<not> rs_stale_cache (notification_state s) \<and> rs_state (notification_state s) = Connected"
  by (simp add: healthy_status_def details_lookup runtime_lookup json_flag_def Let_def)

text \<open>
  A response without the flag \<open>agent_running\<close> counts as serving, unlike in the status view, where a
  missing flag means not serving.
\<close>

lemma missing_flag_counts_as_serving:
  "dc_ok (hd (status_checks (JObj [])))"
  "sr_agent (from_details None (JObj [])) = ''not serving SSH '' @ em_dash @ '' run `sshwarden doctor`''"
  by (simp_all add: status_checks_def Let_def json_flag_def empty_response_claims)

section \<open>The repair of the Include line\<close>

lemma include_line_recognised:
  "line_matches_sshwarden_include home (include_line_with_style home ip st) ip"
proof (cases st)
  case Absolute
  then have "include_line_with_style home ip st = include_line ip"
    by (simp add: include_line_with_style_def include_line_def path_arg_with_style_def path_arg_def)
  then show ?thesis
    using include_line_facts(1) [of home ip st] by (simp add: line_matches_sshwarden_include_def)
next
  case HomeRelative
  then show ?thesis
    using include_line_facts(1) [of home ip st] by (simp add: line_matches_sshwarden_include_def)
qed

text \<open>
  With \<open>--fix\<close>, a configuration that does not include the managed file gets the Include line, and the
  user's own lines stay as they are, in their order.
\<close>

theorem doctor_fix_installs_include:
  assumes S: "managed_sshwarden_include_path S = Inr ip" "env_user_config S = Inr cp" "env_style S = Inr st"
      "\<And>d. env_dir S d = Inr ()" "env_private S cp = Pw_Ok"
    and il: "LF \<notin> set (include_line_with_style (env_home S) ip st)" "CR \<notin> set (include_line_with_style (env_home S) ip st)"
    and config: "user_config_file fs = Ssh_Config.Text s \<or> user_config_file fs = No_File \<and> s = []" "clean s"
    and missing: "\<not> has_include (env_home S) ip (user_config_file fs)"
  shows "\<exists>s1. user_config_file (snd (ssh_config_checks True S fs)) = Ssh_Config.Text s1
    \<and> has_include (env_home S) ip (Ssh_Config.Text s1)
    \<and> filter (user_line (sshwarden_include (env_home S) ip)) (lines s1)
        = filter (user_line (sshwarden_include (env_home S) ip)) (lines s)"
proof -
  let ?il = "include_line_with_style (env_home S) ip st" and ?m = "sshwarden_include (env_home S) ip"
  note ilf = include_line_facts(1-3) [where home = "env_home S" and path = ip and st = st]
  have matches: "line_matches_sshwarden_include (env_home S) l ip" if "trim l = ?il" for l
    using include_line_recognised [of "env_home S" ip st] that ilf(1)
    by (simp add: line_matches_sshwarden_include_def)
  have no_line: "\<not> has_line ?il s"
  proof
    assume "has_line ?il s"
    then obtain l where "l \<in> set (lines s)" "trim l = ?il" by (auto simp: has_line_def list_ex_iff)
    then have l: "l \<in> set (lines s)" "line_matches_sshwarden_include (env_home S) l ip" using matches by blast+
    have "lines [] = []" by code_simp
    with l(1) have "user_config_file fs = Ssh_Config.Text s" using config(1) by auto
    with missing l show False by (auto simp: has_include_def list_ex_iff)
  qed
  then obtain s1 where s1: "include_added ?m ?il s = Some s1"
    by (cases "include_added ?m ?il s") (auto simp: include_added_def split: prod.splits if_splits)
  have sp: "?il \<in> set (lines s1)" "filter (user_line ?m) (lines s1) = filter (user_line ?m) (lines s)"
    using include_added_spec [OF config(2) il ilf(2,1,3) s1] by blast+
  have rd: "read_or_default (user_config_file fs) = s" using config(1) by (auto simp: read_or_default_def)
  have "write_sshwarden_include_line (env_home S) (env_style S) (env_dir S (unwrap_or [] (parent cp))) (env_private S cp)
      cp ip (user_config_file fs) = (Inr (), Ssh_Config.Text s1)"
    using S s1 rd by (simp add: write_sshwarden_include_line_def write_private_file_def sshwarden_include_def)
  then have "user_config_file (snd (ssh_config_checks True S fs)) = Ssh_Config.Text s1"
    using S(1,2) missing by (simp add: ssh_config_checks_def include_repair_def Let_def split: prod.split)
  moreover have "has_include (env_home S) ip (Ssh_Config.Text s1)"
    using sp(1) matches [OF ilf(1)] by (auto simp: has_include_def list_ex_iff)
  ultimately show ?thesis using sp(2) by blast
qed

end
