(* ===== verification/Listings.thy ===== *)
theory Listings
  imports Doctor Agent_Commands
begin

text \<open>
  The commands that show what is stored: \<open>keys list\<close> (\<open>src/commands/keys.rs\<close>) and \<open>ssh-config show\<close> and
  its status (\<open>src/commands/sshconfig.rs\<close>). Both listings import edited Host lines on the way, so they
  can write \<open>bindings.json\<close>. A result is the lines printed, how the command ends, and the files.
\<close>

section \<open>The key list\<close>

definition bullet :: string where "bullet = [CHR 0xE2, CHR 0x80, CHR 0xA2]"

definition right_arrow :: string where "right_arrow = [CHR 0xE2, CHR 0x86, CHR 0x92]"

definition selector_path_for_key :: "string result \<Rightarrow> string \<Rightarrow> string \<Rightarrow> string result" where
  "selector_path_for_key dir key item =
     bind_res dir (\<lambda>d. Inr (path_join d (selector_file_name key item)))"

definition lock_state :: "send_error + ControlResponse \<Rightarrow> string" where
  "lock_state reply =
     (case (case reply of
              Inr resp \<Rightarrow> Option.bind (resp_details resp) (\<lambda>d. Option.bind (json_get ''locked'' d) json_bool)
            | Inl _ \<Rightarrow> None) of
        Some True \<Rightarrow> '' '' @ em_dash @ '' vault locked''
      | Some False \<Rightarrow> '' '' @ em_dash @ '' vault unlocked''
      | None \<Rightarrow> [])"

definition host_lines :: "HostBindingsFile \<Rightarrow> string \<Rightarrow> string list" where
  "host_lines b i =
     (case am_get (bindings b) i of
        Some kb \<Rightarrow>
          if hosts kb \<noteq> [] then map (\<lambda>h. ''      host: '' @ h) (hosts kb)
          else [''      hosts: none '' @ em_dash @ '' `sshwarden keys bind <key> <host>`'']
      | None \<Rightarrow> [''      hosts: none '' @ em_dash @ '' `sshwarden keys bind <key> <host>`''])"

definition key_lines :: "(string \<Rightarrow> bool) \<Rightarrow> string result \<Rightarrow> HostBindingsFile \<Rightarrow> KeyIdentity \<Rightarrow> string list" where
  "key_lines exists dir b k =
     (let selector_ok = (case selector_path_for_key dir (ki_name k) (ki_vault_item_id k) of
                           Inr p \<Rightarrow> exists p | Inl _ \<Rightarrow> False)
      in (''  '' @ bullet @ '' '' @ ki_name k @ '' ('' @ ki_vault_item_id k @ '')  [''
          @ (if selector_ok then ''selector ready''
             else ''selector missing '' @ em_dash @ '' run `sshwarden ssh-config write`'') @ '']'')
         # host_lines b (ki_vault_item_id k))"

definition include_summary :: "ssh_env \<Rightarrow> ssh_files \<Rightarrow> error + string" where
  "include_summary E fs =
     bind_e (managed_sshwarden_include_path E) (\<lambda>include_path.
     bind_e (lift_e (env_user_config E)) (\<lambda>user_config.
       Inr (newline @ (if has_include (env_home E) include_path (user_config_file fs)
                       then ''ssh-config: Include active (ssh will use the bound keys).''
                       else ''ssh-config: not included '' @ em_dash @ '' run `sshwarden ssh-config write` to wire ''
                            @ user_config @ ''.''))))"

definition cmd_keys_list ::
  "ssh_env \<Rightarrow> (string \<Rightarrow> bool) \<Rightarrow> LocalKeyCacheFile option result \<Rightarrow> send_error + ControlResponse \<Rightarrow> ssh_files \<Rightarrow>
     string list \<times> (error + unit) \<times> ssh_files" where
  "cmd_keys_list E exists cache reply fs =
     (case cache of
        Inl e \<Rightarrow> ([], Inl (Message e), fs)
      | Inr None \<Rightarrow> ([''No keys cached yet. Run `sshwarden login` (or `sshwarden sync`) first.''], Inr (), fs)
      | Inr (Some c) \<Rightarrow>
          let keys = hdr_keys (cache_header c)
          in if keys = []
             then ([''No SSH keys in the local cache. Add SSH keys in Bitwarden, then `sshwarden sync`.''], Inr (), fs)
             else (case load_host_bindings_importing_managed E (from_cache_header keys) fs of
                     (loaded, fs1) \<Rightarrow>
                       let b = (case loaded of Inr b \<Rightarrow> b | Inl _ \<Rightarrow> bindings_default);
                           out = (''Cached SSH keys ('' @ show_nat (length keys) @ '')'' @ lock_state reply @ '':'')
                                 # concat (map (key_lines exists (env_selector_dir E) b) keys)
                       in (case include_summary E fs1 of
                             Inl e \<Rightarrow> (out, Inl e, fs1)
                           | Inr line \<Rightarrow> (out @ [line], Inr (), fs1))))"

section \<open>The SSH configuration\<close>

text \<open>The size of a file that is not UTF-8 text is an argument.\<close>

definition file_size :: "nat \<Rightarrow> text_file \<Rightarrow> nat option" where
  "file_size unknown f =
     (case f of No_File \<Rightarrow> None | Ssh_Config.Text s \<Rightarrow> Some (length s) | Not_Text \<Rightarrow> Some unknown)"

definition sshcfg_status_lines ::
  "string \<Rightarrow> string \<Rightarrow> nat option \<Rightarrow> string \<Rightarrow> bool \<Rightarrow> nat \<Rightarrow> HostBindingsFile \<Rightarrow> string list" where
  "sshcfg_status_lines bindings_path include_path size_of_snippet user_config included keys b =
     [''Bindings file:   '' @ bindings_path,
      ''Managed snippet: '' @ include_path,
      (case size_of_snippet of
         Some n \<Rightarrow> ''  '' @ right_arrow @ '' exists ('' @ show_nat n @ '' bytes)''
       | None \<Rightarrow> ''  '' @ right_arrow @ '' not present''),
      ''User ssh config: '' @ user_config,
      ''  '' @ right_arrow @ '' Include line '' @ (if included then ''present'' else ''missing''),
      ''Key cache:       '' @ show_nat keys @ '' keys'',
      ''Bindings:        '' @ show_nat (length (bindings b)) @ '' key(s) bound to ''
        @ show_nat (sum_list (map (\<lambda>(_, kb). length (hosts kb)) (bindings b))) @ '' host pattern(s)'']"

definition cmd_sshcfg_status ::
  "ssh_env \<Rightarrow> nat \<Rightarrow> LocalKeyCacheFile option result \<Rightarrow> ssh_files \<Rightarrow> string list \<times> (error + unit) \<times> ssh_files" where
  "cmd_sshcfg_status E unknown_size cache fs =
     (case bind_e (managed_sshwarden_include_path E) (\<lambda>p. bind_e (lift_e (env_user_config E)) (\<lambda>c.
             bind_e (lift_e cache) (\<lambda>loaded. Inr (p, c, loaded)))) of
        Inl e \<Rightarrow> ([], Inl e, fs)
      | Inr (include_path, user_config, loaded) \<Rightarrow>
          (case (case loaded of
                   None \<Rightarrow> (Inr bindings_default, fs)
                 | Some c \<Rightarrow> load_host_bindings_importing_managed E (from_cache_header (hdr_keys (cache_header c))) fs) of
             (Inl e, fs1) \<Rightarrow> ([], Inl e, fs1)
           | (Inr b, fs1) \<Rightarrow>
               (case env_bindings E of
                  Inl e \<Rightarrow> ([], Inl (Message e), fs1)
                | Inr bindings_path \<Rightarrow>
                    (sshcfg_status_lines bindings_path include_path (file_size unknown_size (managed_file fs1)) user_config
                       (has_include (env_home E) include_path (user_config_file fs1))
                       (case loaded of Some c \<Rightarrow> length (hdr_keys (cache_header c)) | None \<Rightarrow> 0) b,
                     Inr (), fs1))))"

text \<open>\<open>show\<close> prints the snippet as it is, ended by a line feed.\<close>

definition cmd_sshcfg_show :: "ssh_env \<Rightarrow> ssh_files \<Rightarrow> error + string" where
  "cmd_sshcfg_show E fs =
     bind_e (managed_sshwarden_include_path E) (\<lambda>include_path.
       case managed_file fs of
         Ssh_Config.Text content \<Rightarrow>
           Inr (content @ (if ends_with newline content then [] else newline))
       | _ \<Rightarrow> Inl (Message (''Failed to read '' @ include_path)))"

section \<open>Properties\<close>

lemma import_keeps_config:
  assumes "load_host_bindings_importing_managed E keys fs = (r, fs1)"
  shows "managed_file fs1 = managed_file fs" and "user_config_file fs1 = user_config_file fs"
  using assms
  by (auto simp: load_host_bindings_importing_managed_def save_bindings_def
      split: sum.splits prod.splits if_splits)

text \<open>
  A listing never changes the SSH configuration files, and changes the bindings only when the managed
  snippet holds hosts the bindings do not: then the file is written without the lock.
\<close>

lemma keys_list_effects:
  assumes "cmd_keys_list E exists cache reply fs = (out, r, fs1)"
  shows "managed_file fs1 = managed_file fs \<and> user_config_file fs1 = user_config_file fs
    \<and> (bindings_disk fs1 \<noteq> bindings_disk fs \<longrightarrow>
        (\<exists>c b p b'. cache = Inr (Some c) \<and> managed_sshwarden_include_path E = Inr p
           \<and> import_host_bindings_from_managed_file (now_secs (env_clock E)) p (managed_file fs)
                (from_cache_header (hdr_keys (cache_header c))) b = Inr (True, b')))"
proof -
  consider "fs1 = fs" | c loaded where "cache = Inr (Some c)"
      "load_host_bindings_importing_managed E (from_cache_header (hdr_keys (cache_header c))) fs = (loaded, fs1)"
    using assms by (auto simp: cmd_keys_list_def Let_def split: sum.splits option.splits prod.splits if_splits)
  then show ?thesis
  proof cases
    case (2 c loaded)
    then have "bindings_disk fs1 \<noteq> bindings_disk fs \<longrightarrow>
        (\<exists>b p b'. managed_sshwarden_include_path E = Inr p
           \<and> import_host_bindings_from_managed_file (now_secs (env_clock E)) p (managed_file fs)
                (from_cache_header (hdr_keys (cache_header c))) b = Inr (True, b'))"
      by (auto simp: load_host_bindings_importing_managed_def bind_e_def split: sum.splits prod.splits if_splits)
    then show ?thesis using 2 import_keeps_config by blast
  qed simp
qed

text \<open>The listing shows every key of the cache, with every host bound to it.\<close>

lemma keys_list_complete:
  assumes "cache = Inr (Some c)" "k \<in> set (hdr_keys (cache_header c))"
    and "load_host_bindings_importing_managed E (from_cache_header (hdr_keys (cache_header c))) fs = (Inr b, fs1)"
    and "am_get (bindings b) (ki_vault_item_id k) = Some kb" "h \<in> set (hosts kb)"
  shows "''      host: '' @ h \<in> set (fst (cmd_keys_list E exists cache reply fs))"
proof -
  have "''      host: '' @ h \<in> set (host_lines b (ki_vault_item_id k))"
    using assms(4,5) by (auto simp: host_lines_def)
  then have "''      host: '' @ h \<in> set (key_lines exists (env_selector_dir E) b k)"
    by (simp add: key_lines_def Let_def)
  moreover have "hdr_keys (cache_header c) \<noteq> []" using assms(2) by auto
  ultimately show ?thesis
    using assms(1-3) by (auto simp: cmd_keys_list_def Let_def split: sum.split simp del: append.simps)
qed

end
