(* ===== verification/Settings.thy ===== *)
theory Settings
  imports Storage_Layout Ui_Request
begin

text \<open>
  \<open>crates/sshwarden-config/src/lib.rs\<close>: every section of the configuration file with its defaults,
  saving it and the command \<open>config\<close>; the name and place of a device's session file
  (\<open>session.rs\<close>); and the version the build script (\<open>src/build.rs\<close>) accepts. The TOML text is read and
  written by the crate \<open>toml\<close>, an argument; what it leaves to the program is which fields a document
  has, so a document is a record of optional sections of optional fields.
\<close>

section \<open>The configuration\<close>

record AuthConfig =
  auth_method :: string
  auth_email :: string

datatype ConfigUnlockMethod = Method_WindowsHello | Method_Pin | Method_Password

datatype FallbackMethod = Fallback_Pin | Fallback_Password

record UnlockConfig =
  unlock_method :: ConfigUnlockMethod
  unlock_fallback :: FallbackMethod
  auto_unlock_on_request :: bool

record settings = Config +
  st_server :: ServerConfig
  st_auth :: AuthConfig
  st_prompt_behavior :: PromptBehavior
  st_agent :: AgentConfig
  st_unlock :: UnlockConfig
  st_socket_path :: "string option"

definition default_base_url :: string where "default_base_url = ''https://vault.bitwarden.com''"

definition server_default :: ServerConfig where
  "server_default = \<lparr>base_url = default_base_url, cfg_api_url = None, cfg_identity_url = None,
     cfg_notifications_url = None\<rparr>"

definition default_auth_method :: string where "default_auth_method = ''password''"

definition auth_default :: AuthConfig where
  "auth_default = \<lparr>auth_method = default_auth_method, auth_email = []\<rparr>"

definition default_sync_interval :: nat where "default_sync_interval = 300"

definition default_lock_timeout :: nat where "default_lock_timeout = 3600"

definition default_notification_keepalive_interval :: nat where "default_notification_keepalive_interval = 30"

definition default_notification_idle_timeout :: nat where "default_notification_idle_timeout = 90"

definition default_notification_reconnect_attempts_before_fallback :: nat where
  "default_notification_reconnect_attempts_before_fallback = 3"

definition default_notification_reconnect_max_backoff :: nat where
  "default_notification_reconnect_max_backoff = 60"

definition prompt_behavior_default :: PromptBehavior where "prompt_behavior_default = Always"

definition agent_default :: AgentConfig where
  "agent_default =
     \<lparr>sync_interval = default_sync_interval, lock_timeout = default_lock_timeout,
      notification_keepalive_interval = default_notification_keepalive_interval,
      notification_idle_timeout = default_notification_idle_timeout,
      notification_reconnect_attempts_before_fallback = default_notification_reconnect_attempts_before_fallback,
      notification_reconnect_max_backoff = default_notification_reconnect_max_backoff\<rparr>"

definition unlock_method_default :: ConfigUnlockMethod where "unlock_method_default = Method_Password"

definition unlock_default :: UnlockConfig where
  "unlock_default = \<lparr>unlock_method = unlock_method_default, unlock_fallback = Fallback_Pin,
     auto_unlock_on_request = True\<rparr>"

definition default_device_id :: string where "default_device_id = ''auto''"

definition settings_default :: settings where
  "settings_default = Config.extend config_default
     \<lparr>st_server = server_default, st_auth = auth_default, st_prompt_behavior = prompt_behavior_default,
      st_agent = agent_default, st_unlock = unlock_default, st_socket_path = None\<rparr>"

section \<open>Reading a document\<close>

record server_doc =
  sd_base_url :: "string option"
  sd_api_url :: "string option"
  sd_identity_url :: "string option"
  sd_notifications_url :: "string option"

record auth_doc =
  ad_method :: "string option"
  ad_email :: "string option"

record agent_doc =
  gd_prompt_behavior :: "PromptBehavior option"
  gd_sync_interval :: "nat option"
  gd_lock_timeout :: "nat option"
  gd_keepalive :: "nat option"
  gd_idle :: "nat option"
  gd_attempts :: "nat option"
  gd_max_backoff :: "nat option"

record unlock_doc =
  ud_method :: "ConfigUnlockMethod option"
  ud_fallback :: "FallbackMethod option"
  ud_auto :: "bool option"

record ssh_config_doc =
  cd_managed_path :: "string option"
  cd_path_style :: "SshConfigPathStyle option"

record storage_doc =
  td_portable :: "bool option"
  td_portable_dir :: "string option"
  td_multi_device :: "bool option"
  td_device_id :: "string option"
  td_local_dir :: "string option"

record config_doc =
  cf_server :: "server_doc option"
  cf_auth :: "auth_doc option"
  cf_agent :: "agent_doc option"
  cf_unlock :: "unlock_doc option"
  cf_socket :: "string option option"
  cf_ssh_config :: "ssh_config_doc option"
  cf_storage :: "storage_doc option"
  cf_logging :: "u64 option option"

text \<open>The attributes \<open>#[serde(default)]\<close> and \<open>#[serde(default = ...)]\<close>, field by field and section by section.\<close>

definition read_server :: "server_doc \<Rightarrow> ServerConfig" where
  "read_server d = \<lparr>base_url = unwrap_or default_base_url (sd_base_url d), cfg_api_url = sd_api_url d,
     cfg_identity_url = sd_identity_url d, cfg_notifications_url = sd_notifications_url d\<rparr>"

definition read_auth :: "auth_doc \<Rightarrow> AuthConfig" where
  "read_auth d = \<lparr>auth_method = unwrap_or default_auth_method (ad_method d), auth_email = unwrap_or [] (ad_email d)\<rparr>"

definition read_prompt_behavior :: "agent_doc \<Rightarrow> PromptBehavior" where
  "read_prompt_behavior d = unwrap_or prompt_behavior_default (gd_prompt_behavior d)"

definition read_agent :: "agent_doc \<Rightarrow> AgentConfig" where
  "read_agent d =
     \<lparr>sync_interval = unwrap_or default_sync_interval (gd_sync_interval d),
      lock_timeout = unwrap_or default_lock_timeout (gd_lock_timeout d),
      notification_keepalive_interval = unwrap_or default_notification_keepalive_interval (gd_keepalive d),
      notification_idle_timeout = unwrap_or default_notification_idle_timeout (gd_idle d),
      notification_reconnect_attempts_before_fallback =
        unwrap_or default_notification_reconnect_attempts_before_fallback (gd_attempts d),
      notification_reconnect_max_backoff = unwrap_or default_notification_reconnect_max_backoff (gd_max_backoff d)\<rparr>"

definition read_unlock :: "unlock_doc \<Rightarrow> UnlockConfig" where
  "read_unlock d = \<lparr>unlock_method = unwrap_or unlock_method_default (ud_method d),
     unlock_fallback = unwrap_or Fallback_Pin (ud_fallback d), auto_unlock_on_request = unwrap_or True (ud_auto d)\<rparr>"

definition read_ssh_config :: "ssh_config_doc \<Rightarrow> SshConfigConfig" where
  "read_ssh_config d = \<lparr>managed_path = cd_managed_path d, path_style = unwrap_or Absolute (cd_path_style d)\<rparr>"

definition read_storage :: "storage_doc \<Rightarrow> StorageConfig" where
  "read_storage d = \<lparr>portable = unwrap_or False (td_portable d), portable_dir = td_portable_dir d,
     multi_device = unwrap_or False (td_multi_device d), cfg_device_id = unwrap_or default_device_id (td_device_id d),
     local_dir = td_local_dir d\<rparr>"

definition read_section :: "('d \<Rightarrow> 'c) \<Rightarrow> 'c \<Rightarrow> 'd option \<Rightarrow> 'c" where
  "read_section read_it default_it d = (case d of None \<Rightarrow> default_it | Some x \<Rightarrow> read_it x)"

definition settings_of_doc :: "config_doc \<Rightarrow> settings" where
  "settings_of_doc d =
     \<lparr>ssh_config = read_section read_ssh_config (ssh_config settings_default) (cf_ssh_config d),
      storage = read_section read_storage (storage settings_default) (cf_storage d),
      max_file_bytes = read_section (unwrap_or default_log_max_file_bytes) (max_file_bytes settings_default) (cf_logging d),
      st_server = read_section read_server server_default (cf_server d),
      st_auth = read_section read_auth auth_default (cf_auth d),
      st_prompt_behavior = read_section read_prompt_behavior prompt_behavior_default (cf_agent d),
      st_agent = read_section read_agent agent_default (cf_agent d),
      st_unlock = read_section read_unlock unlock_default (cf_unlock d),
      st_socket_path = read_section id None (cf_socket d)\<rparr>"

section \<open>Saving\<close>

text \<open>
  The file: \<open>write_at\<close> is the outcome of writing, with what is left of the text when it fails part
  way. \<open>render\<close> is \<open>toml::to_string_pretty\<close>.
\<close>

definition save_settings ::
  "sys_env \<Rightarrow> (string \<Rightarrow> unit result) \<Rightarrow> (settings \<Rightarrow> string result) \<Rightarrow> (string \<Rightarrow> unit result \<times> nat) \<Rightarrow> settings \<Rightarrow>
     resolved \<Rightarrow> (unit result \<times> (string \<times> string) option) \<times> resolved" where
  "save_settings E mkdir render write_at c st =
     (case config_path E st of
        (Inl e, st') \<Rightarrow> ((Inl e, None), st')
      | (Inr path, st') \<Rightarrow>
          ((case (case parent path of
                    None \<Rightarrow> Inr ()
                  | Some dir \<Rightarrow> context_msg (''Failed to create config directory: '' @ dir) (mkdir dir)) of
              Inl e \<Rightarrow> (Inl e, None)
            | Inr _ \<Rightarrow>
                (case context_msg ''Failed to serialize config'' (render c) of
                   Inl e \<Rightarrow> (Inl e, None)
                 | Inr text \<Rightarrow>
                     (case write_at path of
                        (Inr _, _) \<Rightarrow> (Inr (), Some (path, text))
                      | (Inl _, n) \<Rightarrow> (Inl (''Failed to write config file: '' @ path), Some (path, take n text))))), st'))"

section \<open>Session files\<close>

text \<open>\<open>alnum\<close> is \<open>char::is_alphanumeric\<close> (Unicode), on one character.\<close>

definition gethostname :: "sys_env \<Rightarrow> string option" where
  "gethostname E = option_filter (\<lambda>s. s \<noteq> []) (map_option trim (hostname_output E))"

definition session_hostname :: "(string \<Rightarrow> bool) \<Rightarrow> sys_env \<Rightarrow> string" where
  "session_hostname alnum E =
     concat (filter (\<lambda>g. alnum g \<or> g = ''-'' \<or> g = ''_'')
       (rust_chars (unwrap_or ''unknown''
         (option_or (env_var E ''COMPUTERNAME'') (option_or (env_var E ''HOSTNAME'') (gethostname E))))))"

definition session_file_name :: "(string \<Rightarrow> bool) \<Rightarrow> sys_env \<Rightarrow> string" where
  "session_file_name alnum E = ''session-'' @ session_hostname alnum E @ ''.enc''"

definition session_path :: "(string \<Rightarrow> bool) \<Rightarrow> sys_env \<Rightarrow> string resolver" where
  "session_path alnum E = then_r (device_data_dir E) (\<lambda>dir. pure_r (Inr (path_join dir (session_file_name alnum E))))"

definition session_legacy_path :: "(string \<Rightarrow> bool) \<Rightarrow> sys_env \<Rightarrow> string resolver" where
  "session_legacy_path alnum E = then_r (shared_data_dir E) (\<lambda>dir. pure_r (Inr (path_join dir (session_file_name alnum E))))"

section \<open>The version\<close>

definition is_numeric :: "string \<Rightarrow> bool" where
  "is_numeric v \<longleftrightarrow> v \<noteq> [] \<and> list_all is_digit v"

definition valid_suffix :: "string \<Rightarrow> bool" where
  "valid_suffix v \<longleftrightarrow>
     v = [] \<or> 1 < length v \<and> list_all (\<lambda>b. is_ascii_alphanumeric b \<or> b = CHR ''-'' \<or> b = CHR ''+'' \<or> b = CHR ''.'') v"

definition is_semver_like :: "string \<Rightarrow> bool" where
  "is_semver_like version =
     (let at_suffix = (\<lambda>c. c = CHR ''-'' \<or> c = CHR ''+'');
          core = takeWhile (\<lambda>c. \<not> at_suffix c) version;
          suffix = dropWhile (\<lambda>c. \<not> at_suffix c) version
      in case split_on CHR ''.'' core of
           [major, minor, patch] \<Rightarrow> is_numeric major \<and> is_numeric minor \<and> is_numeric patch \<and> valid_suffix suffix
         | _ \<Rightarrow> False)"

definition normalize_version :: "string \<Rightarrow> string option" where
  "normalize_version val =
     (let trimmed = trim val; version = unwrap_or trimmed (strip_prefix ''v'' trimmed)
      in if is_semver_like version then Some version else None)"

text \<open>\<open>tag\<close> is the exact tag \<open>git describe\<close> prints, when it succeeds.\<close>

definition release_version :: "(string \<Rightarrow> string option) \<Rightarrow> bytes option \<Rightarrow> string option" where
  "release_version var tag =
     (case var ''SSHWARDEN_VERSION'' of
        Some v \<Rightarrow> normalize_version v
      | None \<Rightarrow>
          (case (if var ''GITHUB_REF_TYPE'' = Some ''tag'' then var ''GITHUB_REF_NAME'' else None) of
             Some t \<Rightarrow> normalize_version t
           | None \<Rightarrow> Option.bind (Option.bind tag from_utf8) normalize_version))"

definition app_version :: "string \<Rightarrow> (string \<Rightarrow> string option) \<Rightarrow> bytes option \<Rightarrow> string" where
  "app_version package_version var tag = unwrap_or package_version (release_version var tag)"

section \<open>Properties\<close>

text \<open>
  An absent field reads as the default of an absent section, everywhere except for the device id, which
  is empty by \<open>Default\<close> and "auto" by the attribute; both mean the same.
\<close>

lemma absent_fields_are_defaults:
  "read_server \<lparr>sd_base_url = None, sd_api_url = None, sd_identity_url = None, sd_notifications_url = None\<rparr> = server_default"
  "read_auth \<lparr>ad_method = None, ad_email = None\<rparr> = auth_default"
  "read_agent \<lparr>gd_prompt_behavior = None, gd_sync_interval = None, gd_lock_timeout = None, gd_keepalive = None,
     gd_idle = None, gd_attempts = None, gd_max_backoff = None\<rparr> = agent_default"
  "read_unlock \<lparr>ud_method = None, ud_fallback = None, ud_auto = None\<rparr> = unlock_default"
  "read_ssh_config \<lparr>cd_managed_path = None, cd_path_style = None\<rparr> = ssh_config settings_default"
  "read_storage \<lparr>td_portable = None, td_portable_dir = None, td_multi_device = None, td_device_id = None, td_local_dir = None\<rparr>
     = (storage settings_default)\<lparr>cfg_device_id := ''auto''\<rparr>"
  by (simp_all add: read_server_def server_default_def read_auth_def auth_default_def read_agent_def agent_default_def
      read_unlock_def unlock_default_def read_ssh_config_def read_storage_def settings_default_def config_default_def
      Config.defs default_device_id_def unwrap_or_def)

lemma auto_device_id_is_empty:
  "current_device_id_from_config E (c\<lparr>storage := (storage c)\<lparr>cfg_device_id := ''auto''\<rparr>\<rparr>)
     = current_device_id_from_config E (c\<lparr>storage := (storage c)\<lparr>cfg_device_id := []\<rparr>\<rparr>)"
proof -
  have "trim ''auto'' = ''auto''" by code_simp
  then show ?thesis by (simp add: current_device_id_from_config_def Let_def split: option.split)
qed

text \<open>What the daemon runs with when nothing is configured.\<close>

lemma default_daemon_options:
  "notification_options (st_agent settings_default)
     = \<lparr>keepalive_interval = secs 30, idle_timeout = secs 90, reconnect_attempts_before_fallback = 3,
        reconnect_max_backoff = secs 60, fallback_sync_interval = secs 300\<rparr>"
  "lock_timeout (st_agent settings_default) = 3600" "st_prompt_behavior settings_default = Always"
  by (simp_all add: notification_options_def settings_default_def Config.defs agent_default_def prompt_behavior_default_def
      default_sync_interval_def default_lock_timeout_def default_notification_keepalive_interval_def
      default_notification_idle_timeout_def default_notification_reconnect_attempts_before_fallback_def
      default_notification_reconnect_max_backoff_def)

text \<open>A session file is an entry of its directory: its name has no separator.\<close>

lemma session_file_is_entry:
  assumes "\<And>g. alnum g \<Longrightarrow> CHR ''/'' \<notin> set g"
  shows "CHR ''/'' \<notin> set (session_file_name alnum E)"
  using assms by (auto simp: session_file_name_def session_hostname_def)

text \<open>A version the build script accepts has three numbers and an allowed rest.\<close>

lemma join_split_on: "join [c] (split_on c s) = s"
proof (induction s)
  case (Cons d s)
  moreover have "split_on c s \<noteq> []" by simp
  then obtain y ys where "split_on c s = y # ys" by (cases "split_on c s") auto
  ultimately show ?case by (cases ys) auto
qed simp

lemma accepted_version_shape:
  assumes "normalize_version v = Some w"
  shows "\<exists>a b c suffix. w = a @ ''.'' @ b @ ''.'' @ c @ suffix \<and> is_numeric a \<and> is_numeric b \<and> is_numeric c
    \<and> valid_suffix suffix"
proof -
  let ?P = "\<lambda>c. \<not> (c = CHR ''-'' \<or> c = CHR ''+'')"
  have w: "is_semver_like w" using assms by (auto simp: normalize_version_def Let_def split: if_splits)
  then obtain a b c where p: "split_on CHR ''.'' (takeWhile ?P w) = [a, b, c]"
      "is_numeric a" "is_numeric b" "is_numeric c" "valid_suffix (dropWhile ?P w)"
    by (auto simp: is_semver_like_def Let_def split: list.splits)
  then have "takeWhile ?P w = a @ ''.'' @ b @ ''.'' @ c"
    using join_split_on [of "CHR ''.''" "takeWhile ?P w"] by simp
  then have "w = a @ ''.'' @ b @ ''.'' @ c @ dropWhile ?P w"
    using takeWhile_dropWhile_id [of ?P w] by simp
  with p show ?thesis by blast
qed

end
