(* ===== verification/Spec2Isabelle.thy ===== *)
theory Spec2Isabelle
  imports Daemon Selectors Log_File Bind_Dialog Cli Endpoints Listings Settings
begin

text \<open>
  SSHWarden is an SSH agent whose keys live in a Bitwarden vault. A daemon holds the keys, serves the SSH
  agent protocol on a socket, follows changes of the vault through a notification hub, and is driven by a
  command line over a second socket, the control channel. Keys survive a restart in an encrypted cache
  that a PIN or the platform's key store opens; lists and signatures are confirmed in dialogs; managed SSH
  configuration tells OpenSSH which key to offer to which host. This development models the Linux build.

  \<^bold>\<open>How the parts meet.\<close> \<open>main\<close> (\<open>Cli\<close>) claims the PID file (\<open>Pid_File\<close>), opens the log (\<open>Log_File\<close>) and runs the
  daemon (\<open>Daemon\<close>): one loop over control actions, hub events, timers and shutdown, on shared state
  (the record \<open>daemon\<close> of \<open>Sync\<close>). A control line is read and dispatched by \<open>Control_Proto\<close> and executed by
  \<open>Control\<close>; unlocking goes through \<open>Unlock\<close>, \<open>Key_Cache\<close> and the lockout of \<open>Pin_Lockout\<close>; syncing through
  \<open>Sync\<close> and \<open>Client\<close>; the hub client (\<open>Hub_Client\<close>) runs in its own task and is mirrored by
  \<open>Runtime_State\<close>. Requests of SSH clients reach \<open>Agent\<close>, are classified by \<open>Ssh_Request\<close> and decided by
  the tasks of \<open>Ui_Request\<close>, which ask the user through \<open>Dialogs\<close> and \<open>Bind_Dialog\<close>.

  \<^bold>\<open>Theories and sources\<close> (paths below \<open>src/\<close> of the repository; a definition has the name of its function, and
  one that is a part of a longer function says so in its text).

  Vocabulary.
  \<^item> \<open>Prelude\<close>: words, results, saturating addition, association lists for \<open>HashMap\<close> and \<open>BTreeMap\<close>.
  \<^item> \<open>Rust_Text\<close>: the string library; a string is its UTF-8 bytes. \<open>Paths\<close>: \<open>std::path\<close> on Unix.

  The daemon.
  \<^item> \<open>Ssh_Request\<close>: \<open>sshwarden-agent/src/request_parser.rs\<close>. \<open>Agent\<close>: \<open>agent.rs\<close>, \<open>peerinfo\<close>.
  \<^item> \<open>Endpoints\<close>: \<open>unix.rs\<close>, \<open>peercred_unix_listener_stream.rs\<close>, the setup of the control socket in
    \<open>control.rs\<close>; also \<open>sshwarden-ui/src/unlock/native.rs\<close> and \<open>window_placement.rs\<close>.
  \<^item> \<open>Control_Proto\<close>: \<open>sshwarden-agent/src/control.rs\<close>, from a line to an action.
  \<^item> \<open>Crypto\<close>, \<open>Client\<close>, \<open>Signalr\<close>, \<open>Hub_Client\<close>: \<open>sshwarden-api/src/crypto.rs\<close>, \<open>client.rs\<close>,
    \<open>models.rs\<close>, \<open>notifications.rs\<close>.
  \<^item> \<open>Stores\<close>: \<open>sshwarden-config/src/cache.rs\<close>, \<open>unlock_slots.rs\<close>, \<open>session.rs\<close>. \<open>Key_Cache\<close>: \<open>src/cache.rs\<close>.
  \<^item> \<open>Runtime_State\<close>: \<open>src/runtime.rs\<close>, \<open>src/notifications.rs\<close>. \<open>Sync\<close>: \<open>src/sync.rs\<close>. \<open>Unlock\<close>: \<open>src/unlock.rs\<close>.
  \<^item> \<open>Pin_Lockout\<close>, \<open>Control\<close>: \<open>src/control.rs\<close>. \<open>Ui_Request\<close>: \<open>src/ui.rs\<close>. \<open>Daemon\<close>: \<open>src/daemon.rs\<close>.
  \<^item> \<open>Dialogs\<close>: \<open>sshwarden-ui/src/unlock/slint_dialog.rs\<close>, \<open>notify/slint_dialog.rs\<close>. \<open>Bind_Dialog\<close>:
    \<open>bind_hosts/slint_dialog.rs\<close>, \<open>src/bindings_cli.rs\<close>. \<open>Ssh_Target\<close>: \<open>src/ssh_target.rs\<close>, \<open>src/main.rs\<close>.
  \<^item> \<open>Vault_Safety\<close> and \<open>Vault_Lifecycle\<close> have no code of their own: they hold what the control handler
    guarantees as a whole.

  Files and configuration.
  \<^item> \<open>Storage_Layout\<close>, \<open>Settings\<close>: \<open>sshwarden-config/src/lib.rs\<close> (\<open>Settings\<close> also \<open>build.rs\<close>); \<open>Atomic_File\<close>: its
    \<open>write_owner_only_file\<close>.
  \<^item> \<open>Bindings\<close>: \<open>sshwarden-config/src/bindings.rs\<close>. \<open>Ssh_Config\<close>: \<open>ssh_config.rs\<close> and the edits of
    \<open>~/.ssh/config\<close> in \<open>src/sshconfig.rs\<close>. \<open>Managed_Config\<close>, \<open>Selectors\<close>: the rest of \<open>src/sshconfig.rs\<close>.
  \<^item> \<open>Naming\<close>: \<open>src/naming.rs\<close>. \<open>Path_Safety\<close>: \<open>src/path_util.rs\<close>. \<open>Pid_File\<close>: \<open>src/process.rs\<close>. \<open>Log_File\<close>: \<open>src/logging.rs\<close>.

  Commands.
  \<^item> \<open>Cli\<close>: \<open>src/cli.rs\<close>, \<open>src/main.rs\<close>, \<open>src/shell.rs\<close>, \<open>commands/login.rs\<close>, \<open>commands/env.rs\<close>, autostart.
  \<^item> \<open>Agent_Commands\<close>: the client side of the control channel, \<open>stop\<close>, \<open>restart\<close>. \<open>Status_Report\<close>:
    \<open>src/status_report.rs\<close>. \<open>Doctor\<close>: \<open>src/status.rs\<close>. \<open>Listings\<close>: \<open>commands/keys.rs\<close>, \<open>commands/sshconfig.rs\<close>.
\<close>

text \<open>
  \<^bold>\<open>How code is modelled.\<close> A struct is a record, an enum a datatype, \<open>u32\<close> and \<open>u64\<close> are words where they
  can wrap and numbers with their bound as a hypothesis elsewhere. An error is the text it displays.
  Handlers thread the state of the daemon explicitly. What runs beside other things is a step machine:
  the hub client (\<open>loop_step\<close>), the claim of the PID file (one step per system call of one process), the
  locked updates of \<open>bindings.json\<close>, the tasks of \<open>Ui_Request\<close> and the arms of the daemon's loop (each
  arm is one step; a control action the watchdog aborts is one that stalled before it changed anything),
  and the dialogs (one step per action of the user). Replacing a file and opening a socket
  record every intermediate state, so that a statement about all of them covers a crash at any point.

  Outside code is a parameter: the cryptographic crates (\<open>crypto_lib\<close>, with what is relied on in
  \<open>suite_ok\<close>), \<open>ssh_key\<close> (\<open>ssh_lib\<close>), \<open>rmpv\<close> (\<open>msgpack\<close>), HTTP and JSON (\<open>net\<close>, \<open>host\<close>), the operating system
  (\<open>os\<close>, \<open>sys_env\<close>, \<open>ssh_env\<close>, \<open>path_env\<close>, \<open>selector_env\<close>, \<open>socket_answers\<close>), clocks, random draws, and the user.
  Every call into them may fail, independently of the others. Each witness instantiates the
  parameters with concrete functions.

  \<^bold>\<open>Interfaces.\<close> \<open>finite_map\<close> (\<open>Prelude\<close>, interpreted for association lists) is what the stores rely on;
  \<open>key_agent\<close> (\<open>Agent\<close>) is what the control handler relies on of the key store; \<open>throttle\<close> (\<open>Pin_Lockout\<close>)
  bounds the guesses of any counter with a lockout; \<open>paced\<close> (\<open>Hub_Client\<close>) bounds emissions in time;
  \<open>envelope\<close> (\<open>Crypto\<close>) is a round trip under a key, interpreted for cache keys and for PINs;
  \<open>versioned_store\<close> (\<open>Stores\<close>) is load, save and delete, interpreted for the three files; \<open>one_shot\<close>
  (\<open>Dialogs\<close>) is a window whose first answer stands, interpreted for the three dialogs.

  \<^bold>\<open>What is shown.\<close>
  \<^item> Locking and unlocking: a locked vault cannot sign in any reachable state of the daemon; only a secret
    unlocks it; wrong PINs are bounded in time; the PIN set before a lock unlocks after it; \<open>forget\<close> leaves
    nothing, or says what it could not remove.
  \<^item> Requests: every request is answered once, with its own id, and approved only by consent; the PIN
    window behaves as the list of attempts that the unlock code assumes; the binding window saves what it
    shows.
  \<^item> Vault contents: a sync gives exactly the usable keys, memory and disk agree with it afterwards, a
    pending sync and a hub event are not lost; the status mirror follows the hub client.
  \<^item> Cryptography: round trips, and no plaintext without a verified MAC. The frame parser's one panic.
  \<^item> Files: replacing keeps the old or the new contents; updates under the lock are not lost; edits of SSH
    configuration spare the user's lines; generated configuration is read back; directories are confined;
    the log is bounded; one daemon at a time.
  \<^item> Commands: the channel delivers commands and answers unchanged; a restart waits for the exit; \<open>status\<close> and
    \<open>doctor\<close> say what is the case; the shell reads the exports of \<open>env\<close> as they were meant.

  Where the code departs from its documentation, or a call misbehaves, there is a lemma that shows it
  on a concrete input or in general: \<open>new_pin_unlocks_locked_vault\<close>, \<open>rebinding_is_reverted\<close>,
  \<open>starters_can_both_win\<close>, \<open>failed_reopen_loses_log\<close>, \<open>socket_open_before_restricted\<close>, \<open>fish_misreads\<close>
  and others beside the definitions they are about.

  \<^bold>\<open>Bounds.\<close> A request shows at most three dialogs, so three answers are enough to finish it. Waiting for
  the bindings lock makes at most 201 attempts (ten seconds in steps of 50 milliseconds). A claim of the
  PID file that runs alone needs at most eight system calls. \<open>stop\<close> and \<open>restart\<close> look fifty times. A
  control line is read up to 64 KiB. All other recursions are structural or have a measure; no model runs
  out of fuel.
\<close>

text \<open>
  \<^bold>\<open>Not modelled.\<close>
  \<^item> Windows and macOS code (named pipes and their security, Windows Hello, CredUI, startup shortcuts,
    Keychain, LaunchAgents): other builds. A Hello slot or token found in a file is kept, as in the code.
  \<^item> Drawing: the Slint markup, placing and shaking of windows apart from the arithmetic of centring. A window's
    events are the user's actions.
  \<^item> Libraries: the SSH agent wire protocol (\<open>bitwarden-russh\<close>), argument parsing (\<open>clap\<close>), TOML, JSON, TLS,
    WebSocket and HTTP, the process table. Their answers are arguments.
  \<^item> Log messages, except that a failure is only logged; wiping secrets from memory; memory safety, which is
    the compiler's.
  \<^item> Timing beyond the instants handed to the steps: fairness of the scheduler and of \<open>select!\<close> is not assumed;
    liveness is stated as what is due or still pending after a step.
  \<^item> Spawning the detached process, and the tests and examples of the repository.
\<close>

end
